theory Spec2Isabelle
  imports Complex_Main "HOL-Library.Multiset"
begin

section \<open>Strings\<close>

text \<open>
  A JavaScript string is a sequence of UTF-16 code units. The model keeps the code units
  below 256 (the Latin-1 range), one \<^typ>\<open>char\<close> each, so \<open>length\<close> is the
  \<^verbatim>\<open>.length\<close> of the source and \<open>s ! i\<close> is \<^verbatim>\<open>s[i]\<close>.

  \<^verbatim>\<open>toLowerCase\<close> in that range maps \<^verbatim>\<open>A-Z\<close> and the accented capitals
  \<^verbatim>\<open>U+00C0 .. U+00DE\<close> (the multiplication sign \<^verbatim>\<open>U+00D7\<close> apart) to the code unit
  32 above, and leaves every other unit alone. \<^verbatim>\<open>toUpperCase\<close> is only applied to the
  first three letters of a severity name, which are ASCII letters.
\<close>

definition upperCaseUnits :: string where
  "upperCaseUnits = ''ABCDEFGHIJKLMNOPQRSTUVWXYZ'' @
     [CHR 0xC0, CHR 0xC1, CHR 0xC2, CHR 0xC3, CHR 0xC4, CHR 0xC5, CHR 0xC6, CHR 0xC7,
      CHR 0xC8, CHR 0xC9, CHR 0xCA, CHR 0xCB, CHR 0xCC, CHR 0xCD, CHR 0xCE, CHR 0xCF,
      CHR 0xD0, CHR 0xD1, CHR 0xD2, CHR 0xD3, CHR 0xD4, CHR 0xD5, CHR 0xD6,
      CHR 0xD8, CHR 0xD9, CHR 0xDA, CHR 0xDB, CHR 0xDC, CHR 0xDD, CHR 0xDE]"

definition lowerCaseUnits :: string where
  "lowerCaseUnits = ''abcdefghijklmnopqrstuvwxyz'' @
     [CHR 0xE0, CHR 0xE1, CHR 0xE2, CHR 0xE3, CHR 0xE4, CHR 0xE5, CHR 0xE6, CHR 0xE7,
      CHR 0xE8, CHR 0xE9, CHR 0xEA, CHR 0xEB, CHR 0xEC, CHR 0xED, CHR 0xEE, CHR 0xEF,
      CHR 0xF0, CHR 0xF1, CHR 0xF2, CHR 0xF3, CHR 0xF4, CHR 0xF5, CHR 0xF6,
      CHR 0xF8, CHR 0xF9, CHR 0xFA, CHR 0xFB, CHR 0xFC, CHR 0xFD, CHR 0xFE]"

definition toLowerChar :: "char \<Rightarrow> char" where
  "toLowerChar c =
     (case map_of (zip upperCaseUnits lowerCaseUnits) c of Some l \<Rightarrow> l | None \<Rightarrow> c)"

definition toLowerCase :: "string \<Rightarrow> string" where
  "toLowerCase s = map toLowerChar s"

definition toUpperChar :: "char \<Rightarrow> char" where
  "toUpperChar c =
     (case map_of (zip lowerCaseUnits upperCaseUnits) c of Some u \<Rightarrow> u | None \<Rightarrow> c)"

definition toUpperCase :: "string \<Rightarrow> string" where
  "toUpperCase s = map toUpperChar s"

text \<open>
  \<^verbatim>\<open>trim\<close> removes white space and line terminators at both ends. Below 256 these are
  TAB, LF, VT, FF, CR, the space and the no-break space \<^verbatim>\<open>U+00A0\<close>.
\<close>

definition isWhiteSpace :: "char \<Rightarrow> bool" where
  "isWhiteSpace c \<longleftrightarrow>
     c \<in> set [CHR 0x09, CHR 0x0A, CHR 0x0B, CHR 0x0C, CHR 0x0D, CHR 0x20, CHR 0xA0]"

definition trim :: "string \<Rightarrow> string" where
  "trim s = rev (dropWhile isWhiteSpace (rev (dropWhile isWhiteSpace s)))"

text \<open>Template literals render an integer in decimal, with a minus sign when negative.\<close>

fun digits :: "nat \<Rightarrow> string" where
  "digits n =
     (if n < 10 then [''0123456789'' ! n]
      else digits (n div 10) @ [''0123456789'' ! (n mod 10)])"

declare digits.simps [simp del]

definition numberToString :: "int \<Rightarrow> string" where
  "numberToString i = (if i < 0 then CHR ''-'' # digits (nat (- i)) else digits (nat i))"

section \<open>Data model (models/types.ts)\<close>

datatype Language = JAVASCRIPT | TYPESCRIPT | UNKNOWN

datatype SeverityLevel = CRITICAL | HIGH | MEDIUM | LOW | INFO

text \<open>The enum members are strings; \<open>severityValue\<close> is the member's value.\<close>

fun severityValue :: "SeverityLevel \<Rightarrow> string" where
  "severityValue CRITICAL = ''critical''"
| "severityValue HIGH = ''high''"
| "severityValue MEDIUM = ''medium''"
| "severityValue LOW = ''low''"
| "severityValue INFO = ''info''"

text \<open>\<^verbatim>\<open>type AnalyzerSource = 'static' | 'llm' | 'merged'\<close>\<close>

datatype AnalyzerSource = Static | Llm | Merged

fun sourceValue :: "AnalyzerSource \<Rightarrow> string" where
  "sourceValue Static = ''static''"
| "sourceValue Llm = ''llm''"
| "sourceValue Merged = ''merged''"

text \<open>
  \<^verbatim>\<open>interface VulnerabilityIssue\<close>. The fields \<^verbatim>\<open>id\<close> and \<^verbatim>\<open>fix\<close> are named
  \<open>id_field\<close> and \<open>fix_field\<close> here. Numbers are integers. Every field but
  \<^verbatim>\<open>codeSnippet\<close> is required by the interface; a string a producer left out is the
  empty string and a number left out is 0, which is what the \<^verbatim>\<open>||\<close> defaults of the
  Formatter test for.
\<close>

record VulnerabilityIssue =
  id_field :: string
  title :: string
  description :: string
  severity :: SeverityLevel
  owaspCategory :: string
  line :: int
  columnStart :: int
  columnEnd :: int
  fix_field :: string
  source :: AnalyzerSource
  codeSnippet :: "string option"

record ParsedCode =
  raw :: string
  lines :: "string list"

record ScanMetadata =
  timestamp :: string
  duration :: int
  language :: string
  linesOfCode :: nat
  analyzersUsed :: "string list"
  staticRulesApplied :: nat
  llmModel :: "string option"

record ScanResult =
  success :: bool
  issues :: "VulnerabilityIssue list"
  metadata :: ScanMetadata
  errors :: "string list option"

text \<open>\<^verbatim>\<open>interface AnalyzerResult\<close>; its source is \<^verbatim>\<open>'static' | 'llm'\<close>.\<close>

record AnalyzerResult =
  ar_source :: AnalyzerSource
  ar_issues :: "VulnerabilityIssue list"
  ar_errors :: "string list"

section \<open>Deduplicator (aggregator/Deduplicator.ts)\<close>

text \<open>
  \<^verbatim>\<open>normalizeOwaspCategory\<close>: the first match of \<^verbatim>\<open>/A\d{2}:\d{4}/\<close> anywhere in
  the category, else the lower-cased, trimmed category.
\<close>

definition isDigit :: "char \<Rightarrow> bool" where
  "isDigit c \<longleftrightarrow> c \<in> set ''0123456789''"

fun matchesOwaspCode :: "string \<Rightarrow> bool" where
  "matchesOwaspCode (a # d1 # d2 # c # y1 # y2 # y3 # y4 # rest) \<longleftrightarrow>
     a = CHR ''A'' \<and> isDigit d1 \<and> isDigit d2 \<and> c = CHR '':'' \<and>
     isDigit y1 \<and> isDigit y2 \<and> isDigit y3 \<and> isDigit y4"
| "matchesOwaspCode _ \<longleftrightarrow> False"

fun matchOwaspCode :: "string \<Rightarrow> string option" where
  "matchOwaspCode [] = None"
| "matchOwaspCode (c # cs) =
     (if matchesOwaspCode (c # cs) then Some (take 8 (c # cs)) else matchOwaspCode cs)"

definition normalizeOwaspCategory :: "string \<Rightarrow> string" where
  "normalizeOwaspCategory category =
     (case matchOwaspCode category of
        Some m \<Rightarrow> m
      | None \<Rightarrow> trim (toLowerCase category))"

text \<open>
  \<^verbatim>\<open>levenshteinDistance\<close> fills a table \<^verbatim>\<open>dp[0..m][0..n]\<close> row by row;
  \<open>dp s1 s2 i j\<close> is the entry \<^verbatim>\<open>dp[i][j]\<close> the loops leave there, by the same
  recurrence: the first row and column hold the index, an equal pair of characters copies
  the diagonal entry, an unequal pair takes one more than the least of the three
  neighbours.
\<close>

fun dp :: "string \<Rightarrow> string \<Rightarrow> nat \<Rightarrow> nat \<Rightarrow> nat" where
  "dp str1 str2 0 j = j"
| "dp str1 str2 (Suc i) 0 = Suc i"
| "dp str1 str2 (Suc i) (Suc j) =
     (if str1 ! i = str2 ! j then dp str1 str2 i j
      else min (dp str1 str2 i (Suc j) + 1)
             (min (dp str1 str2 (Suc i) j + 1) (dp str1 str2 i j + 1)))"

definition levenshteinDistance :: "string \<Rightarrow> string \<Rightarrow> nat" where
  "levenshteinDistance str1 str2 = dp str1 str2 (length str1) (length str2)"

text \<open>
  \<^verbatim>\<open>calculateSimilarity\<close>. The source computes \<^verbatim>\<open>1 - distance / maxLength\<close> in
  double precision and compares it with the literal 0.7; the model computes the same
  quotient exactly, in the rationals. The two comparisons agree for every pair of strings
  shorter than \<open>2 ^ 40\<close> code units, more than a JavaScript string can hold: the
  double that \<open>1 - 3/10\<close> rounds to is the literal 0.7 itself, and any other quotient
  differs from \<open>3/10\<close> by at least \<open>1 / (10 * maxLength)\<close>.
\<close>

definition calculateSimilarity :: "string \<Rightarrow> string \<Rightarrow> rat" where
  "calculateSimilarity str1 str2 =
     (let s1 = trim (toLowerCase str1);
          s2 = trim (toLowerCase str2)
      in if s1 = s2 then 1
         else let distance = levenshteinDistance s1 s2;
                  maxLength = max (length s1) (length s2)
              in if maxLength = 0 then 1
                 else 1 - of_nat distance / of_nat maxLength)"

definition LINE_TOLERANCE :: int where
  "LINE_TOLERANCE = 1"

definition FUZZY_MATCH_THRESHOLD :: rat where
  "FUZZY_MATCH_THRESHOLD = 7 / 10"

definition isDuplicate :: "VulnerabilityIssue \<Rightarrow> VulnerabilityIssue \<Rightarrow> bool" where
  "isDuplicate issue1 issue2 =
     (let lineMatch = (\<bar>line issue1 - line issue2\<bar> \<le> LINE_TOLERANCE)
      in if \<not> lineMatch then False
         else let owaspMatch =
                    (normalizeOwaspCategory (owaspCategory issue1) =
                     normalizeOwaspCategory (owaspCategory issue2))
              in if \<not> owaspMatch then False
                 else let titleSimilarity = calculateSimilarity (title issue1) (title issue2);
                          titleMatch = (titleSimilarity \<ge> FUZZY_MATCH_THRESHOLD)
                      in titleMatch)"

text \<open>
  \<^verbatim>\<open>getHighestSeverity\<close>: the first level of the fixed order that the list includes;
  the fall-back \<^verbatim>\<open>severities[0] || SeverityLevel.MEDIUM\<close> is kept as written.
\<close>

definition severityOrderList :: "SeverityLevel list" where
  "severityOrderList = [CRITICAL, HIGH, MEDIUM, LOW, INFO]"

definition getHighestSeverity :: "SeverityLevel list \<Rightarrow> SeverityLevel" where
  "getHighestSeverity severities =
     (case find (\<lambda>level. level \<in> set severities) severityOrderList of
        Some level \<Rightarrow> level
      | None \<Rightarrow> (case severities of [] \<Rightarrow> MEDIUM | s # _ \<Rightarrow> s))"

text \<open>
  \<^verbatim>\<open>mergeDuplicates\<close>. \<^verbatim>\<open>reduce\<close> without an initial value starts from the first
  element and folds the rest from the left; a later element replaces the best one only
  when it is strictly longer. On an empty array the source reads \<^verbatim>\<open>.source\<close> of
  \<^verbatim>\<open>undefined\<close> and throws a TypeError: that is the result \<open>None\<close>.
\<close>

definition longerDescription :: "VulnerabilityIssue \<Rightarrow> VulnerabilityIssue \<Rightarrow> VulnerabilityIssue" where
  "longerDescription best current =
     (if length (description current) > length (description best) then current else best)"

definition longerFix :: "VulnerabilityIssue \<Rightarrow> VulnerabilityIssue \<Rightarrow> VulnerabilityIssue" where
  "longerFix best current =
     (if length (fix_field current) > length (fix_field best) then current else best)"

fun mergeDuplicates :: "VulnerabilityIssue list \<Rightarrow> VulnerabilityIssue option" where
  "mergeDuplicates [] = None"
| "mergeDuplicates [d] = Some d"
| "mergeDuplicates (d # ds) =
     (let duplicates = d # ds;
          baseIssue = (case find (\<lambda>issue. source issue = Llm) duplicates of
                         Some llmIssue \<Rightarrow> llmIssue
                       | None \<Rightarrow> d);
          sources = set (map source duplicates);
          mergedSource = (if card sources > 1 then Merged else source baseIssue);
          bestDescription = description (foldl longerDescription d ds);
          bestFix = fix_field (foldl longerFix d ds);
          highestSeverity = getHighestSeverity (map severity duplicates)
      in Some (baseIssue\<lparr>source := mergedSource,
                         description := bestDescription,
                         fix_field := bestFix,
                         severity := highestSeverity\<rparr>))"

text \<open>
  The inner loop of \<^verbatim>\<open>deduplicate\<close>: \<open>j\<close> runs to the end of the array; an index
  already processed is skipped, a duplicate of the current issue is pushed on
  \<^verbatim>\<open>duplicates\<close> and added to \<^verbatim>\<open>processed\<close>.
\<close>

function findDuplicates ::
  "VulnerabilityIssue list \<Rightarrow> VulnerabilityIssue \<Rightarrow> nat \<Rightarrow> nat set \<Rightarrow> nat list
     \<Rightarrow> nat list \<times> nat set" where
  "findDuplicates issueList currentIssue j processed duplicates =
     (if j < length issueList then
        (if j \<in> processed then findDuplicates issueList currentIssue (j + 1) processed duplicates
         else if isDuplicate currentIssue (issueList ! j)
              then findDuplicates issueList currentIssue (j + 1) (insert j processed)
                     (duplicates @ [j])
              else findDuplicates issueList currentIssue (j + 1) processed duplicates)
      else (duplicates, processed))"
  by pat_completeness auto
termination
  by (relation "measure (\<lambda>(issueList, c, j, p, d). length issueList - j)") auto

declare findDuplicates.simps [simp del]

text \<open>
  The outer loop: an unprocessed index becomes the anchor of a new cluster, the merged
  cluster is pushed on \<^verbatim>\<open>deduplicated\<close>, and the anchor is added to
  \<^verbatim>\<open>processed\<close>. An exception of \<^verbatim>\<open>mergeDuplicates\<close> leaves the loop.
\<close>

function deduplicateLoop ::
  "VulnerabilityIssue list \<Rightarrow> nat \<Rightarrow> nat set \<Rightarrow> VulnerabilityIssue list
     \<Rightarrow> VulnerabilityIssue list option" where
  "deduplicateLoop issueList i processed deduplicated =
     (if i < length issueList then
        (if i \<in> processed then deduplicateLoop issueList (i + 1) processed deduplicated
         else
           (case findDuplicates issueList (issueList ! i) (i + 1) processed [i] of
              (duplicates, processed') \<Rightarrow>
                (case mergeDuplicates (map (\<lambda>idx. issueList ! idx) duplicates) of
                   None \<Rightarrow> None
                 | Some mergedIssue \<Rightarrow>
                     deduplicateLoop issueList (i + 1) (insert i processed')
                       (deduplicated @ [mergedIssue]))))
      else Some deduplicated)"
  by pat_completeness auto
termination
  by (relation "measure (\<lambda>(issueList, i, p, d). length issueList - i)") auto

declare deduplicateLoop.simps [simp del]

definition deduplicate :: "VulnerabilityIssue list \<Rightarrow> VulnerabilityIssue list option" where
  "deduplicate issueList =
     (if length issueList = 0 then Some [] else deduplicateLoop issueList 0 {} [])"

section \<open>ResultAggregator (aggregator/ResultAggregator.ts)\<close>

text \<open>
  \<^verbatim>\<open>aggregate\<close> appends the issues of each result in order. The tag
  \<^verbatim>\<open>issue.source || result.source\<close> keeps \<^verbatim>\<open>issue.source\<close>: each of the three
  values of \<^verbatim>\<open>AnalyzerSource\<close> is a non-empty string. The warning it logs is not
  part of its result.
\<close>

definition aggregate :: "AnalyzerResult list \<Rightarrow> VulnerabilityIssue list" where
  "aggregate results =
     concat (map (\<lambda>result. map (\<lambda>issue. issue\<lparr>source := source issue\<rparr>) (ar_issues result))
               results)"

definition getErrors :: "AnalyzerResult list \<Rightarrow> string list" where
  "getErrors results =
     concat (map (\<lambda>result.
                    if length (ar_errors result) > 0
                    then map (\<lambda>err. ''['' @ sourceValue (ar_source result) @ ''] '' @ err)
                           (ar_errors result)
                    else [])
               results)"

section \<open>Formatter (formatter/Formatter.ts)\<close>

fun severityOrder :: "SeverityLevel \<Rightarrow> int" where
  "severityOrder CRITICAL = 0"
| "severityOrder HIGH = 1"
| "severityOrder MEDIUM = 2"
| "severityOrder LOW = 3"
| "severityOrder INFO = 4"

text \<open>
  \<^verbatim>\<open>generateId\<close> reads the clock; \<open>now\<close> is the value \<^verbatim>\<open>Date.now()\<close> returns
  there.
\<close>

definition generateId :: "int \<Rightarrow> VulnerabilityIssue \<Rightarrow> nat \<Rightarrow> string" where
  "generateId now issue index =
     (let severityPrefix = toUpperCase (take 3 (severityValue (severity issue)));
          lineNumber = line issue
      in severityPrefix @ ''-'' @ numberToString lineNumber @ ''-'' @ numberToString now
           @ ''-'' @ numberToString (int index))"

text \<open>
  \<^verbatim>\<open>ensureUniqueIds\<close> maps over the array with the index; \<open>idClock index\<close> is the
  clock reading of the call of \<^verbatim>\<open>generateId\<close> for that index.
\<close>

definition ensureUniqueIds ::
  "(nat \<Rightarrow> int) \<Rightarrow> VulnerabilityIssue list \<Rightarrow> VulnerabilityIssue list" where
  "ensureUniqueIds idClock issueList =
     map (\<lambda>(index, issue).
            if id_field issue = [] \<or> trim (id_field issue) = []
            then issue\<lparr>id_field := generateId (idClock index) issue index\<rparr>
            else issue)
       (enumerate 0 issueList)"

text \<open>
  \<^verbatim>\<open>Array.prototype.sort\<close> with a comparator is a stable sort (ECMAScript 2019): it
  returns the one arrangement that is ordered by the comparator and keeps equal elements
  in their input order. The comparator of \<^verbatim>\<open>sortIssues\<close> is a consistent one, so an
  insertion sort that puts an element before the first one it does not exceed computes
  that arrangement.
\<close>

fun insertByComparator :: "('a \<Rightarrow> 'a \<Rightarrow> int) \<Rightarrow> 'a \<Rightarrow> 'a list \<Rightarrow> 'a list" where
  "insertByComparator cmp x [] = [x]"
| "insertByComparator cmp x (y # ys) =
     (if cmp x y \<le> 0 then x # y # ys else y # insertByComparator cmp x ys)"

definition arraySort :: "('a \<Rightarrow> 'a \<Rightarrow> int) \<Rightarrow> 'a list \<Rightarrow> 'a list" where
  "arraySort cmp xs = foldr (insertByComparator cmp) xs []"

definition compareIssues :: "VulnerabilityIssue \<Rightarrow> VulnerabilityIssue \<Rightarrow> int" where
  "compareIssues a b =
     (let severityDiff = severityOrder (severity a) - severityOrder (severity b)
      in if severityDiff \<noteq> 0 then severityDiff else line a - line b)"

definition sortIssues :: "VulnerabilityIssue list \<Rightarrow> VulnerabilityIssue list" where
  "sortIssues issueList = arraySort compareIssues issueList"

text \<open>
  \<^verbatim>\<open>validateIssues\<close>: \<^verbatim>\<open>x || d\<close> is \<open>d\<close> for the empty string and for 0, and
  \<open>x\<close> otherwise; the severity and the source have no falsy value; an empty snippet is
  left out.
\<close>

definition orDefault :: "string \<Rightarrow> string \<Rightarrow> string" where
  "orDefault s d = (if s = [] then d else s)"

definition orZero :: "int \<Rightarrow> int" where
  "orZero n = (if n = 0 then 0 else n)"

definition validateIssue :: "VulnerabilityIssue \<Rightarrow> VulnerabilityIssue" where
  "validateIssue issue =
     \<lparr>id_field = orDefault (id_field issue) [],
      title = orDefault (title issue) ''Unknown Issue'',
      description = orDefault (description issue) ''No description available'',
      severity = severity issue,
      owaspCategory = orDefault (owaspCategory issue) ''Unknown'',
      line = orZero (line issue),
      columnStart = orZero (columnStart issue),
      columnEnd = orZero (columnEnd issue),
      fix_field = orDefault (fix_field issue) ''No fix recommendation available'',
      source = source issue,
      codeSnippet = (case codeSnippet issue of
                       None \<Rightarrow> None
                     | Some snippet \<Rightarrow> if snippet = [] then None else Some snippet)\<rparr>"

definition validateIssues :: "VulnerabilityIssue list \<Rightarrow> VulnerabilityIssue list" where
  "validateIssues issueList = map validateIssue issueList"

text \<open>
  \<^verbatim>\<open>validateMetadata\<close>; \<open>isoNow\<close> is the value of
  \<^verbatim>\<open>new Date().toISOString()\<close> should the time stamp be missing.
\<close>

definition validateMetadata :: "string \<Rightarrow> ScanMetadata \<Rightarrow> ScanMetadata" where
  "validateMetadata isoNow md =
     \<lparr>timestamp = orDefault (timestamp md) isoNow,
      duration = orZero (duration md),
      language = orDefault (language md) ''unknown'',
      linesOfCode = linesOfCode md,
      analyzersUsed = analyzersUsed md,
      staticRulesApplied = staticRulesApplied md,
      llmModel = (case llmModel md of
                    None \<Rightarrow> None
                  | Some m \<Rightarrow> if m = [] then None else Some m)\<rparr>"

definition format ::
  "(nat \<Rightarrow> int) \<Rightarrow> string \<Rightarrow> VulnerabilityIssue list \<Rightarrow> ScanMetadata \<Rightarrow> ScanResult" where
  "format idClock isoNow issueList md =
     (let issuesWithIds = ensureUniqueIds idClock issueList;
          sortedIssues = sortIssues issuesWithIds;
          validatedIssues = validateIssues sortedIssues
      in \<lparr>success = True,
          issues = validatedIssues,
          metadata = validateMetadata isoNow md,
          errors = None\<rparr>)"

section \<open>Exceptions\<close>

text \<open>
  A thrown value is an \<^verbatim>\<open>Error\<close> with its message, or some other value, kept as the
  string \<^verbatim>\<open>String(value)\<close>. A function that may throw returns \<open>Inl\<close> of the thrown
  value.
\<close>

datatype Thrown = Error string | NonError string

text \<open>\<^verbatim>\<open>error instanceof Error ? error.message : 'Unknown error'\<close>\<close>

fun errorMessage :: "Thrown \<Rightarrow> string" where
  "errorMessage (Error message) = message"
| "errorMessage (NonError v) = ''Unknown error''"

text \<open>The rendering of a thrown value inside a template literal.\<close>

fun thrownToString :: "Thrown \<Rightarrow> string" where
  "thrownToString (Error message) = (if message = [] then ''Error'' else ''Error: '' @ message)"
| "thrownToString (NonError v) = v"

section \<open>Regular expressions\<close>

text \<open>
  The regular expressions of the static rules and of the language detector use literal
  texts, character classes, \<^verbatim>\<open>\s\<close>, \<^verbatim>\<open>\w\<close>, \<^verbatim>\<open>.\<close>, \<^verbatim>\<open>\b\<close>,
  sequence, alternation and the greedy repetitions. \<open>Regex\<close> is their syntax; the other
  repetitions are written with \<open>Star\<close>: \<^verbatim>\<open>r+\<close> is \<open>r\<close> then \<^verbatim>\<open>r*\<close>,
  \<^verbatim>\<open>r?\<close> is \<open>r\<close> or else the empty text, \<^verbatim>\<open>r{n,}\<close> is \<open>r\<close> \<open>n\<close> times then
  \<^verbatim>\<open>r*\<close>. No flag is part of the syntax: a match heeds the case of the letters.
\<close>

datatype Regex =
    Literal string
  | OneOf string
  | NoneOf string
  | Space
  | WordChar
  | AnyChar
  | WordBoundary
  | Seq Regex Regex
  | Alt Regex Regex
  | Star Regex

definition Plus :: "Regex \<Rightarrow> Regex" where
  "Plus r = Seq r (Star r)"

definition Optional :: "Regex \<Rightarrow> Regex" where
  "Optional r = Alt r (Literal [])"

fun seqs :: "Regex list \<Rightarrow> Regex" where
  "seqs [] = Literal []"
| "seqs [r] = r"
| "seqs (r # rs) = Seq r (seqs rs)"

fun alts :: "Regex list \<Rightarrow> Regex" where
  "alts [] = OneOf []"
| "alts [r] = r"
| "alts (r # rs) = Alt r (alts rs)"

definition AtLeast :: "nat \<Rightarrow> Regex \<Rightarrow> Regex" where
  "AtLeast n r = seqs (replicate n r @ [Star r])"

text \<open>
  \<^verbatim>\<open>\w\<close> is a letter of the basic alphabet, a digit or the underscore; \<^verbatim>\<open>\s\<close> is
  the white space that \<^verbatim>\<open>trim\<close> removes; \<^verbatim>\<open>.\<close> is any character but a line
  terminator.
\<close>

definition isWordChar :: "char \<Rightarrow> bool" where
  "isWordChar c \<longleftrightarrow>
     c \<in> set ''ABCDEFGHIJKLMNOPQRSTUVWXYZabcdefghijklmnopqrstuvwxyz0123456789_''"

definition isLineTerminator :: "char \<Rightarrow> bool" where
  "isLineTerminator c \<longleftrightarrow> c = CHR 0x0A \<or> c = CHR 0x0D"

definition charAt :: "string \<Rightarrow> nat \<Rightarrow> (char \<Rightarrow> bool) \<Rightarrow> bool" where
  "charAt text i P \<longleftrightarrow> i < length text \<and> P (text ! i)"

text \<open>
  The backtracking matcher. \<open>matchEnds r text i\<close> lists the indices at which a match of
  \<open>r\<close> that starts at index \<open>i\<close> of \<open>text\<close> can end, in the order in which the matcher
  tries them: the left alternative before the right one, one more round of a repetition
  before none. The first index of the list is the end of the match the matcher returns.
  A round of a repetition that matches the empty text is not tried.
\<close>

function matchEnds :: "Regex \<Rightarrow> string \<Rightarrow> nat \<Rightarrow> nat list" where
  "matchEnds (Literal w) text i =
     (if take (length w) (drop i text) = w then [i + length w] else [])"
| "matchEnds (OneOf cs) text i = (if charAt text i (\<lambda>c. c \<in> set cs) then [i + 1] else [])"
| "matchEnds (NoneOf cs) text i = (if charAt text i (\<lambda>c. c \<notin> set cs) then [i + 1] else [])"
| "matchEnds Space text i = (if charAt text i isWhiteSpace then [i + 1] else [])"
| "matchEnds WordChar text i = (if charAt text i isWordChar then [i + 1] else [])"
| "matchEnds AnyChar text i =
     (if charAt text i (\<lambda>c. \<not> isLineTerminator c) then [i + 1] else [])"
| "matchEnds WordBoundary text i =
     (if (0 < i \<and> charAt text (i - 1) isWordChar) \<noteq> charAt text i isWordChar
      then [i] else [])"
| "matchEnds (Seq r1 r2) text i = concat (map (matchEnds r2 text) (matchEnds r1 text i))"
| "matchEnds (Alt r1 r2) text i = matchEnds r1 text i @ matchEnds r2 text i"
| "matchEnds (Star r) text i =
     concat (map (matchEnds (Star r) text)
               (filter (\<lambda>e. i < e \<and> e \<le> length text) (matchEnds r text i)))
       @ [i]"
  by pat_completeness auto
termination
  by (relation "measures [\<lambda>(r, text, i). size r, \<lambda>(r, text, i). length text - i]") auto

text \<open>
  \<^verbatim>\<open>pattern.test(text)\<close> for a pattern without the global flag: some index of the
  text, its end included, starts a match.
\<close>

definition test :: "Regex \<Rightarrow> string \<Rightarrow> bool" where
  "test r text = list_ex (\<lambda>i. matchEnds r text i \<noteq> []) [0..<length text + 1]"

text \<open>
  \<^verbatim>\<open>text.matchAll(pattern)\<close> for a pattern with the global flag, from index \<open>i\<close>
  on: the index and the text of each match, found from the left; the search goes on
  behind a match, and one index further behind an empty one.
\<close>

function matchAll :: "Regex \<Rightarrow> string \<Rightarrow> nat \<Rightarrow> (nat \<times> string) list" where
  "matchAll r text i =
     (if length text < i then []
      else (case matchEnds r text i of
              [] \<Rightarrow> matchAll r text (i + 1)
            | e # es \<Rightarrow>
                (i, take (e - i) (drop i text))
                  # matchAll r text (if i < e then e else i + 1)))"
  by pat_completeness auto
termination
  by (relation "measure (\<lambda>(r, text, i). Suc (length text) - i)") auto

declare matchAll.simps [simp del]

section \<open>StaticAnalyzer (analyzers/StaticAnalyzer.ts)\<close>

text \<open>
  \<^verbatim>\<open>matchRule\<close> rebuilds the pattern of a rule as
  \<^verbatim>\<open>new RegExp(rule.pattern, 'g')\<close>: the flags given there replace those of the
  pattern, so the match is global and heeds the case of the letters, and \<open>pattern\<close> holds
  the expression without its flags.
\<close>

record Rule =
  rule_id :: string
  rule_name :: string
  pattern :: Regex
  rule_severity :: SeverityLevel
  rule_owaspCategory :: string
  rule_description :: string
  rule_fix :: string

text \<open>
  \<^verbatim>\<open>uuidv4()\<close> is called once for every issue pushed; \<open>uuid k\<close> is the identifier the
  call number \<open>k\<close> of an analysis returns, and \<open>n\<close> counts the calls made so far.
\<close>

definition matchRule ::
  "(nat \<Rightarrow> string) \<Rightarrow> nat \<Rightarrow> string \<Rightarrow> Rule \<Rightarrow> int \<Rightarrow> VulnerabilityIssue list" where
  "matchRule uuid n codeLine rule lineNumber =
     map (\<lambda>(k, (index, matched)).
            \<lparr>id_field = uuid (n + k),
             title = rule_name rule,
             description = rule_description rule,
             severity = rule_severity rule,
             owaspCategory = rule_owaspCategory rule,
             line = lineNumber,
             columnStart = int index,
             columnEnd = int index + int (length matched),
             fix_field = rule_fix rule,
             source = Static,
             codeSnippet = Some (trim codeLine)\<rparr>)
       (enumerate 0 (matchAll (pattern rule) codeLine 0))"

definition StaticAnalyzer_analyze ::
  "Rule list \<Rightarrow> (nat \<Rightarrow> string) \<Rightarrow> ParsedCode \<Rightarrow> VulnerabilityIssue list" where
  "StaticAnalyzer_analyze rules uuid parsedCode =
     foldl (\<lambda>found (index, codeLine).
              let lineNumber = int index + 1
              in foldl (\<lambda>found' rule.
                          found' @ matchRule uuid (length found') codeLine rule lineNumber)
                   found rules)
       [] (enumerate 0 (lines parsedCode))"

text \<open>
  The four rules of \<^verbatim>\<open>initializeRules\<close>. In the pattern of the first,
  \<^verbatim>\<open>(['"`])(SELECT|INSERT|UPDATE|DELETE|DROP|CREATE|ALTER)\s+[^'"`]*\1\s*\+\<close>,
  the group that \<^verbatim>\<open>\1\<close> refers to holds one quote character, so the pattern is the
  alternation, over the three quote characters, of the pattern with that character in
  both places.
\<close>

definition quoteChars :: string where
  "quoteChars = [CHR 0x27, CHR 0x22, CHR 0x60]"

definition createSQLInjectionRule :: Rule where
  "createSQLInjectionRule =
     \<lparr>rule_id = ''sql-injection'',
      rule_name = ''SQL Injection'',
      pattern =
        alts (map (\<lambda>q.
                seqs [Literal [q],
                      alts [Literal ''SELECT'', Literal ''INSERT'', Literal ''UPDATE'',
                            Literal ''DELETE'', Literal ''DROP'', Literal ''CREATE'',
                            Literal ''ALTER''],
                      Plus Space, Star (NoneOf quoteChars), Literal [q], Star Space,
                      Literal ''+''])
              quoteChars),
      rule_severity = HIGH,
      rule_owaspCategory = ''A03:2021 - Injection'',
      rule_description = ''Potential SQL injection vulnerability detected. String concatenation in SQL queries can allow attackers to manipulate queries.'',
      rule_fix = ''Use parameterized queries or prepared statements instead of string concatenation. Example: Use placeholders like ? or $1 with parameter binding.''\<rparr>"

definition createXSSRule :: Rule where
  "createXSSRule =
     \<lparr>rule_id = ''xss-vulnerability'',
      rule_name = ''Cross-Site Scripting (XSS)'',
      pattern =
        seqs [alts [Literal ''innerHTML'', Literal ''dangerouslySetInnerHTML'',
                    Literal ''document.write''],
              Star Space, OneOf ''=(''],
      rule_severity = HIGH,
      rule_owaspCategory = ''A03:2021 - Injection'',
      rule_description = ''Potential XSS vulnerability detected. Directly inserting user input into HTML can allow attackers to execute malicious scripts.'',
      rule_fix = ''Use safe DOM manipulation methods like textContent, or sanitize user input with a library like DOMPurify. For React, avoid dangerouslySetInnerHTML or sanitize content first.''\<rparr>"

definition createHardcodedCredentialsRule :: Rule where
  "createHardcodedCredentialsRule =
     \<lparr>rule_id = ''hardcoded-credentials'',
      rule_name = ''Hardcoded Credentials'',
      pattern =
        seqs [alts [Literal ''password'', Literal ''apiKey'', Literal ''api_key'',
                    Literal ''secret'', Literal ''token'', Literal ''accessToken'',
                    Literal ''access_token''],
              Star Space, OneOf ''=:'', Star Space, OneOf quoteChars,
              AtLeast 8 (NoneOf quoteChars), OneOf quoteChars],
      rule_severity = HIGH,
      rule_owaspCategory = ''A07:2021 - Identification and Authentication Failures'',
      rule_description = ''Hardcoded credentials detected. Storing sensitive credentials in source code exposes them to anyone with access to the codebase.'',
      rule_fix = ''Use environment variables or secure credential management systems (e.g., AWS Secrets Manager, HashiCorp Vault). Load credentials at runtime from secure storage.''\<rparr>"

definition createInsecureCryptographyRule :: Rule where
  "createInsecureCryptographyRule =
     \<lparr>rule_id = ''insecure-cryptography'',
      rule_name = ''Insecure Cryptography'',
      pattern =
        alts [Literal ''MD5'', Literal ''SHA1'', Literal ''DES'', Literal ''RC4'',
              seqs [Literal ''createHash('', OneOf [CHR 0x27, CHR 0x22], Literal ''md5'',
                    OneOf [CHR 0x27, CHR 0x22]],
              seqs [Literal ''createHash('', OneOf [CHR 0x27, CHR 0x22], Literal ''sha1'',
                    OneOf [CHR 0x27, CHR 0x22]]],
      rule_severity = HIGH,
      rule_owaspCategory = ''A02:2021 - Cryptographic Failures'',
      rule_description = ''Insecure cryptographic algorithm detected. MD5, SHA1, DES, and RC4 are cryptographically broken and should not be used for security purposes.'',
      rule_fix = ''Use modern, secure algorithms: SHA-256 or SHA-3 for hashing, AES-256-GCM for encryption, and bcrypt/argon2 for password hashing.''\<rparr>"

definition initializeRules :: "Rule list" where
  "initializeRules =
     [createSQLInjectionRule, createXSSRule, createHardcodedCredentialsRule,
      createInsecureCryptographyRule]"

definition getRuleCount :: "Rule list \<Rightarrow> nat" where
  "getRuleCount rules = length rules"

section \<open>LLMAnalyzer (analyzers/LLMAnalyzer.ts)\<close>

text \<open>\<^verbatim>\<open>interface LLMVulnerability\<close>, the shape of one element of the remote answer.\<close>

record LLMVulnerability =
  v_title :: string
  v_description :: string
  v_severity :: string
  v_owaspCategory :: string
  v_line :: int
  v_columnStart :: "int option"
  v_columnEnd :: "int option"
  v_fix :: string

text \<open>
  What the remote call does is an input of the model: the API key is missing, the abort
  signal of the timer fires, \<^verbatim>\<open>fetch\<close> or the reading of the body rejects with some
  other value, the answer is not \<^verbatim>\<open>ok\<close> (status and status text), the answer lacks
  a message content, or the content arrives.
\<close>

datatype RemoteOutcome =
    ApiKeyMissing
  | Aborted
  | FetchRejected Thrown
  | HttpError nat string
  | InvalidFormat
  | Content string

definition callLLMWithTimeout :: "int \<Rightarrow> RemoteOutcome \<Rightarrow> Thrown + string" where
  "callLLMWithTimeout timeout outcome =
     (case outcome of
        ApiKeyMissing \<Rightarrow> Inl (Error ''OPENAI_API_KEY environment variable is not set'')
      | Aborted \<Rightarrow> Inl (Error (''LLM API timeout after '' @ numberToString timeout @ ''ms''))
      | FetchRejected e \<Rightarrow> Inl e
      | HttpError status statusText \<Rightarrow>
          Inl (Error (''LLM API error: '' @ numberToString (int status) @ '' '' @ statusText))
      | InvalidFormat \<Rightarrow> Inl (Error ''Invalid response format from LLM API'')
      | Content c \<Rightarrow> Inr c)"

definition normalizeSeverity :: "string \<Rightarrow> SeverityLevel" where
  "normalizeSeverity sev =
     (let normalized = toLowerCase sev
      in if normalized = ''critical'' then CRITICAL
         else if normalized = ''high'' then HIGH
         else if normalized = ''medium'' then MEDIUM
         else if normalized = ''low'' then LOW
         else if normalized = ''info'' then INFO
         else MEDIUM)"

text \<open>
  \<^verbatim>\<open>mapToVulnerabilityIssues\<close>. \<^verbatim>\<open>parsedCode.lines[lineIndex] || ''\<close> is the empty
  string when the index is outside the array; \<open>uuid k\<close> is the identifier of element
  \<open>k\<close>.
\<close>

definition lineAt :: "string list \<Rightarrow> int \<Rightarrow> string" where
  "lineAt ls lineIndex =
     (if 0 \<le> lineIndex \<and> lineIndex < int (length ls) then ls ! nat lineIndex else [])"

definition mapToVulnerabilityIssues ::
  "(nat \<Rightarrow> string) \<Rightarrow> LLMVulnerability list \<Rightarrow> ParsedCode \<Rightarrow> VulnerabilityIssue list" where
  "mapToVulnerabilityIssues uuid vulnerabilities parsedCode =
     map (\<lambda>(k, vuln).
            let lineIndex = v_line vuln - 1;
                codeLine = lineAt (lines parsedCode) lineIndex;
                colStart = (case v_columnStart vuln of Some c \<Rightarrow> c | None \<Rightarrow> 0);
                colEnd = (case v_columnEnd vuln of Some c \<Rightarrow> c | None \<Rightarrow> int (length codeLine))
            in \<lparr>id_field = uuid k,
                title = v_title vuln,
                description = v_description vuln,
                severity = normalizeSeverity (v_severity vuln),
                owaspCategory = v_owaspCategory vuln,
                line = v_line vuln,
                columnStart = colStart,
                columnEnd = colEnd,
                fix_field = v_fix vuln,
                source = Llm,
                codeSnippet = Some codeLine\<rparr>)
       (enumerate 0 vulnerabilities)"

text \<open>
  \<^verbatim>\<open>analyze\<close>: everything runs inside one \<^verbatim>\<open>try\<close>, and the handler logs the error
  and returns the empty array. \<^verbatim>\<open>parseResponse\<close> is itself one
  \<^verbatim>\<open>try\<close>/\<^verbatim>\<open>catch\<close> around \<^verbatim>\<open>JSON.parse\<close> that returns an array in every case;
  it is a parameter here.
\<close>

definition LLMAnalyzer_analyze ::
  "int \<Rightarrow> (string \<Rightarrow> LLMVulnerability list) \<Rightarrow> (nat \<Rightarrow> string) \<Rightarrow> RemoteOutcome
     \<Rightarrow> ParsedCode \<Rightarrow> VulnerabilityIssue list" where
  "LLMAnalyzer_analyze timeout parseResponse uuid outcome parsedCode =
     (case callLLMWithTimeout timeout outcome of
        Inl e \<Rightarrow> []
      | Inr response \<Rightarrow> mapToVulnerabilityIssues uuid (parseResponse response) parsedCode)"

section \<open>CodeParser and LanguageDetector (utils)\<close>

text \<open>\<^verbatim>\<open>code.split('\n')\<close>: the pieces between line feeds, at least one.\<close>

fun splitLines :: "string \<Rightarrow> string list" where
  "splitLines [] = [[]]"
| "splitLines (c # cs) =
     (if c = CHR 0x0A then [] # splitLines cs
      else (case splitLines cs of
              l # ls \<Rightarrow> (c # l) # ls
            | [] \<Rightarrow> [[c]]))"

text \<open>
  \<^verbatim>\<open>CodeParser.parse\<close> returns the raw code and its lines from both of its branches;
  the tokens are read by no later stage and are left out.
\<close>

definition CodeParser_parse :: "string \<Rightarrow> Language \<Rightarrow> Thrown + ParsedCode" where
  "CodeParser_parse code lang = Inr \<lparr>raw = code, lines = splitLines code\<rparr>"

definition isSupported :: "Language \<Rightarrow> bool" where
  "isSupported lang \<longleftrightarrow> lang = JAVASCRIPT \<or> lang = TYPESCRIPT"

fun languageValue :: "Language \<Rightarrow> string" where
  "languageValue JAVASCRIPT = ''javascript''"
| "languageValue TYPESCRIPT = ''typescript''"
| "languageValue UNKNOWN = ''unknown''"

text \<open>
  The patterns of the content detection. Each of
  \<^verbatim>\<open>/\binterface\s+\w+/\<close>, \<^verbatim>\<open>/\benum\s+\w+/\<close> and their like is a word
  boundary, the keyword, white space and a word.
\<close>

definition keywordThenWord :: "string \<Rightarrow> Regex" where
  "keywordThenWord w = seqs [WordBoundary, Literal w, Plus Space, Plus WordChar]"

definition TYPESCRIPT_PATTERNS :: "Regex list" where
  "TYPESCRIPT_PATTERNS =
     [keywordThenWord ''interface'',
      seqs [WordBoundary, Literal ''type'', Plus Space, Plus WordChar, Star Space, Literal ''=''],
      seqs [Literal '':'', Star Space, Plus WordChar, Optional (Literal ''[]''),
            Star (seqs [Star Space, Literal ''|'', Star Space, Plus WordChar])],
      keywordThenWord ''enum'',
      keywordThenWord ''as'',
      seqs [Literal ''<'', Plus WordChar, Literal ''>''],
      keywordThenWord ''private'',
      keywordThenWord ''public'',
      keywordThenWord ''protected'',
      keywordThenWord ''readonly'']"

definition JAVASCRIPT_PATTERNS :: "Regex list" where
  "JAVASCRIPT_PATTERNS =
     [keywordThenWord ''function'',
      keywordThenWord ''const'',
      keywordThenWord ''let'',
      keywordThenWord ''var'',
      keywordThenWord ''class'',
      seqs [Literal ''=>'', Star Space, Optional (Literal ''{'')],
      seqs [WordBoundary, Literal ''import'', Plus Space, Star AnyChar, WordBoundary,
            Literal ''from'', WordBoundary],
      seqs [WordBoundary, Literal ''export'', Plus Space,
            alts [Literal ''default'', Literal ''const'', Literal ''function'',
                  Literal ''class'']]]"

definition detectFromContent :: "string \<Rightarrow> Language" where
  "detectFromContent code =
     (if code = [] \<or> length (trim code) = 0 then UNKNOWN
      else
        (let tsMatches = length (filter (\<lambda>pattern. test pattern code) TYPESCRIPT_PATTERNS);
             jsMatches = length (filter (\<lambda>pattern. test pattern code) JAVASCRIPT_PATTERNS)
         in if tsMatches > 0 then TYPESCRIPT
            else if jsMatches > 0 then JAVASCRIPT
            else UNKNOWN))"

text \<open>
  \<^verbatim>\<open>LanguageDetector.detect\<close> looks the lower-cased hint up in its extension map and
  falls back on the content. (A hint that names a property every JavaScript object
  inherits, such as \<^verbatim>\<open>constructor\<close>, is outside this model of the lookup.)
\<close>

definition EXTENSION_MAP :: "(string \<times> Language) list" where
  "EXTENSION_MAP =
     [(''.js'', JAVASCRIPT), (''.jsx'', JAVASCRIPT), (''.ts'', TYPESCRIPT), (''.tsx'', TYPESCRIPT)]"

definition LanguageDetector_detect :: "string \<Rightarrow> string \<Rightarrow> Language" where
  "LanguageDetector_detect code fileExtension =
     (if fileExtension \<noteq> []
      then (case map_of EXTENSION_MAP (toLowerCase fileExtension) of
              Some langFromExt \<Rightarrow> langFromExt
            | None \<Rightarrow> detectFromContent code)
      else detectFromContent code)"

section \<open>SecurityScanEngine (scanner/SecurityScanEngine.ts)\<close>

text \<open>
  The engine works through its components. \<open>detect\<close> is
  \<^verbatim>\<open>LanguageDetector.detect\<close>; \<open>parse\<close>, \<open>staticAnalyze\<close> and \<open>llmAnalyze\<close>
  are the three calls the engine wraps in \<^verbatim>\<open>try\<close>/\<^verbatim>\<open>catch\<close>, so each may
  throw.
\<close>

record Components =
  detect :: "string \<Rightarrow> string \<Rightarrow> Language"
  parse :: "string \<Rightarrow> Language \<Rightarrow> Thrown + ParsedCode"
  staticAnalyze :: "ParsedCode \<Rightarrow> Thrown + VulnerabilityIssue list"
  llmAnalyze :: "ParsedCode \<Rightarrow> Thrown + VulnerabilityIssue list"
  ruleCount :: nat

text \<open>
  The clock readings of one scan, by the place that reads them:
  \<open>clk_start\<close> is \<^verbatim>\<open>Date.now()\<close> on entry of \<^verbatim>\<open>scan\<close>, \<open>clk_validate\<close> the
  \<^verbatim>\<open>Date.now()\<close> that \<^verbatim>\<open>validateInput\<close> passes as a start time, \<open>clk_error\<close>
  and \<open>clk_errorIso\<close> the two readings inside \<^verbatim>\<open>createErrorResult\<close>,
  \<open>clk_meta\<close> and \<open>clk_metaIso\<close> the two readings that build the metadata,
  \<open>clk_formatIso\<close> the one \<^verbatim>\<open>validateMetadata\<close> may take and \<open>clk_id\<close> those of
  \<^verbatim>\<open>generateId\<close>.
\<close>

record Clock =
  clk_start :: int
  clk_validate :: int
  clk_error :: int
  clk_errorIso :: string
  clk_meta :: int
  clk_metaIso :: string
  clk_formatIso :: string
  clk_id :: "nat \<Rightarrow> int"

definition createErrorResult :: "Clock \<Rightarrow> string \<Rightarrow> int \<Rightarrow> ScanResult" where
  "createErrorResult clock message startTime =
     \<lparr>success = False,
      issues = [],
      metadata = \<lparr>timestamp = clk_errorIso clock,
                  duration = clk_error clock - startTime,
                  language = ''unknown'',
                  linesOfCode = 0,
                  analyzersUsed = [],
                  staticRulesApplied = 0,
                  llmModel = None\<rparr>,
      errors = Some [message]\<rparr>"

definition validateInput :: "Clock \<Rightarrow> string \<Rightarrow> string \<Rightarrow> ScanResult option" where
  "validateInput clock code lang =
     (if code = [] \<or> length (trim code) = 0
      then Some (createErrorResult clock ''Invalid input: Code cannot be empty''
                   (clk_validate clock))
      else if lang = [] \<or> length (trim lang) = 0
      then Some (createErrorResult clock ''Invalid input: Language must be specified''
                   (clk_validate clock))
      else None)"

definition runStaticAnalyzer :: "Components \<Rightarrow> ParsedCode \<Rightarrow> Thrown + AnalyzerResult" where
  "runStaticAnalyzer comps parsedCode =
     (case staticAnalyze comps parsedCode of
        Inr found \<Rightarrow> Inr \<lparr>ar_source = Static, ar_issues = found, ar_errors = []\<rparr>
      | Inl e \<Rightarrow> Inl (Error (''Static analysis failed: '' @ errorMessage e)))"

definition runLLMAnalyzer :: "Components \<Rightarrow> ParsedCode \<Rightarrow> Thrown + AnalyzerResult" where
  "runLLMAnalyzer comps parsedCode =
     (case llmAnalyze comps parsedCode of
        Inr found \<Rightarrow> Inr \<lparr>ar_source = Llm, ar_issues = found, ar_errors = []\<rparr>
      | Inl e \<Rightarrow> Inl (Error (''LLM analysis failed: '' @ errorMessage e)))"

text \<open>
  \<^verbatim>\<open>executeAnalyzers\<close> waits for both promises to settle and pushes one result for
  each, the static one first; a rejection becomes a result without issues whose one error
  renders the reason.
\<close>

definition executeAnalyzers :: "Components \<Rightarrow> ParsedCode \<Rightarrow> AnalyzerResult list" where
  "executeAnalyzers comps parsedCode =
     (let staticResult = runStaticAnalyzer comps parsedCode;
          llmResult = runLLMAnalyzer comps parsedCode
      in [case staticResult of
            Inr v \<Rightarrow> v
          | Inl reason \<Rightarrow>
              \<lparr>ar_source = Static, ar_issues = [],
               ar_errors = [''Static analyzer failed: '' @ thrownToString reason]\<rparr>,
          case llmResult of
            Inr v \<Rightarrow> v
          | Inl reason \<Rightarrow>
              \<lparr>ar_source = Llm, ar_issues = [],
               ar_errors = [''LLM analyzer failed: '' @ thrownToString reason]\<rparr>])"

text \<open>
  \<^verbatim>\<open>scan\<close>. The outer \<^verbatim>\<open>catch\<close> turns an exception of the later stages into an
  error result; the only stage with a throwing branch in this model is
  \<^verbatim>\<open>deduplicate\<close>.
\<close>

definition scan :: "Components \<Rightarrow> Clock \<Rightarrow> string \<Rightarrow> string \<Rightarrow> ScanResult" where
  "scan comps clock code lang =
     (let startTime = clk_start clock
      in case validateInput clock code lang of
           Some validationError \<Rightarrow> validationError
         | None \<Rightarrow>
             (let detectedLanguage = detect comps code lang
              in if \<not> isSupported detectedLanguage
                 then createErrorResult clock
                        (''Unsupported language: '' @ languageValue detectedLanguage
                           @ ''. Only JavaScript and TypeScript are supported.'')
                        startTime
                 else
                   (case parse comps code detectedLanguage of
                      Inl e \<Rightarrow>
                        createErrorResult clock
                          (''Failed to parse code: '' @ errorMessage e) startTime
                    | Inr parsedCode \<Rightarrow>
                        (let analyzerResults = executeAnalyzers comps parsedCode;
                             aggregatedIssues = aggregate analyzerResults
                         in case deduplicate aggregatedIssues of
                              None \<Rightarrow>
                                createErrorResult clock
                                  (''Unexpected error: ''
                                     @ ''Cannot read properties of undefined (reading 'source')'')
                                  startTime
                            | Some deduplicatedIssues \<Rightarrow>
                                (let errs = getErrors analyzerResults;
                                     md = \<lparr>timestamp = clk_metaIso clock,
                                           duration = clk_meta clock - startTime,
                                           language = languageValue detectedLanguage,
                                           linesOfCode = length (lines parsedCode),
                                           analyzersUsed =
                                             map (\<lambda>r. sourceValue (ar_source r)) analyzerResults,
                                           staticRulesApplied = ruleCount comps,
                                           llmModel = Some ''gpt-4o-mini''\<rparr>;
                                     scanResult =
                                       format (clk_id clock) (clk_formatIso clock)
                                         deduplicatedIssues md
                                 in if length errs > 0
                                    then scanResult\<lparr>errors := Some errs\<rparr>
                                    else scanResult)))))"

text \<open>
  The engine as its constructor builds it: the language detector, the parser, the static
  analyzer over its rule set and the LLM analyzer, with what the remote call does. The
  detector and the rule set are fields, so that a statement can hold for every rule set;
  in the engine of the source they are \<open>LanguageDetector_detect\<close> and
  \<open>initializeRules\<close>.
\<close>

record Environment =
  env_detect :: "string \<Rightarrow> string \<Rightarrow> Language"
  env_rules :: "Rule list"
  env_staticUuid :: "nat \<Rightarrow> string"
  env_timeout :: int
  env_remote :: RemoteOutcome
  env_parseResponse :: "string \<Rightarrow> LLMVulnerability list"
  env_llmUuid :: "nat \<Rightarrow> string"

definition engineComponents :: "Environment \<Rightarrow> Components" where
  "engineComponents env =
     \<lparr>detect = env_detect env,
      parse = CodeParser_parse,
      staticAnalyze = (\<lambda>parsedCode.
         Inr (StaticAnalyzer_analyze (env_rules env) (env_staticUuid env) parsedCode)),
      llmAnalyze = (\<lambda>parsedCode.
         Inr (LLMAnalyzer_analyze (env_timeout env) (env_parseResponse env) (env_llmUuid env)
                (env_remote env) parsedCode)),
      ruleCount = getRuleCount (env_rules env)\<rparr>"

definition SecurityScanEngine_scan ::
  "Environment \<Rightarrow> Clock \<Rightarrow> string \<Rightarrow> string \<Rightarrow> ScanResult" where
  "SecurityScanEngine_scan env clock code lang = scan (engineComponents env) clock code lang"

section \<open>Notions used in the statements\<close>

text \<open>
  The clustering pass read on the list itself: the first finding is the anchor, the later
  findings that are its duplicates form its cluster, and the pass goes on with the others.
\<close>

function anchorPass :: "VulnerabilityIssue list \<Rightarrow> VulnerabilityIssue list" where
  "anchorPass [] = []"
| "anchorPass (x # xs) =
     the (mergeDuplicates (x # filter (isDuplicate x) xs))
       # anchorPass (filter (\<lambda>y. \<not> isDuplicate x y) xs)"
  by pat_completeness auto
termination
  by (relation "measure length") (auto simp: less_Suc_eq_le)

text \<open>
  The index arrays \<^verbatim>\<open>duplicates\<close> that the outer loop of \<^verbatim>\<open>deduplicate\<close>
  builds, one for each cluster, in the order it merges them.
\<close>

function clusterLoop ::
  "VulnerabilityIssue list \<Rightarrow> nat \<Rightarrow> nat set \<Rightarrow> nat list list \<Rightarrow> nat list list" where
  "clusterLoop issueList i processed found =
     (if i < length issueList then
        (if i \<in> processed then clusterLoop issueList (i + 1) processed found
         else
           (case findDuplicates issueList (issueList ! i) (i + 1) processed [i] of
              (duplicates, processed') \<Rightarrow>
                clusterLoop issueList (i + 1) (insert i processed') (found @ [duplicates])))
      else found)"
  by pat_completeness auto
termination
  by (relation "measure (\<lambda>(issueList, i, p, d). length issueList - i)") auto

declare clusterLoop.simps [simp del]

definition clusterIndices :: "VulnerabilityIssue list \<Rightarrow> nat list list" where
  "clusterIndices issueList = clusterLoop issueList 0 {} []"

text \<open>The findings from index \<open>i\<close> on that are not yet processed.\<close>

definition unprocessed :: "VulnerabilityIssue list \<Rightarrow> nat \<Rightarrow> nat set \<Rightarrow> VulnerabilityIssue list" where
  "unprocessed issueList i P =
     map (\<lambda>k. issueList ! k) (filter (\<lambda>k. k \<notin> P) [i..<length issueList])"

text \<open>
  The edit distance of two strings by its usual recurrence over their prefixes: to reach
  the first \<open>j\<close> characters of \<open>t\<close> from the first \<open>i\<close> of \<open>s\<close>, delete a
  character, insert one, or keep or replace the last one, whichever costs least.
\<close>

fun editTable :: "string \<Rightarrow> string \<Rightarrow> nat \<Rightarrow> nat \<Rightarrow> nat" where
  "editTable s t 0 j = j"
| "editTable s t (Suc i) 0 = Suc i"
| "editTable s t (Suc i) (Suc j) =
     min (min (editTable s t i (Suc j) + 1) (editTable s t (Suc i) j + 1))
       (editTable s t i j + (if s ! i = t ! j then 0 else 1))"

definition editDistance :: "string \<Rightarrow> string \<Rightarrow> nat" where
  "editDistance s t = editTable s t (length s) (length t)"

text \<open>
  The title similarity as the specification words it: one minus the edit distance of the
  lower-cased, trimmed titles over the greater of their lengths. Where both are empty the
  quotient has no value, and the similarity is taken to be 1.
\<close>

definition titleSimilarity :: "string \<Rightarrow> string \<Rightarrow> rat" where
  "titleSimilarity title1 title2 =
     (let s1 = trim (toLowerCase title1);
          s2 = trim (toLowerCase title2);
          maxLen = max (length s1) (length s2)
      in if maxLen = 0 then 1
         else 1 - of_nat (editDistance s1 s2) / of_nat maxLen)"

text \<open>
  The canonical code form of a category: the letter A, two digits, a colon and four
  digits, as in \<^verbatim>\<open>A03:2021\<close>.
\<close>

definition isCategoryCode :: "string \<Rightarrow> bool" where
  "isCategoryCode c \<longleftrightarrow>
     (case c of
        [a, d1, d2, colon, y1, y2, y3, y4] \<Rightarrow>
          a = CHR ''A'' \<and> list_all (\<lambda>d. d \<in> set ''0123456789'') [d1, d2]
          \<and> colon = CHR '':'' \<and> list_all (\<lambda>d. d \<in> set ''0123456789'') [y1, y2, y3, y4]
      | _ \<Rightarrow> False)"

text \<open>
  A finding for the examples: its identifier, title, category, line and source are given,
  the other fields are fixed.
\<close>

definition finding ::
  "string \<Rightarrow> string \<Rightarrow> string \<Rightarrow> int \<Rightarrow> AnalyzerSource \<Rightarrow> VulnerabilityIssue" where
  "finding ident ttl category lineNo src =
     \<lparr>id_field = ident, title = ttl, description = ''Description'', severity = HIGH,
      owaspCategory = category, line = lineNo, columnStart = 0, columnEnd = 20,
      fix_field = ''Fix'', source = src, codeSnippet = None\<rparr>"

text \<open>
  The clusters of the pass as lists of findings: the members of each index array, and the
  same clusters read on the list itself.
\<close>

definition clusterFindings :: "VulnerabilityIssue list \<Rightarrow> VulnerabilityIssue list list" where
  "clusterFindings issueList = map (map (\<lambda>k. issueList ! k)) (clusterIndices issueList)"

function clusterPass :: "VulnerabilityIssue list \<Rightarrow> VulnerabilityIssue list list" where
  "clusterPass [] = []"
| "clusterPass (x # xs) =
     (x # filter (isDuplicate x) xs) # clusterPass (filter (\<lambda>y. \<not> isDuplicate x y) xs)"
  by pat_completeness auto
termination
  by (relation "measure length") (auto simp: less_Suc_eq_le)

text \<open>
  The member of a cluster that \<^verbatim>\<open>mergeDuplicates\<close> takes as base record: the first
  one of source \<open>Llm\<close>, else the first one, which is the anchor.
\<close>

definition baseRecord :: "VulnerabilityIssue list \<Rightarrow> VulnerabilityIssue" where
  "baseRecord duplicates =
     (case find (\<lambda>issue. source issue = Llm) duplicates of
        Some llmIssue \<Rightarrow> llmIssue
      | None \<Rightarrow> hd duplicates)"

text \<open>
  What the duplicate predicate reads of a finding: its line, its normalized category and
  its lower-cased, trimmed title.
\<close>

definition duplicateKey :: "VulnerabilityIssue \<Rightarrow> int \<times> string \<times> string" where
  "duplicateKey f =
     (line f, normalizeOwaspCategory (owaspCategory f), trim (toLowerCase (title f)))"

text \<open>No two findings of a list are duplicates of each other.\<close>

definition noDuplicates :: "VulnerabilityIssue list \<Rightarrow> bool" where
  "noDuplicates ys \<longleftrightarrow>
     (\<forall>i\<in>{0..<length ys}. \<forall>j\<in>{0..<length ys}. i \<noteq> j \<longrightarrow> \<not> isDuplicate (ys ! i) (ys ! j))"

text \<open>
  The engine of the examples is the one the constructor of \<^verbatim>\<open>SecurityScanEngine\<close>
  builds: the language detector with its content patterns, the four rules of
  \<^verbatim>\<open>initializeRules\<close> and the default timeout of 30000 ms. What lies outside the
  program is given: the identifiers that \<^verbatim>\<open>uuidv4\<close> returns, and what the remote
  call does, which is the argument. The remote call of the examples fails or answers
  \<^verbatim>\<open>[]\<close>, and for that answer \<^verbatim>\<open>parseResponse\<close> returns the empty array.
\<close>

definition exampleUuid :: "nat \<Rightarrow> string" where
  "exampleUuid k = ''uuid-'' @ numberToString (int k)"

definition exampleEnvironment :: "RemoteOutcome \<Rightarrow> Environment" where
  "exampleEnvironment outcome =
     \<lparr>env_detect = LanguageDetector_detect,
      env_rules = initializeRules,
      env_staticUuid = exampleUuid,
      env_timeout = 30000,
      env_remote = outcome,
      env_parseResponse = (\<lambda>response. []),
      env_llmUuid = exampleUuid\<rparr>"

text \<open>A clock that advances by one millisecond from one reading to the next.\<close>

definition exampleClock :: Clock where
  "exampleClock =
     \<lparr>clk_start = 1000,
      clk_validate = 1001,
      clk_error = 1002,
      clk_errorIso = ''2024-01-01T00:00:01.002Z'',
      clk_meta = 1003,
      clk_metaIso = ''2024-01-01T00:00:01.003Z'',
      clk_formatIso = ''2024-01-01T00:00:01.004Z'',
      clk_id = (\<lambda>index. 1004)\<rparr>"

definition exampleMetadata :: ScanMetadata where
  "exampleMetadata =
     \<lparr>timestamp = ''2024-01-01T00:00:00.000Z'', duration = 1000, language = ''javascript'',
      linesOfCode = 100, analyzersUsed = [''static''], staticRulesApplied = 1,
      llmModel = None\<rparr>"

text \<open>The place of a finding: its line and its two columns.\<close>

definition position :: "VulnerabilityIssue \<Rightarrow> int \<times> int \<times> int" where
  "position f = (line f, columnStart f, columnEnd f)"

text \<open>
  The severity rank of the specification: the place of a severity in the order Critical,
  High, Medium, Low, Info. The sort key of a finding is its severity rank, then its line.
\<close>

definition severitiesByRank :: "SeverityLevel list" where
  "severitiesByRank = [CRITICAL, HIGH, MEDIUM, LOW, INFO]"

definition severityRank :: "SeverityLevel \<Rightarrow> nat" where
  "severityRank s = length (takeWhile (\<lambda>l. l \<noteq> s) severitiesByRank)"

definition sortKey :: "VulnerabilityIssue \<Rightarrow> int \<times> int" where
  "sortKey issue = (int (severityRank (severity issue)), line issue)"

definition keyLessEq :: "int \<times> int \<Rightarrow> int \<times> int \<Rightarrow> bool" where
  "keyLessEq k k' \<longleftrightarrow> fst k < fst k' \<or> (fst k = fst k' \<and> snd k \<le> snd k')"

section \<open>Unfolding the string functions\<close>

text \<open>The definitions that evaluate the string functions on a given text.\<close>

lemmas lower_eval = toLowerCase_def toLowerChar_def upperCaseUnits_def lowerCaseUnits_def

lemmas string_eval = toLowerCase_def toLowerChar_def upperCaseUnits_def lowerCaseUnits_def
  trim_def isWhiteSpace_def isDigit_def normalizeOwaspCategory_def

section \<open>The Deduplicator: the loops and the clustering pass\<close>

lemma findDuplicates_eq:
  "findDuplicates issueList c j P D =
     (D @ filter (\<lambda>k. k \<notin> P \<and> isDuplicate c (issueList ! k)) [j..<length issueList],
      P \<union> set (filter (\<lambda>k. k \<notin> P \<and> isDuplicate c (issueList ! k)) [j..<length issueList]))"
proof (induction issueList c j P D rule: findDuplicates.induct)
  case (1 issueList c j P D)
  show ?case
  proof (cases "j < length issueList")
    case False
    then show ?thesis by (simp add: findDuplicates.simps)
  next
    case True
    note jl = True
    have upt: "[j..<length issueList] = j # [j + 1..<length issueList]"
      using jl by (simp add: upt_conv_Cons)
    show ?thesis
    proof (cases "j \<in> P")
      case True
      then show ?thesis
        using jl "1.IH"(1) by (subst findDuplicates.simps) (simp add: upt)
    next
      case False
      note jP = False
      show ?thesis
      proof (cases "isDuplicate c (issueList ! j)")
        case True
        have "filter (\<lambda>k. k \<notin> insert j P \<and> isDuplicate c (issueList ! k)) [j + 1..<length issueList]
            = filter (\<lambda>k. k \<notin> P \<and> isDuplicate c (issueList ! k)) [j + 1..<length issueList]"
          by (rule filter_cong) auto
        then show ?thesis
          using jl jP True "1.IH"(2)
          by (subst findDuplicates.simps) (auto simp add: upt)
      next
        case False
        then show ?thesis
          using jl jP "1.IH"(3) by (subst findDuplicates.simps) (simp add: upt)
      qed
    qed
  qed
qed

lemma mergeDuplicates_Cons: "mergeDuplicates (x # xs) \<noteq> None"
  by (cases xs) (simp_all add: Let_def)

lemma deduplicateLoop_eq:
  "deduplicateLoop issueList i P acc = Some (acc @ anchorPass (unprocessed issueList i P))"
proof (induction issueList i P acc rule: deduplicateLoop.induct)
  case (1 issueList i P acc)
  show ?case
  proof (cases "i < length issueList")
    case False
    then show ?thesis by (simp add: deduplicateLoop.simps unprocessed_def)
  next
    case True
    note il = True
    have upt: "[i..<length issueList] = i # [i + 1..<length issueList]"
      using il by (simp add: upt_conv_Cons)
    show ?thesis
    proof (cases "i \<in> P")
      case True
      then show ?thesis
        using il "1.IH"(1) by (subst deduplicateLoop.simps) (simp add: upt unprocessed_def)
    next
      case False
      note iP = False
      let ?c = "issueList ! i"
      let ?D = "filter (\<lambda>k. k \<notin> P \<and> isDuplicate ?c (issueList ! k)) [i + 1..<length issueList]"
      let ?P' = "P \<union> set ?D"
      have fd: "findDuplicates issueList ?c (i + 1) P [i] = ([i] @ ?D, ?P')"
        by (rule findDuplicates_eq)
      have rest: "unprocessed issueList i P = ?c # unprocessed issueList (i + 1) P"
        using iP by (simp add: unprocessed_def upt)
      have dups: "map (\<lambda>idx. issueList ! idx) ([i] @ ?D)
                  = ?c # filter (isDuplicate ?c) (unprocessed issueList (i + 1) P)"
        by (simp add: unprocessed_def filter_map o_def)
      have "filter (\<lambda>k. k \<notin> insert i ?P') [i + 1..<length issueList]
            = filter (\<lambda>k. \<not> isDuplicate ?c (issueList ! k)) (filter (\<lambda>k. k \<notin> P) [i + 1..<length issueList])"
        unfolding filter_filter by (rule filter_cong) auto
      then have next_rest: "unprocessed issueList (i + 1) (insert i ?P')
                  = filter (\<lambda>y. \<not> isDuplicate ?c y) (unprocessed issueList (i + 1) P)"
        by (simp add: unprocessed_def filter_map o_def)
      obtain m where m: "mergeDuplicates (?c # filter (isDuplicate ?c) (unprocessed issueList (i + 1) P)) = Some m"
        using mergeDuplicates_Cons by blast
      have mm: "mergeDuplicates (map (\<lambda>idx. issueList ! idx) ([i] @ ?D)) = Some m"
        using dups m by simp
      have "deduplicateLoop issueList i P acc
            = deduplicateLoop issueList (i + 1) (insert i ?P') (acc @ [m])"
        using il iP fd mm by (subst deduplicateLoop.simps) simp
      also have "\<dots> = Some ((acc @ [m]) @ anchorPass (unprocessed issueList (i + 1) (insert i ?P')))"
        using "1.IH"(2)[OF il iP fd[symmetric] mm] by simp
      finally show ?thesis
        using rest next_rest m by simp
    qed
  qed
qed

lemma deduplicate_anchorPass: "deduplicate xs = Some (anchorPass xs)"
proof (cases xs)
  case Nil
  then show ?thesis by (simp add: deduplicate_def)
next
  case (Cons a list)
  have "unprocessed xs 0 {} = xs"
    by (simp add: unprocessed_def map_nth)
  then show ?thesis
    using Cons by (simp add: deduplicate_def deduplicateLoop_eq)
qed



lemma findDuplicates_anchor:
  "findDuplicates issueList c (i + 1) P [i] = (D, P') \<Longrightarrow>
     D = i # filter (\<lambda>k. k \<notin> P \<and> isDuplicate c (issueList ! k)) [i + 1..<length issueList]
     \<and> P' = P \<union> set (filter (\<lambda>k. k \<notin> P \<and> isDuplicate c (issueList ! k)) [i + 1..<length issueList])"
  by (simp add: findDuplicates_eq)

lemma clusterLoop_step:
  assumes "i < length issueList" "i \<notin> P"
    and "findDuplicates issueList (issueList ! i) (i + 1) P [i] = (D, P')"
  shows "clusterLoop issueList i P found = clusterLoop issueList (i + 1) (insert i P') (found @ [D])"
  using assms by (subst clusterLoop.simps) simp

lemma clusterLoop_skip:
  assumes "i < length issueList" "i \<in> P"
  shows "clusterLoop issueList i P found = clusterLoop issueList (i + 1) P found"
  using assms by (subst clusterLoop.simps) simp

lemma clusterLoop_done:
  assumes "\<not> i < length issueList"
  shows "clusterLoop issueList i P found = found"
  using assms by (subst clusterLoop.simps) simp

lemma mset_filter_split:
  "mset (filter (\<lambda>k. A k \<and> B k) ks) + mset (filter (\<lambda>k. A k \<and> \<not> B k) ks)
     = mset (filter A ks)"
  by (induction ks) auto

lemma mset_clusterLoop:
  "mset (concat (clusterLoop issueList i P found))
     = mset (concat found) + mset (filter (\<lambda>k. k \<notin> P) [i..<length issueList])"
proof (induction issueList i P found rule: clusterLoop.induct)
  case (1 issueList i P found)
  show ?case
  proof (cases "i < length issueList")
    case False
    then show ?thesis by (simp add: clusterLoop_done)
  next
    case True
    note il = True
    have upt: "[i..<length issueList] = i # [i + 1..<length issueList]"
      using il by (simp add: upt_conv_Cons)
    show ?thesis
    proof (cases "i \<in> P")
      case True
      then show ?thesis
        using il "1.IH"(1) by (simp add: clusterLoop_skip upt)
    next
      case False
      note iP = False
      obtain D P' where fd: "findDuplicates issueList (issueList ! i) (i + 1) P [i] = (D, P')"
        by (cases "findDuplicates issueList (issueList ! i) (i + 1) P [i]") auto
      define A where "A = filter (\<lambda>k. k \<notin> P \<and> isDuplicate (issueList ! i) (issueList ! k)) [i + 1..<length issueList]"
      define B where "B = filter (\<lambda>k. k \<notin> P \<and> \<not> isDuplicate (issueList ! i) (issueList ! k)) [i + 1..<length issueList]"
      define C where "C = filter (\<lambda>k. k \<notin> P) [i + 1..<length issueList]"
      have D: "D = i # A" and P': "P' = P \<union> set A"
        using findDuplicates_anchor[OF fd] by (simp_all add: A_def)
      have rest: "filter (\<lambda>k. k \<notin> insert i P') [i + 1..<length issueList] = B"
        unfolding P' A_def B_def by (rule filter_cong) auto
      have split: "mset A + mset B = mset C"
        unfolding A_def B_def C_def by (rule mset_filter_split)
      have all: "filter (\<lambda>k. k \<notin> P) [i..<length issueList] = i # C"
        using iP by (simp add: upt C_def)
      have "mset (concat (clusterLoop issueList i P found))
            = mset (concat (found @ [D])) + mset (filter (\<lambda>k. k \<notin> insert i P') [i + 1..<length issueList])"
        using "1.IH"(2)[OF il iP fd[symmetric]] clusterLoop_step[OF il iP fd] by simp
      also have "\<dots> = mset (concat found) + (mset (i # A) + mset B)"
        unfolding rest D by simp
      also have "\<dots> = mset (concat found) + mset (i # C)"
        using split by simp
      also have "\<dots> = mset (concat found) + mset (filter (\<lambda>k. k \<notin> P) [i..<length issueList])"
        unfolding all ..
      finally show ?thesis .
    qed
  qed
qed

lemma nonempty_clusterLoop:
  "[] \<notin> set found \<Longrightarrow> [] \<notin> set (clusterLoop issueList i P found)"
proof (induction issueList i P found rule: clusterLoop.induct)
  case (1 issueList i P found)
  show ?case
  proof (cases "i < length issueList")
    case False
    then show ?thesis using "1.prems" by (simp add: clusterLoop_done)
  next
    case True
    note il = True
    show ?thesis
    proof (cases "i \<in> P")
      case True
      then show ?thesis
        using il "1.IH"(1) "1.prems" by (simp add: clusterLoop_skip)
    next
      case False
      note iP = False
      obtain D P' where fd: "findDuplicates issueList (issueList ! i) (i + 1) P [i] = (D, P')"
        by (cases "findDuplicates issueList (issueList ! i) (i + 1) P [i]") auto
      have "D \<noteq> []" using findDuplicates_anchor[OF fd] by simp
      then show ?thesis
        using "1.IH"(2)[OF il iP fd[symmetric]] clusterLoop_step[OF il iP fd] "1.prems" by simp
    qed
  qed
qed

lemma deduplicateLoop_clusters:
  "map Some acc = map (\<lambda>c. mergeDuplicates (map (\<lambda>k. issueList ! k) c)) found \<Longrightarrow>
   \<exists>out. deduplicateLoop issueList i P acc = Some out
        \<and> map Some out = map (\<lambda>c. mergeDuplicates (map (\<lambda>k. issueList ! k) c))
                           (clusterLoop issueList i P found)"
proof (induction issueList i P found arbitrary: acc rule: clusterLoop.induct)
  case (1 issueList i P found)
  show ?case
  proof (cases "i < length issueList")
    case False
    then show ?thesis using "1.prems"
      by (subst deduplicateLoop.simps) (simp add: clusterLoop_done)
  next
    case True
    note il = True
    show ?thesis
    proof (cases "i \<in> P")
      case True
      then show ?thesis
        using il "1.IH"(1)[OF il True "1.prems"]
        by (subst deduplicateLoop.simps) (simp add: clusterLoop_skip)
    next
      case False
      note iP = False
      obtain D P' where fd: "findDuplicates issueList (issueList ! i) (i + 1) P [i] = (D, P')"
        by (cases "findDuplicates issueList (issueList ! i) (i + 1) P [i]") auto
      have "D \<noteq> []" using findDuplicates_anchor[OF fd] by simp
      then obtain m where m: "mergeDuplicates (map (\<lambda>k. issueList ! k) D) = Some m"
        using mergeDuplicates_Cons by (cases D) auto
      have acc': "map Some (acc @ [m])
                  = map (\<lambda>c. mergeDuplicates (map (\<lambda>k. issueList ! k) c)) (found @ [D])"
        using "1.prems" m by simp
      have step: "deduplicateLoop issueList i P acc
                  = deduplicateLoop issueList (i + 1) (insert i P') (acc @ [m])"
        using il iP fd m by (subst deduplicateLoop.simps) simp
      show ?thesis
        using "1.IH"(2)[OF il iP fd[symmetric] acc'] step clusterLoop_step[OF il iP fd]
        by simp
    qed
  qed
qed

lemma length_le_concat: "[] \<notin> set cs \<Longrightarrow> length cs \<le> length (concat cs)"
proof (induction cs)
  case Nil
  then show ?case by simp
next
  case (Cons c cs)
  then have "length cs \<le> length (concat cs)" by simp
  moreover have "c \<noteq> []" using Cons.prems by auto
  ultimately show ?case by (cases c) auto
qed

text \<open>
  Claim C10. \<^verbatim>\<open>deduplicate\<close> never throws and partitions its input: the index arrays
  of its clusters hold every index of the input exactly once, none of them is empty, and
  the output is the list of their merges, one finding for each cluster. So the output is
  no longer than the input, it is not empty when the input is not, and the empty list
  gives the empty list.
\<close>

theorem deduplicate_partitions_input:
  "\<exists>out. deduplicate xs = Some out
      \<and> map Some out = map (\<lambda>c. mergeDuplicates (map (\<lambda>k. xs ! k) c)) (clusterIndices xs)
      \<and> mset (concat (clusterIndices xs)) = mset [0..<length xs]
      \<and> [] \<notin> set (clusterIndices xs)
      \<and> length out \<le> length xs
      \<and> (xs \<noteq> [] \<longrightarrow> out \<noteq> [])
      \<and> deduplicate [] = Some []"
proof -
  obtain out where out: "deduplicateLoop xs 0 {} [] = Some out"
    and cl: "map Some out = map (\<lambda>c. mergeDuplicates (map (\<lambda>k. xs ! k) c)) (clusterIndices xs)"
    using deduplicateLoop_clusters[of "[]" xs "[]" 0 "{}"] by (auto simp: clusterIndices_def)
  have ded: "deduplicate xs = Some out"
  proof (cases xs)
    case Nil
    then show ?thesis using out by (simp add: deduplicate_def deduplicateLoop.simps)
  next
    case Cons
    then show ?thesis using out by (simp add: deduplicate_def)
  qed
  have part: "mset (concat (clusterIndices xs)) = mset [0..<length xs]"
    by (simp add: clusterIndices_def mset_clusterLoop)
  have ne: "[] \<notin> set (clusterIndices xs)"
    by (simp add: clusterIndices_def nonempty_clusterLoop)
  have len: "length out = length (clusterIndices xs)"
    using cl by (metis length_map)
  have "length (clusterIndices xs) \<le> length (concat (clusterIndices xs))"
    using ne by (rule length_le_concat)
  also have cl_len: "length (concat (clusterIndices xs)) = length xs"
    using part by (metis length_upt minus_nat.diff_0 size_mset)
  finally have le: "length out \<le> length xs"
    using len by simp
  have nonempty: "xs \<noteq> [] \<longrightarrow> out \<noteq> []"
  proof
    assume "xs \<noteq> []"
    then have "0 < length (concat (clusterIndices xs))"
      using cl_len by simp
    then have "clusterIndices xs \<noteq> []" by auto
    then show "out \<noteq> []" using len by auto
  qed
  have "deduplicate [] = Some []"
    by (simp add: deduplicate_def)
  then show ?thesis
    using ded cl part ne le nonempty by blast
qed

theorem deduplicate_partitions_input_witness:
  "[finding ''1'' ''SQL Injection'' ''A03:2021'' 10 Static,
    finding ''2'' ''SQL Injection'' ''A03:2021'' 11 Llm] \<noteq> []
   \<and> (\<exists>out. deduplicate
          [finding ''1'' ''SQL Injection'' ''A03:2021'' 10 Static,
           finding ''2'' ''SQL Injection'' ''A03:2021'' 11 Llm] = Some out
        \<and> out \<noteq> [] \<and> length out \<le> 2)"
  using deduplicate_partitions_input
    [of "[finding ''1'' ''SQL Injection'' ''A03:2021'' 10 Static,
          finding ''2'' ''SQL Injection'' ''A03:2021'' 11 Llm]"]
  by auto

section \<open>The merge policy\<close>

lemma foldl_longerDescription_mem: "foldl longerDescription d ds \<in> set (d # ds)"
  by (induction ds arbitrary: d) (auto simp: longerDescription_def)

lemma foldl_longerDescription_ge:
  "length (description d) \<le> length (description (foldl longerDescription d ds))"
proof (induction ds arbitrary: d)
  case Nil
  then show ?case by simp
next
  case (Cons a ds)
  have "length (description d) \<le> length (description (longerDescription d a))"
    by (simp add: longerDescription_def)
  also have "\<dots> \<le> length (description (foldl longerDescription (longerDescription d a) ds))"
    by (rule Cons.IH)
  finally show ?case by simp
qed

lemma foldl_longerDescription_max:
  "x \<in> set (d # ds) \<Longrightarrow>
     length (description x) \<le> length (description (foldl longerDescription d ds))"
proof (induction ds arbitrary: d)
  case Nil
  then show ?case by simp
next
  case (Cons a ds)
  show ?case
  proof (cases "x = d")
    case True
    then show ?thesis using foldl_longerDescription_ge by blast
  next
    case False
    then have "x \<in> set (a # ds)" using Cons.prems by simp
    then have "x = a \<or> x \<in> set ds" by simp
    then show ?thesis
    proof
      assume "x = a"
      then have "length (description x) \<le> length (description (longerDescription d a))"
        by (simp add: longerDescription_def)
      also have "\<dots> \<le> length (description (foldl longerDescription (longerDescription d a) ds))"
        by (rule foldl_longerDescription_ge)
      finally show ?thesis by simp
    next
      assume "x \<in> set ds"
      then have "x \<in> set (longerDescription d a # ds)" by simp
      from Cons.IH[OF this] show ?thesis by simp
    qed
  qed
qed

lemma foldl_longerFix_mem: "foldl longerFix d ds \<in> set (d # ds)"
  by (induction ds arbitrary: d) (auto simp: longerFix_def)

lemma foldl_longerFix_ge:
  "length (fix_field d) \<le> length (fix_field (foldl longerFix d ds))"
proof (induction ds arbitrary: d)
  case Nil
  then show ?case by simp
next
  case (Cons a ds)
  have "length (fix_field d) \<le> length (fix_field (longerFix d a))"
    by (simp add: longerFix_def)
  also have "\<dots> \<le> length (fix_field (foldl longerFix (longerFix d a) ds))"
    by (rule Cons.IH)
  finally show ?case by simp
qed

lemma foldl_longerFix_max:
  "x \<in> set (d # ds) \<Longrightarrow>
     length (fix_field x) \<le> length (fix_field (foldl longerFix d ds))"
proof (induction ds arbitrary: d)
  case Nil
  then show ?case by simp
next
  case (Cons a ds)
  show ?case
  proof (cases "x = d")
    case True
    then show ?thesis using foldl_longerFix_ge by blast
  next
    case False
    then have "x \<in> set (a # ds)" using Cons.prems by simp
    then have "x = a \<or> x \<in> set ds" by simp
    then show ?thesis
    proof
      assume "x = a"
      then have "length (fix_field x) \<le> length (fix_field (longerFix d a))"
        by (simp add: longerFix_def)
      also have "\<dots> \<le> length (fix_field (foldl longerFix (longerFix d a) ds))"
        by (rule foldl_longerFix_ge)
      finally show ?thesis by simp
    next
      assume "x \<in> set ds"
      then have "x \<in> set (longerFix d a # ds)" by simp
      from Cons.IH[OF this] show ?thesis by simp
    qed
  qed
qed

lemma getHighestSeverity_mem:
  "sevs \<noteq> [] \<Longrightarrow> getHighestSeverity sevs \<in> set sevs"
  by (cases sevs) (auto simp: getHighestSeverity_def severityOrderList_def)

lemma getHighestSeverity_least:
  "s \<in> set sevs \<Longrightarrow> severityOrder (getHighestSeverity sevs) \<le> severityOrder s"
  by (cases s) (auto simp: getHighestSeverity_def severityOrderList_def)

lemma baseIssue_choice:
  "(case find (\<lambda>issue. source issue = Llm) ds of Some l \<Rightarrow> l | None \<Rightarrow> hd ds) = b \<Longrightarrow> ds \<noteq> [] \<Longrightarrow>
     b \<in> set ds \<and> (if \<exists>d\<in>set ds. source d = Llm then source b = Llm else b = hd ds)"
  by (auto simp: find_Some_iff find_None_iff split: option.splits)


lemma card_gt_one_iff:
  "finite S \<Longrightarrow> card S > 1 \<longleftrightarrow> (\<exists>a\<in>S. \<exists>b\<in>S. a \<noteq> b)"
proof
  assume "finite S" "1 < card S"
  then obtain a where a: "a \<in> S" by (metis card_gt_0_iff equals0I less_trans zero_less_one)
  have "card (S - {a}) > 0" using \<open>1 < card S\<close> \<open>finite S\<close> a by simp
  then obtain b where "b \<in> S - {a}" by (metis card_gt_0_iff equals0I)
  then show "\<exists>a\<in>S. \<exists>b\<in>S. a \<noteq> b" using a by blast
next
  assume fin: "finite S" and "\<exists>a\<in>S. \<exists>b\<in>S. a \<noteq> b"
  then obtain a b where ab: "a \<in> S" "b \<in> S" "a \<noteq> b" by blast
  then have "{a, b} \<subseteq> S" by simp
  then have "card {a, b} \<le> card S" using fin by (rule card_mono[rotated])
  then show "1 < card S" using ab by simp
qed

lemma mergeDuplicates_many:
  "mergeDuplicates (d # e # es) =
     Some ((case find (\<lambda>issue. source issue = Llm) (d # e # es) of Some l \<Rightarrow> l | None \<Rightarrow> d)
        \<lparr>source := (if card (set (map source (d # e # es))) > 1 then Merged
                     else source (case find (\<lambda>issue. source issue = Llm) (d # e # es) of
                                    Some l \<Rightarrow> l | None \<Rightarrow> d)),
         description := description (foldl longerDescription d (e # es)),
         fix_field := fix_field (foldl longerFix d (e # es)),
         severity := getHighestSeverity (map severity (d # e # es))\<rparr>)"
  by (simp add: Let_def del: find.simps foldl.simps set_simps list.map)

text \<open>
  Claim C8. For a cluster of more than one finding \<^verbatim>\<open>mergeDuplicates\<close> returns a
  finding whose severity is one of the cluster and no other member ranks higher (Critical
  first); whose description and fix are those of members and no member has a longer one;
  whose title, line, columns, snippet, identifier and category are those of one member,
  an LLM finding if the cluster has one, else the first member; and whose source is
  \<open>Merged\<close> if two members differ in source, else the source they all share.
\<close>

theorem mergeDuplicates_policy:
  assumes "length ds > 1"
  shows "\<exists>m. mergeDuplicates ds = Some m
    \<and> severity m \<in> severity ` set ds
    \<and> (\<forall>d\<in>set ds. severityOrder (severity m) \<le> severityOrder (severity d))
    \<and> description m \<in> description ` set ds
    \<and> (\<forall>d\<in>set ds. length (description d) \<le> length (description m))
    \<and> fix_field m \<in> fix_field ` set ds
    \<and> (\<forall>d\<in>set ds. length (fix_field d) \<le> length (fix_field m))
    \<and> (\<exists>b\<in>set ds.
          (if \<exists>d\<in>set ds. source d = Llm then source b = Llm else b = hd ds)
          \<and> title m = title b \<and> line m = line b \<and> columnStart m = columnStart b
          \<and> columnEnd m = columnEnd b \<and> codeSnippet m = codeSnippet b
          \<and> id_field m = id_field b \<and> owaspCategory m = owaspCategory b)
    \<and> (if \<exists>d\<in>set ds. \<exists>e\<in>set ds. source d \<noteq> source e then source m = Merged
        else \<forall>d\<in>set ds. source m = source d)"
proof -
  obtain d e es where ds: "ds = d # e # es"
    using assms by (cases ds; cases "tl ds") auto
  define b where "b = (case find (\<lambda>issue. source issue = Llm) ds of Some l \<Rightarrow> l | None \<Rightarrow> d)"
  define m where "m = b\<lparr>source := (if card (set (map source ds)) > 1 then Merged else source b),
         description := description (foldl longerDescription d (e # es)),
         fix_field := fix_field (foldl longerFix d (e # es)),
         severity := getHighestSeverity (map severity ds)\<rparr>"
  have merged: "mergeDuplicates ds = Some m"
    unfolding ds m_def b_def mergeDuplicates_many ..
  have ne: "ds \<noteq> []" using ds by simp
  have "(case find (\<lambda>issue. source issue = Llm) ds of Some l \<Rightarrow> l | None \<Rightarrow> hd ds) = b"
    unfolding b_def ds by (simp only: list.sel)
  from baseIssue_choice[OF this ne]
  have b: "b \<in> set ds" "if \<exists>d\<in>set ds. source d = Llm then source b = Llm else b = hd ds"
    by simp_all
  have sev1: "severity m \<in> severity ` set ds"
    using getHighestSeverity_mem[of "map severity ds"] ne by (simp add: m_def)
  have sev2: "\<forall>x\<in>set ds. severityOrder (severity m) \<le> severityOrder (severity x)"
    using getHighestSeverity_least[of _ "map severity ds"] by (simp add: m_def)
  have desc1: "description m \<in> description ` set ds"
    using foldl_longerDescription_mem[of d "e # es"] unfolding ds m_def by (auto simp del: foldl.simps)
  have desc2: "\<forall>x\<in>set ds. length (description x) \<le> length (description m)"
    using foldl_longerDescription_max[of _ d "e # es"] unfolding ds m_def by (simp del: foldl.simps)
  have fix1: "fix_field m \<in> fix_field ` set ds"
    using foldl_longerFix_mem[of d "e # es"] unfolding ds m_def by (auto simp del: foldl.simps)
  have fix2: "\<forall>x\<in>set ds. length (fix_field x) \<le> length (fix_field m)"
    using foldl_longerFix_max[of _ d "e # es"] unfolding ds m_def by (simp del: foldl.simps)
  have base: "title m = title b \<and> line m = line b \<and> columnStart m = columnStart b
          \<and> columnEnd m = columnEnd b \<and> codeSnippet m = codeSnippet b
          \<and> id_field m = id_field b \<and> owaspCategory m = owaspCategory b"
    by (simp add: m_def)
  have "card (source ` set ds) > 1 \<longleftrightarrow> (\<exists>a\<in>source ` set ds. \<exists>b\<in>source ` set ds. a \<noteq> b)"
    by (rule card_gt_one_iff) simp
  also have "\<dots> \<longleftrightarrow> (\<exists>x\<in>set ds. \<exists>y\<in>set ds. source x \<noteq> source y)"
    by blast
  finally have card: "card (set (map source ds)) > 1 \<longleftrightarrow> (\<exists>x\<in>set ds. \<exists>y\<in>set ds. source x \<noteq> source y)"
    by (simp only: set_map)
  have "source m = (if card (set (map source ds)) > 1 then Merged else source b)"
    by (simp add: m_def)
  then have srcm: "source m = (if \<exists>x\<in>set ds. \<exists>y\<in>set ds. source x \<noteq> source y then Merged else source b)"
    unfolding card .
  have src: "if \<exists>x\<in>set ds. \<exists>y\<in>set ds. source x \<noteq> source y then source m = Merged
        else \<forall>x\<in>set ds. source m = source x"
  proof (cases "\<exists>x\<in>set ds. \<exists>y\<in>set ds. source x \<noteq> source y")
    case True
    have "source m = Merged"
      using srcm by (simp only: True if_True)
    then show ?thesis
      by (simp only: True if_True)
  next
    case False
    have mb: "source m = source b"
      using srcm by (simp only: False if_False)
    have "\<forall>x\<in>set ds. source x = source b"
      using False b(1) by blast
    then have "\<forall>x\<in>set ds. source m = source x"
      using mb by simp
    then show ?thesis
      by (simp only: False if_False)
  qed
  have basis: "\<exists>b\<in>set ds.
          (if \<exists>d\<in>set ds. source d = Llm then source b = Llm else b = hd ds)
          \<and> title m = title b \<and> line m = line b \<and> columnStart m = columnStart b
          \<and> columnEnd m = columnEnd b \<and> codeSnippet m = codeSnippet b
          \<and> id_field m = id_field b \<and> owaspCategory m = owaspCategory b"
    using b base by (intro bexI[of _ b] conjI) simp_all
  show ?thesis
    by (intro exI[of _ m] conjI merged sev1 sev2 desc1 desc2 fix1 fix2 basis src)
qed


theorem mergeDuplicates_policy_witness:
  "1 < length
     [\<lparr>id_field = ''1'', title = ''SQL Injection'', description = ''Short'', severity = HIGH,
        owaspCategory = ''A03:2021'', line = 10, columnStart = 0, columnEnd = 20,
        fix_field = ''Use parameterized queries'', source = Static, codeSnippet = None\<rparr>,
      \<lparr>id_field = ''2'', title = ''SQL injection found'', description = ''A longer description'',
        severity = CRITICAL, owaspCategory = ''A03:2021'', line = 11, columnStart = 2,
        columnEnd = 9, fix_field = ''Fix'', source = Llm, codeSnippet = None\<rparr>]
   \<and> (\<exists>m. mergeDuplicates
        [\<lparr>id_field = ''1'', title = ''SQL Injection'', description = ''Short'', severity = HIGH,
           owaspCategory = ''A03:2021'', line = 10, columnStart = 0, columnEnd = 20,
           fix_field = ''Use parameterized queries'', source = Static, codeSnippet = None\<rparr>,
         \<lparr>id_field = ''2'', title = ''SQL injection found'', description = ''A longer description'',
           severity = CRITICAL, owaspCategory = ''A03:2021'', line = 11, columnStart = 2,
           columnEnd = 9, fix_field = ''Fix'', source = Llm, codeSnippet = None\<rparr>] = Some m
        \<and> severity m = CRITICAL \<and> description m = ''A longer description''
        \<and> fix_field m = ''Use parameterized queries'' \<and> source m = Merged \<and> line m = 11
        \<and> title m = ''SQL injection found'')"
proof -
  let ?a = "\<lparr>id_field = ''1'', title = ''SQL Injection'', description = ''Short'', severity = HIGH,
        owaspCategory = ''A03:2021'', line = 10, columnStart = 0, columnEnd = 20,
        fix_field = ''Use parameterized queries'', source = Static, codeSnippet = None\<rparr>"
  let ?b = "\<lparr>id_field = ''2'', title = ''SQL injection found'', description = ''A longer description'',
        severity = CRITICAL, owaspCategory = ''A03:2021'', line = 11, columnStart = 2,
        columnEnd = 9, fix_field = ''Fix'', source = Llm, codeSnippet = None\<rparr>"
  have h: "1 < length [?a, ?b]" by simp
  from mergeDuplicates_policy[OF h] obtain m where
    m: "mergeDuplicates [?a, ?b] = Some m"
    and sev: "\<forall>d\<in>set [?a, ?b]. severityOrder (severity m) \<le> severityOrder (severity d)"
    and desc: "description m \<in> description ` set [?a, ?b]"
      "\<forall>d\<in>set [?a, ?b]. length (description d) \<le> length (description m)"
    and fx: "fix_field m \<in> fix_field ` set [?a, ?b]"
      "\<forall>d\<in>set [?a, ?b]. length (fix_field d) \<le> length (fix_field m)"
    and base: "\<exists>b\<in>set [?a, ?b].
          (if \<exists>d\<in>set [?a, ?b]. source d = Llm then source b = Llm else b = hd [?a, ?b])
          \<and> title m = title b \<and> line m = line b \<and> columnStart m = columnStart b
          \<and> columnEnd m = columnEnd b \<and> codeSnippet m = codeSnippet b
          \<and> id_field m = id_field b \<and> owaspCategory m = owaspCategory b"
    and src: "if \<exists>d\<in>set [?a, ?b]. \<exists>e\<in>set [?a, ?b]. source d \<noteq> source e then source m = Merged
        else \<forall>d\<in>set [?a, ?b]. source m = source d"
    by (elim exE conjE)
  have "severity m = CRITICAL"
    using sev by (cases "severity m") simp_all
  moreover have "description m = ''A longer description''"
    using desc by auto
  moreover have "fix_field m = ''Use parameterized queries''"
    using fx by auto
  moreover have "source m = Merged"
  proof -
    have cond: "\<exists>d\<in>set [?a, ?b]. \<exists>e\<in>set [?a, ?b]. source d \<noteq> source e"
      by (intro bexI[of _ ?a] bexI[of _ ?b]) simp_all
    show ?thesis
      using src by (simp only: cond if_True)
  qed
  moreover have "line m = 11 \<and> title m = ''SQL injection found''"
    using base by auto
  ultimately show ?thesis
    using h m by simp
qed

section \<open>Severity normalization of the LLM analyzer\<close>

lemma severityValue_inject: "severityValue a = severityValue b \<Longrightarrow> a = b"
  by (cases a; cases b) simp_all

text \<open>
  Claim C9. The LLM analyzer compares the lower-cased severity string with the five
  canonical names: a string whose lower-casing is the name of a level is mapped to that
  level, whatever its case; every other string is mapped to Medium; two strings that
  differ only in case are mapped to the same level.
\<close>

theorem normalizeSeverity_canonical:
  "(toLowerCase s = severityValue level \<longrightarrow> normalizeSeverity s = level)
   \<and> ((\<forall>l. toLowerCase s \<noteq> severityValue l) \<longrightarrow> normalizeSeverity s = MEDIUM)
   \<and> (toLowerCase s = toLowerCase t \<longrightarrow> normalizeSeverity s = normalizeSeverity t)"
proof (intro conjI impI)
  assume "toLowerCase s = severityValue level"
  then show "normalizeSeverity s = level"
    by (cases level) (simp_all add: normalizeSeverity_def)
next
  assume a: "\<forall>l. toLowerCase s \<noteq> severityValue l"
  show "normalizeSeverity s = MEDIUM"
    using a[rule_format, of CRITICAL] a[rule_format, of HIGH] a[rule_format, of LOW]
      a[rule_format, of INFO]
    by (simp add: normalizeSeverity_def Let_def)
next
  assume "toLowerCase s = toLowerCase t"
  then show "normalizeSeverity s = normalizeSeverity t"
    by (simp add: normalizeSeverity_def)
qed

theorem normalizeSeverity_canonical_witness:
  "toLowerCase ''HiGh'' = severityValue HIGH \<and> normalizeSeverity ''HiGh'' = HIGH
   \<and> (\<forall>l. toLowerCase ''urgent'' \<noteq> severityValue l) \<and> normalizeSeverity ''urgent'' = MEDIUM
   \<and> toLowerCase ''CRITICAL'' = toLowerCase ''critical''
   \<and> normalizeSeverity ''CRITICAL'' = normalizeSeverity ''critical''"
proof -
  have h1: "toLowerCase ''HiGh'' = severityValue HIGH"
    by (simp add: lower_eval)
  have h2: "\<forall>l. toLowerCase ''urgent'' \<noteq> severityValue l"
  proof
    fix l show "toLowerCase ''urgent'' \<noteq> severityValue l"
      by (cases l) (simp_all add: lower_eval)
  qed
  have h3: "toLowerCase ''CRITICAL'' = toLowerCase ''critical''"
    by (simp add: lower_eval)
  show ?thesis
    using h1 h2 h3
      normalizeSeverity_canonical[of "''HiGh''" HIGH "''HiGh''"]
      normalizeSeverity_canonical[of "''urgent''" MEDIUM "''urgent''"]
      normalizeSeverity_canonical[of "''CRITICAL''" CRITICAL "''critical''"]
    by blast
qed

section \<open>The duplicate predicate\<close>

lemma dp_diagonal: "i \<le> length s \<Longrightarrow> dp s s i i = 0"
  by (induction i) simp_all

lemma levenshteinDistance_same: "levenshteinDistance s s = 0"
  by (simp add: levenshteinDistance_def dp_diagonal)

text \<open>
  The table of \<^verbatim>\<open>levenshteinDistance\<close> copies the diagonal entry for an equal pair
  of characters without looking at the two other neighbours. That is the least of the
  three, since neighbouring entries of the table differ by at most 1.
\<close>

lemma editTable_zero: "editTable s t i 0 = i"
  by (cases i) simp_all

lemma editTable_insert: "editTable s t i (Suc j) \<le> editTable s t i j + 1"
  by (cases i) simp_all

lemma editTable_delete: "editTable s t (Suc i) j \<le> editTable s t i j + 1"
  by (cases j) (simp_all add: editTable_zero)

lemma editTable_shorter_source: "editTable s t i j \<le> editTable s t (Suc i) j + 1"
proof (induction j arbitrary: i)
  case 0
  then show ?case by (simp add: editTable_zero)
next
  case (Suc j)
  have a: "editTable s t i (Suc j) \<le> (editTable s t i (Suc j) + 1) + 1"
    by simp
  have "editTable s t i (Suc j) \<le> editTable s t i j + 1"
    by (rule editTable_insert)
  also have "\<dots> \<le> (editTable s t (Suc i) j + 1) + 1"
    using Suc.IH[of i] by simp
  finally have b: "editTable s t i (Suc j) \<le> (editTable s t (Suc i) j + 1) + 1" .
  have "editTable s t i (Suc j) \<le> editTable s t i j + 1"
    by (rule editTable_insert)
  then have c: "editTable s t i (Suc j)
      \<le> (editTable s t i j + (if s ! i = t ! j then 0 else 1)) + 1"
    by simp
  show ?case
    using a b c by (simp add: min_def)
qed

lemma editTable_shorter_target: "editTable s t i j \<le> editTable s t i (Suc j) + 1"
proof (induction i arbitrary: j)
  case 0
  then show ?case by simp
next
  case (Suc i)
  have "editTable s t (Suc i) j \<le> editTable s t i j + 1"
    by (rule editTable_delete)
  also have "\<dots> \<le> (editTable s t i (Suc j) + 1) + 1"
    using Suc.IH[of j] by simp
  finally have a: "editTable s t (Suc i) j \<le> (editTable s t i (Suc j) + 1) + 1" .
  have b: "editTable s t (Suc i) j \<le> (editTable s t (Suc i) j + 1) + 1"
    by simp
  have "editTable s t (Suc i) j \<le> editTable s t i j + 1"
    by (rule editTable_delete)
  then have c: "editTable s t (Suc i) j
      \<le> (editTable s t i j + (if s ! i = t ! j then 0 else 1)) + 1"
    by simp
  show ?case
    using a b c by (simp add: min_def)
qed

lemma dp_editTable: "dp s t i j = editTable s t i j"
proof (induction s t i j rule: dp.induct)
  case (1 str1 str2 j)
  then show ?case by simp
next
  case (2 str1 str2 i)
  then show ?case by simp
next
  case (3 str1 str2 i j)
  show ?case
  proof (cases "str1 ! i = str2 ! j")
    case True
    have "editTable str1 str2 i j \<le> editTable str1 str2 i (Suc j) + 1"
      by (rule editTable_shorter_target)
    moreover have "editTable str1 str2 i j \<le> editTable str1 str2 (Suc i) j + 1"
      by (rule editTable_shorter_source)
    ultimately show ?thesis
      using True "3.IH"(1) by (simp add: min_def)
  next
    case False
    then show ?thesis
      using "3.IH"(2,3,4) by (simp add: min_def)
  qed
qed

lemma levenshteinDistance_editDistance: "levenshteinDistance s t = editDistance s t"
  by (simp add: levenshteinDistance_def editDistance_def dp_editTable)

lemma calculateSimilarity_titleSimilarity:
  "calculateSimilarity title1 title2 = titleSimilarity title1 title2"
proof -
  have "editDistance (trim (toLowerCase title2)) (trim (toLowerCase title2)) = 0"
    using levenshteinDistance_same[of "trim (toLowerCase title2)"]
    by (simp add: levenshteinDistance_editDistance)
  then show ?thesis
    by (simp add: calculateSimilarity_def titleSimilarity_def Let_def
          levenshteinDistance_editDistance)
qed

lemma isDuplicate_conditions:
  "isDuplicate a b \<longleftrightarrow>
     \<bar>line a - line b\<bar> \<le> 1
     \<and> normalizeOwaspCategory (owaspCategory a) = normalizeOwaspCategory (owaspCategory b)
     \<and> titleSimilarity (title a) (title b) \<ge> 7 / 10"
  by (auto simp: isDuplicate_def Let_def LINE_TOLERANCE_def FUZZY_MATCH_THRESHOLD_def
        calculateSimilarity_titleSimilarity)

lemma deduplicate_pair:
  "deduplicate [a, b] =
     (if isDuplicate a b then Some [the (mergeDuplicates [a, b])] else Some [a, b])"
  by (simp add: deduplicate_anchorPass)

text \<open>
  What \<^verbatim>\<open>normalizeOwaspCategory\<close> returns: the first code in the category, or the
  lower-cased, trimmed category when it holds no code.
\<close>

lemma matchesOwaspCode_isCategoryCode: "matchesOwaspCode cs \<longleftrightarrow> isCategoryCode (take 8 cs)"
  by (cases cs rule: matchesOwaspCode.cases)
     (simp_all add: isCategoryCode_def isDigit_def del: list.set)

lemma matchOwaspCode_None:
  "matchOwaspCode cat = None \<longleftrightarrow> (\<forall>j. \<not> isCategoryCode (take 8 (drop j cat)))"
proof (induction cat)
  case Nil
  show ?case by (simp add: isCategoryCode_def)
next
  case (Cons c cs)
  have split: "(\<forall>j. \<not> isCategoryCode (take 8 (drop j (c # cs))))
      \<longleftrightarrow> \<not> isCategoryCode (take 8 (c # cs)) \<and> (\<forall>j. \<not> isCategoryCode (take 8 (drop j cs)))"
  proof
    assume all: "\<forall>j. \<not> isCategoryCode (take 8 (drop j (c # cs)))"
    have "\<not> isCategoryCode (take 8 (c # cs))"
      using all[rule_format, of 0] by simp
    moreover have "\<forall>j. \<not> isCategoryCode (take 8 (drop j cs))"
    proof
      fix j
      show "\<not> isCategoryCode (take 8 (drop j cs))"
        using all[rule_format, of "Suc j"] by simp
    qed
    ultimately show "\<not> isCategoryCode (take 8 (c # cs)) \<and> (\<forall>j. \<not> isCategoryCode (take 8 (drop j cs)))"
      by simp
  next
    assume h: "\<not> isCategoryCode (take 8 (c # cs)) \<and> (\<forall>j. \<not> isCategoryCode (take 8 (drop j cs)))"
    show "\<forall>j. \<not> isCategoryCode (take 8 (drop j (c # cs)))"
    proof
      fix j
      show "\<not> isCategoryCode (take 8 (drop j (c # cs)))"
        using h by (cases j) simp_all
    qed
  qed
  show ?case
    unfolding split using Cons.IH
    by (simp add: matchesOwaspCode_isCategoryCode del: matchesOwaspCode.simps)
qed

lemma matchOwaspCode_Some:
  "matchOwaspCode cat = Some m \<Longrightarrow>
     \<exists>i. isCategoryCode (take 8 (drop i cat))
        \<and> (\<forall>j<i. \<not> isCategoryCode (take 8 (drop j cat)))
        \<and> m = take 8 (drop i cat)"
proof (induction cat)
  case Nil
  then show ?case by simp
next
  case (Cons c cs)
  show ?case
  proof (cases "matchesOwaspCode (c # cs)")
    case True
    then have "m = take 8 (c # cs)"
      using Cons.prems by (simp del: matchesOwaspCode.simps)
    moreover have "isCategoryCode (take 8 (drop 0 (c # cs)))"
      using True by (simp add: matchesOwaspCode_isCategoryCode del: matchesOwaspCode.simps)
    ultimately have "isCategoryCode (take 8 (drop 0 (c # cs)))
        \<and> (\<forall>j<0. \<not> isCategoryCode (take 8 (drop j (c # cs))))
        \<and> m = take 8 (drop 0 (c # cs))"
      by simp
    then show ?thesis by (rule exI)
  next
    case False
    then have "matchOwaspCode cs = Some m"
      using Cons.prems by (simp del: matchesOwaspCode.simps)
    then obtain i where i: "isCategoryCode (take 8 (drop i cs))"
        "\<forall>j<i. \<not> isCategoryCode (take 8 (drop j cs))" "m = take 8 (drop i cs)"
      using Cons.IH by blast
    have first: "\<not> isCategoryCode (take 8 (c # cs))"
      using False by (simp add: matchesOwaspCode_isCategoryCode del: matchesOwaspCode.simps)
    have "\<forall>j<Suc i. \<not> isCategoryCode (take 8 (drop j (c # cs)))"
    proof (intro allI impI)
      fix j
      assume "j < Suc i"
      then show "\<not> isCategoryCode (take 8 (drop j (c # cs)))"
        using first i(2) by (cases j) simp_all
    qed
    then have "isCategoryCode (take 8 (drop (Suc i) (c # cs)))
        \<and> (\<forall>j<Suc i. \<not> isCategoryCode (take 8 (drop j (c # cs))))
        \<and> m = take 8 (drop (Suc i) (c # cs))"
      using i(1,3) by simp
    then show ?thesis by (rule exI)
  qed
qed

lemma normalizeOwaspCategory_cases:
  "(\<exists>i. isCategoryCode (take 8 (drop i category))
        \<and> (\<forall>j<i. \<not> isCategoryCode (take 8 (drop j category)))
        \<and> normalizeOwaspCategory category = take 8 (drop i category))
   \<or> ((\<forall>j. \<not> isCategoryCode (take 8 (drop j category)))
        \<and> normalizeOwaspCategory category = trim (toLowerCase category))"
proof (cases "matchOwaspCode category")
  case None
  then show ?thesis
    using matchOwaspCode_None[of category] by (simp add: normalizeOwaspCategory_def)
next
  case (Some m)
  then show ?thesis
    using matchOwaspCode_Some[OF Some] by (simp add: normalizeOwaspCategory_def)
qed

lemma normalizeOwaspCategory_code:
  assumes "isCategoryCode c"
  shows "normalizeOwaspCategory (c @ suffix) = c"
proof -
  have len: "length c = 8"
    using assms by (auto simp: isCategoryCode_def split: list.splits)
  then obtain x xs where c: "c @ suffix = x # xs"
    by (cases "c @ suffix") auto
  have "matchesOwaspCode (c @ suffix)"
    using assms len by (simp add: matchesOwaspCode_isCategoryCode)
  then have "matchOwaspCode (c @ suffix) = Some (take 8 (c @ suffix))"
    unfolding c by (simp del: matchesOwaspCode.simps)
  then show ?thesis
    using len by (simp add: normalizeOwaspCategory_def)
qed

text \<open>
  Claim C7. Two findings are judged duplicates exactly when their lines differ by at most
  1, their categories are equal after normalization, and the similarity of their titles
  (\<open>titleSimilarity\<close>: one minus the edit distance over the greater length, on the
  lower-cased, trimmed titles; the distance that \<^verbatim>\<open>levenshteinDistance\<close> computes is
  the edit distance) is at least 7/10. The normalization reduces a category to its
  canonical code: it returns the first code the category holds, so a code followed by a
  descriptive suffix is reduced to the code, and a category that holds no code is
  lower-cased and trimmed. Hence, for two findings whose categories start with a code,
  the second condition is that the two codes are the same: findings with different codes
  are never duplicates. Two duplicates on lines 10 and 11 are merged into one finding;
  two findings on lines 10 and 13 are both kept, as they are.
\<close>

theorem isDuplicate_three_conditions:
  "(isDuplicate a b \<longleftrightarrow>
      \<bar>line a - line b\<bar> \<le> 1
      \<and> normalizeOwaspCategory (owaspCategory a) = normalizeOwaspCategory (owaspCategory b)
      \<and> titleSimilarity (title a) (title b) \<ge> 7 / 10)
   \<and> ((\<exists>i. isCategoryCode (take 8 (drop i category))
          \<and> (\<forall>j<i. \<not> isCategoryCode (take 8 (drop j category)))
          \<and> normalizeOwaspCategory category = take 8 (drop i category))
       \<or> ((\<forall>j. \<not> isCategoryCode (take 8 (drop j category)))
          \<and> normalizeOwaspCategory category = trim (toLowerCase category)))
   \<and> (isCategoryCode code \<longrightarrow> normalizeOwaspCategory (code @ suffix) = code)
   \<and> (isCategoryCode codeA \<and> isCategoryCode codeB
        \<and> owaspCategory a = codeA @ suffixA \<and> owaspCategory b = codeB @ suffixB
        \<longrightarrow> (isDuplicate a b \<longleftrightarrow>
               \<bar>line a - line b\<bar> \<le> 1 \<and> codeA = codeB
               \<and> titleSimilarity (title a) (title b) \<ge> 7 / 10))
   \<and> (line a = 10 \<and> line b = 11
        \<and> normalizeOwaspCategory (owaspCategory a) = normalizeOwaspCategory (owaspCategory b)
        \<and> titleSimilarity (title a) (title b) \<ge> 7 / 10
        \<longrightarrow> (\<exists>m. deduplicate [a, b] = Some [m]))
   \<and> (line a = 10 \<and> line b = 13 \<longrightarrow> deduplicate [a, b] = Some [a, b])"
proof (intro conjI impI)
  show "isDuplicate a b \<longleftrightarrow>
      \<bar>line a - line b\<bar> \<le> 1
      \<and> normalizeOwaspCategory (owaspCategory a) = normalizeOwaspCategory (owaspCategory b)
      \<and> titleSimilarity (title a) (title b) \<ge> 7 / 10"
    by (rule isDuplicate_conditions)
next
  show "(\<exists>i. isCategoryCode (take 8 (drop i category))
          \<and> (\<forall>j<i. \<not> isCategoryCode (take 8 (drop j category)))
          \<and> normalizeOwaspCategory category = take 8 (drop i category))
       \<or> ((\<forall>j. \<not> isCategoryCode (take 8 (drop j category)))
          \<and> normalizeOwaspCategory category = trim (toLowerCase category))"
    by (rule normalizeOwaspCategory_cases)
next
  assume "isCategoryCode code"
  then show "normalizeOwaspCategory (code @ suffix) = code"
    by (rule normalizeOwaspCategory_code)
next
  assume h: "isCategoryCode codeA \<and> isCategoryCode codeB
        \<and> owaspCategory a = codeA @ suffixA \<and> owaspCategory b = codeB @ suffixB"
  have "normalizeOwaspCategory (owaspCategory a) = codeA"
    using h by (simp add: normalizeOwaspCategory_code)
  moreover have "normalizeOwaspCategory (owaspCategory b) = codeB"
    using h by (simp add: normalizeOwaspCategory_code)
  ultimately show "isDuplicate a b \<longleftrightarrow>
               \<bar>line a - line b\<bar> \<le> 1 \<and> codeA = codeB
               \<and> titleSimilarity (title a) (title b) \<ge> 7 / 10"
    by (simp add: isDuplicate_conditions)
next
  assume "line a = 10 \<and> line b = 11
        \<and> normalizeOwaspCategory (owaspCategory a) = normalizeOwaspCategory (owaspCategory b)
        \<and> titleSimilarity (title a) (title b) \<ge> 7 / 10"
  then have "isDuplicate a b"
    by (simp add: isDuplicate_conditions)
  then show "\<exists>m. deduplicate [a, b] = Some [m]"
    by (simp add: deduplicate_pair)
next
  assume "line a = 10 \<and> line b = 13"
  then have "\<not> isDuplicate a b"
    by (simp add: isDuplicate_conditions)
  then show "deduplicate [a, b] = Some [a, b]"
    by (simp add: deduplicate_pair)
qed

text \<open>
  The findings of the examples: a static one on line 10 in the category
  \<^verbatim>\<open>A03:2021\<close>; one of the LLM analyzer on line 11 in
  \<^verbatim>\<open>A03:2021 - Injection\<close>, whose title differs by case, white space and one
  character, a duplicate of the first; one on line 13, no duplicate of the first; and
  one on line 10 with the title of the first in the category
  \<^verbatim>\<open>A02:2021 - Cryptographic Failures\<close>, no duplicate of the first either.
\<close>

theorem isDuplicate_three_conditions_witness:
  "(line (finding ''1'' ''XSS1'' ''A03:2021'' 10 Static) = 10
     \<and> line (finding ''2'' '' xss2 '' ''A03:2021 - Injection'' 11 Llm) = 11
     \<and> normalizeOwaspCategory (owaspCategory (finding ''1'' ''XSS1'' ''A03:2021'' 10 Static))
         = normalizeOwaspCategory
             (owaspCategory (finding ''2'' '' xss2 '' ''A03:2021 - Injection'' 11 Llm))
     \<and> titleSimilarity (title (finding ''1'' ''XSS1'' ''A03:2021'' 10 Static))
           (title (finding ''2'' '' xss2 '' ''A03:2021 - Injection'' 11 Llm)) \<ge> 7 / 10)
   \<and> isDuplicate (finding ''1'' ''XSS1'' ''A03:2021'' 10 Static)
         (finding ''2'' '' xss2 '' ''A03:2021 - Injection'' 11 Llm)
   \<and> (\<exists>m. deduplicate [finding ''1'' ''XSS1'' ''A03:2021'' 10 Static,
                          finding ''2'' '' xss2 '' ''A03:2021 - Injection'' 11 Llm] = Some [m])
   \<and> (line (finding ''1'' ''XSS1'' ''A03:2021'' 10 Static) = 10
        \<and> line (finding ''3'' ''XSS1'' ''A03:2021'' 13 Llm) = 13)
   \<and> deduplicate [finding ''1'' ''XSS1'' ''A03:2021'' 10 Static,
                   finding ''3'' ''XSS1'' ''A03:2021'' 13 Llm]
       = Some [finding ''1'' ''XSS1'' ''A03:2021'' 10 Static,
               finding ''3'' ''XSS1'' ''A03:2021'' 13 Llm]
   \<and> isCategoryCode ''A03:2021'' \<and> isCategoryCode ''A02:2021''
   \<and> normalizeOwaspCategory ''A03:2021 - Injection'' = ''A03:2021''
   \<and> normalizeOwaspCategory ''A02:2021 - Cryptographic Failures'' = ''A02:2021''
   \<and> normalizeOwaspCategory '' Injection '' = ''injection''
   \<and> \<not> isDuplicate (finding ''1'' ''XSS1'' ''A03:2021'' 10 Static)
         (finding ''4'' ''XSS1'' ''A02:2021 - Cryptographic Failures'' 10 Llm)
   \<and> deduplicate [finding ''1'' ''XSS1'' ''A03:2021'' 10 Static,
                   finding ''4'' ''XSS1'' ''A02:2021 - Cryptographic Failures'' 10 Llm]
       = Some [finding ''1'' ''XSS1'' ''A03:2021'' 10 Static,
               finding ''4'' ''XSS1'' ''A02:2021 - Cryptographic Failures'' 10 Llm]"
proof -
  let ?a = "finding ''1'' ''XSS1'' ''A03:2021'' 10 Static"
  let ?b = "finding ''2'' '' xss2 '' ''A03:2021 - Injection'' 11 Llm"
  let ?c = "finding ''3'' ''XSS1'' ''A03:2021'' 13 Llm"
  let ?d = "finding ''4'' ''XSS1'' ''A02:2021 - Cryptographic Failures'' 10 Llm"
  have c3: "isCategoryCode ''A03:2021''" and c2: "isCategoryCode ''A02:2021''"
    by (simp_all add: isCategoryCode_def)
  have n3: "normalizeOwaspCategory ''A03:2021 - Injection'' = ''A03:2021''"
    using isDuplicate_three_conditions[where code = "''A03:2021''"
        and suffix = "'' - Injection''", THEN conjunct2, THEN conjunct2, THEN conjunct1,
        THEN mp, OF c3]
    by simp
  have n2: "normalizeOwaspCategory ''A02:2021 - Cryptographic Failures'' = ''A02:2021''"
    using isDuplicate_three_conditions[where code = "''A02:2021''"
        and suffix = "'' - Cryptographic Failures''", THEN conjunct2, THEN conjunct2,
        THEN conjunct1, THEN mp, OF c2]
    by simp
  have n0: "normalizeOwaspCategory '' Injection '' = ''injection''"
    by (simp add: string_eval)
  have cat: "normalizeOwaspCategory (owaspCategory ?a) = normalizeOwaspCategory (owaspCategory ?b)"
    by (simp add: finding_def string_eval)
  have sim: "titleSimilarity (title ?a) (title ?b) = 3 / 4"
    by (simp add: finding_def string_eval titleSimilarity_def editDistance_def Let_def)
  have h1: "line ?a = 10 \<and> line ?b = 11
     \<and> normalizeOwaspCategory (owaspCategory ?a) = normalizeOwaspCategory (owaspCategory ?b)
     \<and> titleSimilarity (title ?a) (title ?b) \<ge> 7 / 10"
    using cat sim by (simp add: finding_def)
  have h2: "line ?a = 10 \<and> line ?c = 13"
    by (simp add: finding_def)
  have dup: "isDuplicate ?a ?b"
    unfolding isDuplicate_three_conditions[where a = ?a and b = ?b, THEN conjunct1]
    using h1 by simp
  have merged: "\<exists>m. deduplicate [?a, ?b] = Some [m]"
    by (rule isDuplicate_three_conditions[where a = ?a and b = ?b, THEN conjunct2,
          THEN conjunct2, THEN conjunct2, THEN conjunct2, THEN conjunct1, THEN mp, OF h1])
  have kept: "deduplicate [?a, ?c] = Some [?a, ?c]"
    by (rule isDuplicate_three_conditions[where a = ?a and b = ?c, THEN conjunct2,
          THEN conjunct2, THEN conjunct2, THEN conjunct2, THEN conjunct2, THEN mp, OF h2])
  have h3: "isCategoryCode ''A03:2021'' \<and> isCategoryCode ''A02:2021''
        \<and> owaspCategory ?a = ''A03:2021'' @ []
        \<and> owaspCategory ?d = ''A02:2021'' @ '' - Cryptographic Failures''"
    using c3 c2 by (simp add: finding_def)
  have "isDuplicate ?a ?d \<longleftrightarrow>
          \<bar>line ?a - line ?d\<bar> \<le> 1 \<and> ''A03:2021'' = ''A02:2021''
          \<and> titleSimilarity (title ?a) (title ?d) \<ge> 7 / 10"
    by (rule isDuplicate_three_conditions[where a = ?a and b = ?d
          and codeA = "''A03:2021''" and codeB = "''A02:2021''" and suffixA = "[]"
          and suffixB = "'' - Cryptographic Failures''", THEN conjunct2, THEN conjunct2,
          THEN conjunct2, THEN conjunct1, THEN mp, OF h3])
  then have nodup: "\<not> isDuplicate ?a ?d"
    by simp
  have keep: "deduplicate [?a, ?d] = Some [?a, ?d]"
    using nodup by (simp add: deduplicate_pair)
  show ?thesis
    by (intro conjI h1[THEN conjunct1] h1[THEN conjunct2, THEN conjunct1]
          h1[THEN conjunct2, THEN conjunct2, THEN conjunct1]
          h1[THEN conjunct2, THEN conjunct2, THEN conjunct2]
          dup merged h2[THEN conjunct1] h2[THEN conjunct2] kept c3 c2 n3 n2 n0 nodup keep)
qed

section \<open>The Formatter: ordering\<close>

text \<open>The table of the Formatter gives each severity its rank.\<close>

lemma severityOrder_severityRank: "severityOrder s = int (severityRank s)"
  by (cases s) (simp_all add: severityRank_def severitiesByRank_def)

lemma severityRank_inject: "severityRank s = severityRank s' \<longleftrightarrow> s = s'"
  by (cases s; cases s') (simp_all add: severityRank_def severitiesByRank_def)

lemma compareIssues_le:
  "compareIssues a b \<le> 0 \<longleftrightarrow> keyLessEq (sortKey a) (sortKey b)"
  by (auto simp: compareIssues_def keyLessEq_def sortKey_def Let_def severityOrder_severityRank)

lemma keyLessEq_total: "keyLessEq k k' \<or> keyLessEq k' k"
  by (auto simp: keyLessEq_def)

lemma keyLessEq_trans: "keyLessEq k k' \<Longrightarrow> keyLessEq k' k'' \<Longrightarrow> keyLessEq k k''"
  by (auto simp: keyLessEq_def)

lemma keyLessEq_refl: "keyLessEq k k"
  by (simp add: keyLessEq_def)

lemma set_insertByComparator: "set (insertByComparator cmp x ys) = insert x (set ys)"
  by (induction ys) auto

lemma sorted_insertByComparator:
  "sorted_wrt (\<lambda>a b. keyLessEq (sortKey a) (sortKey b)) ys \<Longrightarrow>
   sorted_wrt (\<lambda>a b. keyLessEq (sortKey a) (sortKey b)) (insertByComparator compareIssues x ys)"
proof (induction ys)
  case Nil
  then show ?case by simp
next
  case (Cons y ys)
  show ?case
  proof (cases "compareIssues x y \<le> 0")
    case True
    then have xy: "keyLessEq (sortKey x) (sortKey y)"
      by (simp add: compareIssues_le)
    have "\<forall>z\<in>set ys. keyLessEq (sortKey x) (sortKey z)"
      using Cons.prems xy keyLessEq_trans by auto
    then show ?thesis
      using True xy Cons.prems by simp
  next
    case False
    then have "keyLessEq (sortKey y) (sortKey x)"
      using keyLessEq_total[of "sortKey x" "sortKey y"] by (simp add: compareIssues_le)
    then show ?thesis
      using False Cons by (auto simp: set_insertByComparator)
  qed
qed

lemma sorted_sortIssues:
  "sorted_wrt (\<lambda>a b. keyLessEq (sortKey a) (sortKey b)) (sortIssues xs)"
  unfolding sortIssues_def arraySort_def
  by (induction xs) (simp_all add: sorted_insertByComparator)

lemma filter_insertByComparator:
  "filter (\<lambda>z. sortKey z = k) (insertByComparator compareIssues x ys)
     = (if sortKey x = k then x # filter (\<lambda>z. sortKey z = k) ys
        else filter (\<lambda>z. sortKey z = k) ys)"
proof (induction ys)
  case Nil
  then show ?case by simp
next
  case (Cons y ys)
  show ?case
  proof (cases "compareIssues x y \<le> 0")
    case True
    then show ?thesis by simp
  next
    case False
    then have "sortKey y \<noteq> sortKey x"
      using keyLessEq_refl[of "sortKey x"] by (auto simp: compareIssues_le)
    then show ?thesis
      using False Cons.IH by auto
  qed
qed

lemma filter_sortIssues:
  "filter (\<lambda>z. sortKey z = k) (sortIssues xs) = filter (\<lambda>z. sortKey z = k) xs"
  unfolding sortIssues_def arraySort_def
  by (induction xs) (simp_all add: filter_insertByComparator)

lemma mset_insertByComparator: "mset (insertByComparator cmp x ys) = add_mset x (mset ys)"
  by (induction ys) auto

lemma mset_sortIssues: "mset (sortIssues xs) = mset xs"
  unfolding sortIssues_def arraySort_def
  by (induction xs) (simp_all add: mset_insertByComparator)

lemma sortKey_validateIssue: "sortKey (validateIssue x) = sortKey x"
  by (simp add: sortKey_def validateIssue_def orZero_def)

lemma issues_format:
  "issues (format idClock isoNow xs md)
     = map validateIssue (sortIssues (ensureUniqueIds idClock xs))"
  by (simp add: format_def Let_def validateIssues_def)

text \<open>
  Claim C6. The issues that \<^verbatim>\<open>format\<close> returns are ordered by severity rank and
  then by line, where the rank is the place in the order Critical, High, Medium, Low,
  Info: of two issues, the one that comes first has the smaller rank, or the same rank and
  no greater line. They are the input findings, with identifiers and defaults filled in,
  each the same number of times and with the severity and the line it had in the input;
  and the findings that share severity and line come in the order they had in the input.
\<close>

theorem format_sorted_stable:
  "map severityRank [CRITICAL, HIGH, MEDIUM, LOW, INFO] = [0, 1, 2, 3, 4]
   \<and> sorted_wrt
        (\<lambda>a b. severityRank (severity a) < severityRank (severity b)
              \<or> (severity a = severity b \<and> line a \<le> line b))
        (issues (format idClock isoNow xs md))
   \<and> sorted_wrt (\<lambda>a b. keyLessEq (sortKey a) (sortKey b)) (issues (format idClock isoNow xs md))
   \<and> (\<forall>s l. filter (\<lambda>z. severity z = s \<and> line z = l) (issues (format idClock isoNow xs md))
          = filter (\<lambda>z. severity z = s \<and> line z = l)
              (map validateIssue (ensureUniqueIds idClock xs)))
   \<and> (\<forall>k. filter (\<lambda>z. sortKey z = k) (issues (format idClock isoNow xs md))
          = filter (\<lambda>z. sortKey z = k) (map validateIssue (ensureUniqueIds idClock xs)))
   \<and> mset (issues (format idClock isoNow xs md))
       = mset (map validateIssue (ensureUniqueIds idClock xs))
   \<and> map sortKey (map validateIssue (ensureUniqueIds idClock xs)) = map sortKey xs
   \<and> map severity (map validateIssue (ensureUniqueIds idClock xs)) = map severity xs
   \<and> map line (map validateIssue (ensureUniqueIds idClock xs)) = map line xs"
proof (intro conjI allI)
  show "map severityRank [CRITICAL, HIGH, MEDIUM, LOW, INFO] = [0, 1, 2, 3, 4]"
    by (simp add: severityRank_def severitiesByRank_def)
next
  show k: "sorted_wrt (\<lambda>a b. keyLessEq (sortKey a) (sortKey b)) (issues (format idClock isoNow xs md))"
    using sorted_sortIssues[of "ensureUniqueIds idClock xs"]
    by (simp add: issues_format sorted_wrt_map sortKey_validateIssue)
  show "sorted_wrt
        (\<lambda>a b. severityRank (severity a) < severityRank (severity b)
              \<or> (severity a = severity b \<and> line a \<le> line b))
        (issues (format idClock isoNow xs md))"
    by (rule sorted_wrt_mono_rel[OF _ k])
       (auto simp: keyLessEq_def sortKey_def severityRank_inject)
next
  fix k
  show "filter (\<lambda>z. sortKey z = k) (issues (format idClock isoNow xs md))
          = filter (\<lambda>z. sortKey z = k) (map validateIssue (ensureUniqueIds idClock xs))"
    by (simp add: issues_format filter_map o_def sortKey_validateIssue filter_sortIssues)
next
  fix s l
  have "filter (\<lambda>z. sortKey z = (int (severityRank s), l)) (issues (format idClock isoNow xs md))
          = filter (\<lambda>z. sortKey z = (int (severityRank s), l))
              (map validateIssue (ensureUniqueIds idClock xs))"
    by (simp add: issues_format filter_map o_def sortKey_validateIssue filter_sortIssues)
  moreover have "\<And>z. sortKey z = (int (severityRank s), l) \<longleftrightarrow> severity z = s \<and> line z = l"
    by (auto simp: sortKey_def severityRank_inject)
  ultimately show "filter (\<lambda>z. severity z = s \<and> line z = l) (issues (format idClock isoNow xs md))
          = filter (\<lambda>z. severity z = s \<and> line z = l)
              (map validateIssue (ensureUniqueIds idClock xs))"
    by simp
next
  show "mset (issues (format idClock isoNow xs md))
       = mset (map validateIssue (ensureUniqueIds idClock xs))"
    by (simp add: issues_format mset_sortIssues)
next
  have "map sortKey (ensureUniqueIds idClock xs) = map (sortKey \<circ> snd) (enumerate 0 xs)"
    unfolding ensureUniqueIds_def map_map
    by (rule map_cong) (auto simp: sortKey_def)
  also have "\<dots> = map sortKey (map snd (enumerate 0 xs))"
    by (simp only: map_map)
  also have "\<dots> = map sortKey xs"
    by (simp only: map_snd_enumerate)
  finally show "map sortKey (map validateIssue (ensureUniqueIds idClock xs)) = map sortKey xs"
    by (simp add: o_def sortKey_validateIssue)
next
  have "map severity (ensureUniqueIds idClock xs) = map (severity \<circ> snd) (enumerate 0 xs)"
    unfolding ensureUniqueIds_def map_map
    by (rule map_cong) auto
  also have "\<dots> = map severity (map snd (enumerate 0 xs))"
    by (simp only: map_map)
  also have "\<dots> = map severity xs"
    by (simp only: map_snd_enumerate)
  finally show "map severity (map validateIssue (ensureUniqueIds idClock xs)) = map severity xs"
    by (simp add: o_def validateIssue_def)
next
  have "map line (ensureUniqueIds idClock xs) = map (line \<circ> snd) (enumerate 0 xs)"
    unfolding ensureUniqueIds_def map_map
    by (rule map_cong) auto
  also have "\<dots> = map line (map snd (enumerate 0 xs))"
    by (simp only: map_map)
  also have "\<dots> = map line xs"
    by (simp only: map_snd_enumerate)
  finally show "map line (map validateIssue (ensureUniqueIds idClock xs)) = map line xs"
    by (simp add: o_def validateIssue_def orZero_def)
qed

text \<open>
  Seven findings, one of each severity and two pairs that share severity and line: the
  Critical ones come first, then High, Medium, Low and Info; within Low the line decides;
  and each pair keeps its input order.
\<close>

theorem format_sorted_stable_witness:
  "map (\<lambda>z. (id_field z, severity z, line z))
     (issues (format (\<lambda>i. 0) ''now''
        [(finding ''a'' ''T'' ''A03:2021'' 9 Static)\<lparr>severity := LOW\<rparr>,
         (finding ''b'' ''T'' ''A03:2021'' 7 Static)\<lparr>severity := CRITICAL\<rparr>,
         (finding ''c'' ''T'' ''A03:2021'' 1 Static)\<lparr>severity := INFO\<rparr>,
         finding ''d'' ''T'' ''A03:2021'' 4 Llm,
         (finding ''e'' ''T'' ''A03:2021'' 7 Llm)\<lparr>severity := CRITICAL\<rparr>,
         (finding ''f'' ''T'' ''A03:2021'' 2 Static)\<lparr>severity := LOW\<rparr>,
         (finding ''g'' ''T'' ''A03:2021'' 3 Static)\<lparr>severity := MEDIUM\<rparr>,
         (finding ''h'' ''T'' ''A03:2021'' 9 Llm)\<lparr>severity := LOW\<rparr>] exampleMetadata))
   = [(''b'', CRITICAL, 7), (''e'', CRITICAL, 7), (''d'', HIGH, 4), (''g'', MEDIUM, 3),
      (''f'', LOW, 2), (''a'', LOW, 9), (''h'', LOW, 9), (''c'', INFO, 1)]
   \<and> sorted_wrt
        (\<lambda>a b. severityRank (severity a) < severityRank (severity b)
              \<or> (severity a = severity b \<and> line a \<le> line b))
        (issues (format (\<lambda>i. 0) ''now''
        [(finding ''a'' ''T'' ''A03:2021'' 9 Static)\<lparr>severity := LOW\<rparr>,
         (finding ''b'' ''T'' ''A03:2021'' 7 Static)\<lparr>severity := CRITICAL\<rparr>,
         (finding ''c'' ''T'' ''A03:2021'' 1 Static)\<lparr>severity := INFO\<rparr>,
         finding ''d'' ''T'' ''A03:2021'' 4 Llm,
         (finding ''e'' ''T'' ''A03:2021'' 7 Llm)\<lparr>severity := CRITICAL\<rparr>,
         (finding ''f'' ''T'' ''A03:2021'' 2 Static)\<lparr>severity := LOW\<rparr>,
         (finding ''g'' ''T'' ''A03:2021'' 3 Static)\<lparr>severity := MEDIUM\<rparr>,
         (finding ''h'' ''T'' ''A03:2021'' 9 Llm)\<lparr>severity := LOW\<rparr>] exampleMetadata))"
proof -
  let ?xs = "[(finding ''a'' ''T'' ''A03:2021'' 9 Static)\<lparr>severity := LOW\<rparr>,
         (finding ''b'' ''T'' ''A03:2021'' 7 Static)\<lparr>severity := CRITICAL\<rparr>,
         (finding ''c'' ''T'' ''A03:2021'' 1 Static)\<lparr>severity := INFO\<rparr>,
         finding ''d'' ''T'' ''A03:2021'' 4 Llm,
         (finding ''e'' ''T'' ''A03:2021'' 7 Llm)\<lparr>severity := CRITICAL\<rparr>,
         (finding ''f'' ''T'' ''A03:2021'' 2 Static)\<lparr>severity := LOW\<rparr>,
         (finding ''g'' ''T'' ''A03:2021'' 3 Static)\<lparr>severity := MEDIUM\<rparr>,
         (finding ''h'' ''T'' ''A03:2021'' 9 Llm)\<lparr>severity := LOW\<rparr>]"
  have order: "map (\<lambda>z. (id_field z, severity z, line z))
      (issues (format (\<lambda>i. 0) ''now'' ?xs exampleMetadata))
    = [(''b'', CRITICAL, 7), (''e'', CRITICAL, 7), (''d'', HIGH, 4), (''g'', MEDIUM, 3),
       (''f'', LOW, 2), (''a'', LOW, 9), (''h'', LOW, 9), (''c'', INFO, 1)]"
    by (simp add: issues_format ensureUniqueIds_def enumerate_eq_zip finding_def trim_def
          isWhiteSpace_def sortIssues_def arraySort_def compareIssues_def validateIssue_def
          orDefault_def orZero_def)
  show ?thesis
    using format_sorted_stable[of "\<lambda>i. 0" "''now''" ?xs exampleMetadata] order
    by simp
qed

section \<open>Idempotence of the Deduplicator\<close>

lemma dp_symmetric: "dp s t i j = dp t s j i"
proof (induction s t i j rule: dp.induct)
  case (1 str1 str2 j)
  then show ?case by (cases j) simp_all
next
  case (2 str1 str2 i)
  then show ?case by simp
next
  case (3 str1 str2 i j)
  then show ?case by (auto simp: min.commute min.left_commute)
qed

lemma levenshteinDistance_symmetric: "levenshteinDistance s t = levenshteinDistance t s"
  by (simp add: levenshteinDistance_def dp_symmetric[of s t])

lemma calculateSimilarity_symmetric: "calculateSimilarity s t = calculateSimilarity t s"
  by (simp add: calculateSimilarity_def Let_def levenshteinDistance_symmetric[of "trim (toLowerCase s)"]
        max.commute eq_commute[of "trim (toLowerCase s)"])

lemma isDuplicate_symmetric: "isDuplicate a b = isDuplicate b a"
  by (simp add: isDuplicate_def Let_def calculateSimilarity_symmetric[of "title a"]
        abs_minus_commute[of "line a"] eq_commute[of "normalizeOwaspCategory (owaspCategory a)"])

text \<open>The duplicate predicate reads the key of each finding and nothing else.\<close>

lemma isDuplicate_duplicateKey:
  "duplicateKey a = duplicateKey a' \<Longrightarrow> duplicateKey b = duplicateKey b' \<Longrightarrow>
     isDuplicate a b = isDuplicate a' b'"
  by (simp add: duplicateKey_def isDuplicate_def calculateSimilarity_def)

text \<open>The clusters of the loop are those of the pass read on the list.\<close>

lemma clusterLoop_clusterPass:
  "map (map (\<lambda>k. issueList ! k)) (clusterLoop issueList i P found)
     = map (map (\<lambda>k. issueList ! k)) found @ clusterPass (unprocessed issueList i P)"
proof (induction issueList i P found rule: clusterLoop.induct)
  case (1 issueList i P found)
  show ?case
  proof (cases "i < length issueList")
    case False
    then show ?thesis by (simp add: clusterLoop_done unprocessed_def)
  next
    case True
    note il = True
    have upt: "[i..<length issueList] = i # [i + 1..<length issueList]"
      using il by (simp add: upt_conv_Cons)
    show ?thesis
    proof (cases "i \<in> P")
      case True
      then show ?thesis
        using il "1.IH"(1) by (simp add: clusterLoop_skip upt unprocessed_def)
    next
      case False
      note iP = False
      let ?c = "issueList ! i"
      let ?D = "filter (\<lambda>k. k \<notin> P \<and> isDuplicate ?c (issueList ! k)) [i + 1..<length issueList]"
      let ?P' = "P \<union> set ?D"
      have fd: "findDuplicates issueList ?c (i + 1) P [i] = ([i] @ ?D, ?P')"
        by (rule findDuplicates_eq)
      have rest: "unprocessed issueList i P = ?c # unprocessed issueList (i + 1) P"
        using iP by (simp add: unprocessed_def upt)
      have dups: "map (\<lambda>idx. issueList ! idx) ([i] @ ?D)
                  = ?c # filter (isDuplicate ?c) (unprocessed issueList (i + 1) P)"
        by (simp add: unprocessed_def filter_map o_def)
      have "filter (\<lambda>k. k \<notin> insert i ?P') [i + 1..<length issueList]
            = filter (\<lambda>k. \<not> isDuplicate ?c (issueList ! k)) (filter (\<lambda>k. k \<notin> P) [i + 1..<length issueList])"
        unfolding filter_filter by (rule filter_cong) auto
      then have next_rest: "unprocessed issueList (i + 1) (insert i ?P')
                  = filter (\<lambda>y. \<not> isDuplicate ?c y) (unprocessed issueList (i + 1) P)"
        by (simp add: unprocessed_def filter_map o_def)
      have "map (map (\<lambda>k. issueList ! k)) (clusterLoop issueList i P found)
            = map (map (\<lambda>k. issueList ! k))
                (clusterLoop issueList (i + 1) (insert i ?P') (found @ [[i] @ ?D]))"
        by (simp only: clusterLoop_step[OF il iP fd])
      also have "\<dots> = map (map (\<lambda>k. issueList ! k)) (found @ [[i] @ ?D])
            @ clusterPass (unprocessed issueList (i + 1) (insert i ?P'))"
        by (rule "1.IH"(2)[OF il iP fd[symmetric]])
      also have "\<dots> = map (map (\<lambda>k. issueList ! k)) found
            @ (?c # filter (isDuplicate ?c) (unprocessed issueList (i + 1) P))
              # clusterPass (filter (\<lambda>y. \<not> isDuplicate ?c y) (unprocessed issueList (i + 1) P))"
        unfolding next_rest using dups by simp
      finally show ?thesis
        unfolding rest by simp
    qed
  qed
qed

lemma clusterFindings_clusterPass: "clusterFindings xs = clusterPass xs"
proof -
  have "unprocessed xs 0 {} = xs"
    by (simp add: unprocessed_def map_nth)
  then show ?thesis
    using clusterLoop_clusterPass[of xs 0 "{}" "[]"]
    by (simp add: clusterFindings_def clusterIndices_def)
qed

lemma clusterPass_members:
  "\<forall>c\<in>set (clusterPass xs). c \<noteq> [] \<and> set c \<subseteq> set xs"
proof (induction xs rule: clusterPass.induct)
  case 1
  then show ?case by simp
next
  case (2 x xs)
  then show ?case by auto
qed

lemma anchorPass_clusterPass:
  "anchorPass xs = map (\<lambda>c. the (mergeDuplicates c)) (clusterPass xs)"
  by (induction xs rule: anchorPass.induct) simp_all

text \<open>The anchors of the clusters are no duplicates of each other.\<close>

lemma clusterPass_anchors:
  "sorted_wrt (\<lambda>c d. \<not> isDuplicate (hd c) (hd d)) (clusterPass xs)"
proof (induction xs rule: clusterPass.induct)
  case 1
  then show ?case by simp
next
  case (2 x xs)
  let ?rest = "filter (\<lambda>y. \<not> isDuplicate x y) xs"
  have "\<forall>d\<in>set (clusterPass ?rest). \<not> isDuplicate x (hd d)"
  proof
    fix d assume d: "d \<in> set (clusterPass ?rest)"
    then have "d \<noteq> []" and "set d \<subseteq> set ?rest"
      using clusterPass_members[of ?rest] by auto
    then have "hd d \<in> set ?rest"
      by (cases d) auto
    then show "\<not> isDuplicate x (hd d)"
      by simp
  qed
  then show ?case
    using "2.IH" by simp
qed

text \<open>A merge has the key of the base record of its cluster.\<close>

lemma mergeDuplicates_duplicateKey:
  assumes "ds \<noteq> []"
  shows "\<exists>m. mergeDuplicates ds = Some m \<and> duplicateKey m = duplicateKey (baseRecord ds)"
proof (cases ds)
  case Nil
  then show ?thesis using assms by simp
next
  case (Cons d es)
  note ds = Cons
  show ?thesis
  proof (cases es)
    case Nil
    then show ?thesis
      using ds by (simp add: baseRecord_def)
  next
    case (Cons e fs)
    have hd: "hd (d # e # fs) = d" by simp
    show ?thesis
      unfolding ds Cons mergeDuplicates_many baseRecord_def hd
      by (simp add: duplicateKey_def del: find.simps foldl.simps set_simps list.map)
  qed
qed

lemma anchorPass_duplicateKey:
  "map duplicateKey (anchorPass xs) = map (\<lambda>c. duplicateKey (baseRecord c)) (clusterPass xs)"
proof -
  have "\<And>c. c \<in> set (clusterPass xs) \<Longrightarrow>
          duplicateKey (the (mergeDuplicates c)) = duplicateKey (baseRecord c)"
  proof -
    fix c assume "c \<in> set (clusterPass xs)"
    then have "c \<noteq> []"
      using clusterPass_members[of xs] by auto
    from mergeDuplicates_duplicateKey[OF this]
    show "duplicateKey (the (mergeDuplicates c)) = duplicateKey (baseRecord c)"
      by auto
  qed
  then show ?thesis
    unfolding anchorPass_clusterPass by simp
qed

text \<open>
  A second pass returns a list unchanged exactly when no later finding of the list is a
  duplicate of an earlier one.
\<close>

lemma length_anchorPass: "length (anchorPass xs) \<le> length xs"
proof (induction xs rule: anchorPass.induct)
  case 1
  then show ?case by simp
next
  case (2 x xs)
  have "length (anchorPass (filter (\<lambda>y. \<not> isDuplicate x y) xs))
      \<le> length (filter (\<lambda>y. \<not> isDuplicate x y) xs)"
    by (rule "2.IH")
  also have "\<dots> \<le> length xs"
    by (rule length_filter_le)
  finally show ?case
    by simp
qed

lemma anchorPass_fixed_point:
  "anchorPass ys = ys \<longleftrightarrow> sorted_wrt (\<lambda>a b. \<not> isDuplicate a b) ys"
proof (induction ys)
  case Nil
  then show ?case by simp
next
  case (Cons y ys)
  let ?rest = "filter (\<lambda>z. \<not> isDuplicate y z) ys"
  show ?case
  proof
    assume fixed: "anchorPass (y # ys) = y # ys"
    then have tail: "anchorPass ?rest = ys"
      by simp
    have "length ys \<le> length ?rest"
      using length_anchorPass[of ?rest] tail by simp
    then have all: "\<forall>z\<in>set ys. \<not> isDuplicate y z"
      using length_filter_less[of _ ys "\<lambda>z. \<not> isDuplicate y z"] by fastforce
    then have "?rest = ys"
      by (simp add: filter_id_conv)
    then have "anchorPass ys = ys"
      using tail by simp
    then show "sorted_wrt (\<lambda>a b. \<not> isDuplicate a b) (y # ys)"
      using Cons.IH all by simp
  next
    assume sorted: "sorted_wrt (\<lambda>a b. \<not> isDuplicate a b) (y # ys)"
    then have none: "\<forall>z\<in>set ys. \<not> isDuplicate y z" by simp
    then have "filter (isDuplicate y) ys = []" and "?rest = ys"
      by (simp_all add: filter_empty_conv filter_id_conv)
    then show "anchorPass (y # ys) = y # ys"
      using Cons.IH sorted by simp
  qed
qed

lemma noDuplicates_sorted_wrt:
  "noDuplicates ys \<longleftrightarrow> sorted_wrt (\<lambda>a b. \<not> isDuplicate a b) ys"
proof
  assume "noDuplicates ys"
  then show "sorted_wrt (\<lambda>a b. \<not> isDuplicate a b) ys"
    by (simp add: noDuplicates_def sorted_wrt_iff_nth_less)
next
  assume sorted: "sorted_wrt (\<lambda>a b. \<not> isDuplicate a b) ys"
  show "noDuplicates ys"
    unfolding noDuplicates_def
  proof (intro ballI impI)
    fix i j assume "i \<in> {0..<length ys}" "j \<in> {0..<length ys}" "i \<noteq> j"
    then have ij: "i < length ys" "j < length ys" "i \<noteq> j" by simp_all
    show "\<not> isDuplicate (ys ! i) (ys ! j)"
    proof (cases "i < j")
      case True
      then show ?thesis using sorted ij by (simp add: sorted_wrt_iff_nth_less)
    next
      case False
      then have "j < i" using ij by simp
      then have "\<not> isDuplicate (ys ! j) (ys ! i)"
        using sorted ij by (simp add: sorted_wrt_iff_nth_less)
      then show ?thesis by (simp add: isDuplicate_symmetric[of "ys ! i"])
    qed
  qed
qed

lemma noDuplicates_duplicateKey:
  assumes "map duplicateKey ys = map duplicateKey zs"
  shows "noDuplicates ys = noDuplicates zs"
proof -
  have len: "length ys = length zs"
    using assms by (rule map_eq_imp_length_eq)
  have key: "\<And>i. i < length ys \<Longrightarrow> duplicateKey (ys ! i) = duplicateKey (zs ! i)"
  proof -
    fix i assume i: "i < length ys"
    have "map duplicateKey ys ! i = map duplicateKey zs ! i"
      using assms by simp
    then show "duplicateKey (ys ! i) = duplicateKey (zs ! i)"
      using i len by simp
  qed
  have "\<And>i j. i < length ys \<Longrightarrow> j < length ys \<Longrightarrow>
          isDuplicate (ys ! i) (ys ! j) = isDuplicate (zs ! i) (zs ! j)"
    by (rule isDuplicate_duplicateKey) (simp_all add: key)
  then show ?thesis
    unfolding noDuplicates_def len[symmetric] by simp
qed

lemma baseRecord_anchor:
  assumes "c \<noteq> []" and "source (hd c) = Llm \<or> (\<forall>f\<in>set c. source f \<noteq> Llm)"
  shows "baseRecord c = hd c"
proof (cases c)
  case Nil
  then show ?thesis using assms by simp
next
  case (Cons x xs)
  show ?thesis
  proof (cases "source x = Llm")
    case True
    then show ?thesis by (simp add: Cons baseRecord_def)
  next
    case False
    then have "\<forall>f\<in>set c. source f \<noteq> Llm"
      using assms(2) Cons by simp
    then have "find (\<lambda>issue. source issue = Llm) c = None"
      by (simp add: find_None_iff)
    then show ?thesis by (simp add: baseRecord_def)
  qed
qed

lemma noDuplicates_anchored:
  assumes "\<forall>c\<in>set (clusterPass xs). duplicateKey (baseRecord c) = duplicateKey (hd c)"
  shows "noDuplicates (map baseRecord (clusterPass xs))"
proof -
  have "sorted_wrt (\<lambda>c d. \<not> isDuplicate (baseRecord c) (baseRecord d)) (clusterPass xs)"
  proof (rule sorted_wrt_mono_rel[OF _ clusterPass_anchors])
    fix c d assume "c \<in> set (clusterPass xs)" "d \<in> set (clusterPass xs)"
      and "\<not> isDuplicate (hd c) (hd d)"
    then show "\<not> isDuplicate (baseRecord c) (baseRecord d)"
      using assms isDuplicate_duplicateKey[of "baseRecord c" "hd c" "baseRecord d" "hd d"]
      by simp
  qed
  then show ?thesis
    by (simp add: noDuplicates_sorted_wrt sorted_wrt_map)
qed

text \<open>
  Claim C1, as amended. A second pass of \<^verbatim>\<open>deduplicate\<close> returns the output of the
  first unchanged exactly when no two findings of that output are duplicates of each
  other. Each finding of the output has the line, the normalized category and the
  normalized title of the base record of its cluster, so this is the case exactly when no
  two base records are duplicates of each other. It is the case whenever the base record
  of every cluster agrees with the anchor of the cluster in those three: so whenever
  every cluster either is anchored by a finding of source \<open>Llm\<close> or has no such member,
  so for every list without a finding of source \<open>Llm\<close>; and it is the case whenever the
  pass forms at most one cluster.
\<close>

theorem deduplicate_idempotent_iff:
  "\<exists>ys. deduplicate xs = Some ys
     \<and> map duplicateKey ys = map (\<lambda>c. duplicateKey (baseRecord c)) (clusterFindings xs)
     \<and> (deduplicate ys = Some ys \<longleftrightarrow> noDuplicates ys)
     \<and> (noDuplicates ys \<longleftrightarrow> noDuplicates (map baseRecord (clusterFindings xs)))
     \<and> ((\<forall>c\<in>set (clusterFindings xs). duplicateKey (baseRecord c) = duplicateKey (hd c))
          \<longrightarrow> deduplicate ys = Some ys \<and> noDuplicates ys)
     \<and> ((\<forall>c\<in>set (clusterFindings xs). source (hd c) = Llm \<or> (\<forall>f\<in>set c. source f \<noteq> Llm))
          \<longrightarrow> deduplicate ys = Some ys \<and> noDuplicates ys)
     \<and> ((\<forall>f\<in>set xs. source f \<noteq> Llm) \<longrightarrow> deduplicate ys = Some ys \<and> noDuplicates ys)
     \<and> (length (clusterFindings xs) \<le> 1 \<longrightarrow> deduplicate ys = Some ys \<and> noDuplicates ys)"
proof -
  let ?ys = "anchorPass xs"
  let ?cs = "clusterFindings xs"
  have cs: "?cs = clusterPass xs"
    by (rule clusterFindings_clusterPass)
  have first: "deduplicate xs = Some ?ys"
    by (rule deduplicate_anchorPass)
  have keys: "map duplicateKey ?ys = map (\<lambda>c. duplicateKey (baseRecord c)) ?cs"
    unfolding cs by (rule anchorPass_duplicateKey)
  have again: "deduplicate ?ys = Some ?ys \<longleftrightarrow> noDuplicates ?ys"
    by (simp add: deduplicate_anchorPass anchorPass_fixed_point noDuplicates_sorted_wrt)
  have "map duplicateKey ?ys = map duplicateKey (map baseRecord ?cs)"
    using keys by (simp add: o_def)
  then have bases: "noDuplicates ?ys \<longleftrightarrow> noDuplicates (map baseRecord ?cs)"
    by (rule noDuplicates_duplicateKey)
  have agree: "(\<forall>c\<in>set ?cs. duplicateKey (baseRecord c) = duplicateKey (hd c))
      \<longrightarrow> deduplicate ?ys = Some ?ys \<and> noDuplicates ?ys"
  proof
    assume "\<forall>c\<in>set ?cs. duplicateKey (baseRecord c) = duplicateKey (hd c)"
    then have "noDuplicates (map baseRecord (clusterPass xs))"
      unfolding cs by (rule noDuplicates_anchored)
    then have "noDuplicates ?ys"
      using bases cs by simp
    then show "deduplicate ?ys = Some ?ys \<and> noDuplicates ?ys"
      using again by simp
  qed
  have anchored: "(\<forall>c\<in>set ?cs. source (hd c) = Llm \<or> (\<forall>f\<in>set c. source f \<noteq> Llm))
      \<longrightarrow> deduplicate ?ys = Some ?ys \<and> noDuplicates ?ys"
  proof
    assume h: "\<forall>c\<in>set ?cs. source (hd c) = Llm \<or> (\<forall>f\<in>set c. source f \<noteq> Llm)"
    have "\<forall>c\<in>set ?cs. duplicateKey (baseRecord c) = duplicateKey (hd c)"
    proof
      fix c assume c: "c \<in> set ?cs"
      then have "c \<noteq> []"
        using clusterPass_members[of xs] cs by auto
      then have "baseRecord c = hd c"
        using h c by (intro baseRecord_anchor) auto
      then show "duplicateKey (baseRecord c) = duplicateKey (hd c)"
        by simp
    qed
    then show "deduplicate ?ys = Some ?ys \<and> noDuplicates ?ys"
      using agree by simp
  qed
  have nollm: "(\<forall>f\<in>set xs. source f \<noteq> Llm) \<longrightarrow> deduplicate ?ys = Some ?ys \<and> noDuplicates ?ys"
  proof
    assume h: "\<forall>f\<in>set xs. source f \<noteq> Llm"
    have "\<forall>c\<in>set ?cs. source (hd c) = Llm \<or> (\<forall>f\<in>set c. source f \<noteq> Llm)"
    proof
      fix c assume "c \<in> set ?cs"
      then have "set c \<subseteq> set xs"
        using clusterPass_members[of xs] cs by auto
      then show "source (hd c) = Llm \<or> (\<forall>f\<in>set c. source f \<noteq> Llm)"
        using h by auto
    qed
    then show "deduplicate ?ys = Some ?ys \<and> noDuplicates ?ys"
      using anchored by simp
  qed
  have single: "length ?cs \<le> 1 \<longrightarrow> deduplicate ?ys = Some ?ys \<and> noDuplicates ?ys"
  proof
    assume "length ?cs \<le> 1"
    then have "length (map baseRecord ?cs) \<le> 1"
      by simp
    then have "noDuplicates (map baseRecord ?cs)"
      unfolding noDuplicates_def by (auto simp: less_Suc_eq)
    then have "noDuplicates ?ys"
      using bases by simp
    then show "deduplicate ?ys = Some ?ys \<and> noDuplicates ?ys"
      using again by simp
  qed
  show ?thesis
    using first keys again bases agree anchored nollm single by blast
qed

lemmas finding_eval = finding_def isDuplicate_def calculateSimilarity_def LINE_TOLERANCE_def
  FUZZY_MATCH_THRESHOLD_def getHighestSeverity_def severityOrderList_def
  longerDescription_def longerFix_def

text \<open>
  Two lists with a finding of source \<open>Llm\<close>. In the first a static finding and one of
  the LLM analyzer on the same line, in categories and with titles that have the same
  normal form, are merged onto the latter, and a third finding two lines below is kept.
  In the second the finding of the LLM analyzer comes first and anchors its cluster. In
  both, a second pass returns the output of the first.
\<close>

theorem deduplicate_idempotent_iff_witness:
  "clusterFindings
     [finding ''1'' ''SQL Injection'' ''A03:2021'' 10 Static,
      finding ''2'' ''sql injection '' ''A03:2021 - Injection'' 10 Llm,
      finding ''3'' ''SQL Injection'' ''A03:2021'' 12 Static]
     = [[finding ''1'' ''SQL Injection'' ''A03:2021'' 10 Static,
         finding ''2'' ''sql injection '' ''A03:2021 - Injection'' 10 Llm],
        [finding ''3'' ''SQL Injection'' ''A03:2021'' 12 Static]]
   \<and> baseRecord [finding ''1'' ''SQL Injection'' ''A03:2021'' 10 Static,
                  finding ''2'' ''sql injection '' ''A03:2021 - Injection'' 10 Llm]
       = finding ''2'' ''sql injection '' ''A03:2021 - Injection'' 10 Llm
   \<and> duplicateKey (finding ''2'' ''sql injection '' ''A03:2021 - Injection'' 10 Llm)
       = duplicateKey (finding ''1'' ''SQL Injection'' ''A03:2021'' 10 Static)
   \<and> deduplicate
        [finding ''1'' ''SQL Injection'' ''A03:2021'' 10 Static,
         finding ''2'' ''sql injection '' ''A03:2021 - Injection'' 10 Llm,
         finding ''3'' ''SQL Injection'' ''A03:2021'' 12 Static]
       = Some [finding ''2'' ''sql injection '' ''A03:2021 - Injection'' 10 Merged,
               finding ''3'' ''SQL Injection'' ''A03:2021'' 12 Static]
   \<and> deduplicate
        [finding ''2'' ''sql injection '' ''A03:2021 - Injection'' 10 Merged,
         finding ''3'' ''SQL Injection'' ''A03:2021'' 12 Static]
       = Some [finding ''2'' ''sql injection '' ''A03:2021 - Injection'' 10 Merged,
               finding ''3'' ''SQL Injection'' ''A03:2021'' 12 Static]
   \<and> noDuplicates
        [finding ''2'' ''sql injection '' ''A03:2021 - Injection'' 10 Merged,
         finding ''3'' ''SQL Injection'' ''A03:2021'' 12 Static]
   \<and> clusterFindings
        [finding ''1'' ''SQL Injection'' ''A03:2021'' 10 Llm,
         finding ''2'' ''SQL Injection'' ''A03:2021'' 11 Static,
         finding ''3'' ''SQL Injection'' ''A03:2021'' 12 Static]
       = [[finding ''1'' ''SQL Injection'' ''A03:2021'' 10 Llm,
           finding ''2'' ''SQL Injection'' ''A03:2021'' 11 Static],
          [finding ''3'' ''SQL Injection'' ''A03:2021'' 12 Static]]
   \<and> source (finding ''1'' ''SQL Injection'' ''A03:2021'' 10 Llm) = Llm
   \<and> source (finding ''3'' ''SQL Injection'' ''A03:2021'' 12 Static) \<noteq> Llm
   \<and> deduplicate
        [finding ''1'' ''SQL Injection'' ''A03:2021'' 10 Llm,
         finding ''2'' ''SQL Injection'' ''A03:2021'' 11 Static,
         finding ''3'' ''SQL Injection'' ''A03:2021'' 12 Static]
       = Some [finding ''1'' ''SQL Injection'' ''A03:2021'' 10 Merged,
               finding ''3'' ''SQL Injection'' ''A03:2021'' 12 Static]
   \<and> deduplicate
        [finding ''1'' ''SQL Injection'' ''A03:2021'' 10 Merged,
         finding ''3'' ''SQL Injection'' ''A03:2021'' 12 Static]
       = Some [finding ''1'' ''SQL Injection'' ''A03:2021'' 10 Merged,
               finding ''3'' ''SQL Injection'' ''A03:2021'' 12 Static]"
proof -
  let ?s10 = "finding ''1'' ''SQL Injection'' ''A03:2021'' 10 Static"
  let ?l10 = "finding ''2'' ''sql injection '' ''A03:2021 - Injection'' 10 Llm"
  let ?s12 = "finding ''3'' ''SQL Injection'' ''A03:2021'' 12 Static"
  let ?m10 = "finding ''2'' ''sql injection '' ''A03:2021 - Injection'' 10 Merged"
  let ?a10 = "finding ''1'' ''SQL Injection'' ''A03:2021'' 10 Llm"
  let ?s11 = "finding ''2'' ''SQL Injection'' ''A03:2021'' 11 Static"
  let ?n10 = "finding ''1'' ''SQL Injection'' ''A03:2021'' 10 Merged"
  have cl: "clusterFindings [?s10, ?l10, ?s12] = [[?s10, ?l10], [?s12]]"
    by (simp add: clusterFindings_clusterPass finding_eval string_eval)
  have base: "baseRecord [?s10, ?l10] = ?l10"
    by (simp add: baseRecord_def finding_def)
  have key: "duplicateKey ?l10 = duplicateKey ?s10"
    by (simp add: duplicateKey_def finding_def string_eval)
  have first: "deduplicate [?s10, ?l10, ?s12] = Some [?m10, ?s12]"
    by (simp add: deduplicate_anchorPass finding_eval string_eval)
  have agree: "\<forall>c\<in>set (clusterFindings [?s10, ?l10, ?s12]).
      duplicateKey (baseRecord c) = duplicateKey (hd c)"
    unfolding cl using base key by (simp add: baseRecord_def)
  obtain ys where ys: "deduplicate [?s10, ?l10, ?s12] = Some ys"
    and idem: "(\<forall>c\<in>set (clusterFindings [?s10, ?l10, ?s12]).
        duplicateKey (baseRecord c) = duplicateKey (hd c))
        \<longrightarrow> deduplicate ys = Some ys \<and> noDuplicates ys"
    using deduplicate_idempotent_iff[of "[?s10, ?l10, ?s12]"] by blast
  have "ys = [?m10, ?s12]"
    using ys first by simp
  then have second: "deduplicate [?m10, ?s12] = Some [?m10, ?s12] \<and> noDuplicates [?m10, ?s12]"
    using idem agree by simp
  have cl': "clusterFindings [?a10, ?s11, ?s12] = [[?a10, ?s11], [?s12]]"
    by (simp add: clusterFindings_clusterPass finding_eval string_eval)
  have src: "source ?a10 = Llm" "source ?s12 \<noteq> Llm"
    by (simp_all add: finding_def)
  have first': "deduplicate [?a10, ?s11, ?s12] = Some [?n10, ?s12]"
    by (simp add: deduplicate_anchorPass finding_eval string_eval)
  have anchored: "\<forall>c\<in>set (clusterFindings [?a10, ?s11, ?s12]).
      source (hd c) = Llm \<or> (\<forall>f\<in>set c. source f \<noteq> Llm)"
    unfolding cl' using src by simp
  obtain zs where zs: "deduplicate [?a10, ?s11, ?s12] = Some zs"
    and idem': "(\<forall>c\<in>set (clusterFindings [?a10, ?s11, ?s12]).
        source (hd c) = Llm \<or> (\<forall>f\<in>set c. source f \<noteq> Llm))
        \<longrightarrow> deduplicate zs = Some zs \<and> noDuplicates zs"
    using deduplicate_idempotent_iff[of "[?a10, ?s11, ?s12]"] by blast
  have "zs = [?n10, ?s12]"
    using zs first' by simp
  then have second': "deduplicate [?n10, ?s12] = Some [?n10, ?s12]"
    using idem' anchored by simp
  show ?thesis
    by (intro conjI cl base key first second[THEN conjunct1] second[THEN conjunct2] cl'
          src first' second')
qed

text \<open>
  Claim C1, as stated, fails. A static finding on line 10 and an LLM finding on line 11
  are merged onto the LLM finding, so the merged finding is on line 11; a third finding on
  line 12 is no duplicate of the anchor on line 10 and is kept. The two findings of the
  output are duplicates of each other, and a second pass merges them.
\<close>

theorem deduplicate_not_idempotent:
  "deduplicate [finding ''1'' ''SQL Injection'' ''A03:2021'' 10 Static,
                finding ''2'' ''SQL Injection'' ''A03:2021'' 11 Llm,
                finding ''3'' ''SQL Injection'' ''A03:2021'' 12 Static]
     = Some [finding ''2'' ''SQL Injection'' ''A03:2021'' 11 Merged,
             finding ''3'' ''SQL Injection'' ''A03:2021'' 12 Static]
   \<and> deduplicate [finding ''2'' ''SQL Injection'' ''A03:2021'' 11 Merged,
                   finding ''3'' ''SQL Injection'' ''A03:2021'' 12 Static]
     = Some [finding ''2'' ''SQL Injection'' ''A03:2021'' 11 Merged]
   \<and> isDuplicate (finding ''2'' ''SQL Injection'' ''A03:2021'' 11 Merged)
         (finding ''3'' ''SQL Injection'' ''A03:2021'' 12 Static)"
  by (simp add: deduplicate_anchorPass finding_eval string_eval)

section \<open>The Formatter: populated fields\<close>

lemma generateId_nonempty: "generateId now issue index \<noteq> []"
  by (simp add: generateId_def Let_def)

lemma ensureUniqueIds_nonempty:
  "g \<in> set (ensureUniqueIds idClock xs) \<Longrightarrow> id_field g \<noteq> []"
  by (auto simp: ensureUniqueIds_def generateId_nonempty split: if_splits)

lemma set_sortIssues: "set (sortIssues xs) = set xs"
  using mset_sortIssues[of xs] by (metis set_mset_mset)

lemma validateIssue_populated:
  "id_field g \<noteq> [] \<Longrightarrow>
     id_field (validateIssue g) \<noteq> [] \<and> title (validateIssue g) \<noteq> []
     \<and> description (validateIssue g) \<noteq> [] \<and> owaspCategory (validateIssue g) \<noteq> []
     \<and> fix_field (validateIssue g) \<noteq> []
     \<and> severity (validateIssue g) \<in> set severityOrderList
     \<and> codeSnippet (validateIssue g) \<noteq> Some []"
  by (cases "severity g")
     (auto simp: validateIssue_def orDefault_def severityOrderList_def split: option.splits)

lemma position_validateIssue: "position (validateIssue g) = position g"
  by (simp add: position_def validateIssue_def orZero_def)

lemma position_ensureUniqueIds: "map position (ensureUniqueIds idClock xs) = map position xs"
proof -
  have "map position (ensureUniqueIds idClock xs) = map (position \<circ> snd) (enumerate 0 xs)"
    unfolding ensureUniqueIds_def map_map
    by (rule map_cong) (auto simp: position_def)
  also have "\<dots> = map position (map snd (enumerate 0 xs))"
    by (simp only: map_map)
  also have "\<dots> = map position xs"
    by (simp only: map_snd_enumerate)
  finally show ?thesis .
qed

text \<open>
  Claim C2, as amended. Every finding that \<^verbatim>\<open>format\<close> returns has a non-empty
  identifier, title, description, category and fix (a default stands in for an empty one),
  a severity among the five levels and no empty snippet. Its line and columns are those of
  the input finding: the findings returned have the places of the input findings, each the
  same number of times, and nothing makes the line at least 1 or the end column at least
  the start column.
\<close>

theorem format_fields_populated:
  "(\<forall>f\<in>set (issues (format idClock isoNow xs md)).
       id_field f \<noteq> [] \<and> title f \<noteq> [] \<and> description f \<noteq> [] \<and> owaspCategory f \<noteq> []
       \<and> fix_field f \<noteq> [] \<and> severity f \<in> set severityOrderList \<and> codeSnippet f \<noteq> Some [])
   \<and> mset (map position (issues (format idClock isoNow xs md))) = mset (map position xs)"
proof
  show "\<forall>f\<in>set (issues (format idClock isoNow xs md)).
       id_field f \<noteq> [] \<and> title f \<noteq> [] \<and> description f \<noteq> [] \<and> owaspCategory f \<noteq> []
       \<and> fix_field f \<noteq> [] \<and> severity f \<in> set severityOrderList \<and> codeSnippet f \<noteq> Some []"
  proof
    fix f assume "f \<in> set (issues (format idClock isoNow xs md))"
    then obtain g where g: "g \<in> set (ensureUniqueIds idClock xs)" "f = validateIssue g"
      by (auto simp: issues_format set_sortIssues)
    show "id_field f \<noteq> [] \<and> title f \<noteq> [] \<and> description f \<noteq> [] \<and> owaspCategory f \<noteq> []
       \<and> fix_field f \<noteq> [] \<and> severity f \<in> set severityOrderList \<and> codeSnippet f \<noteq> Some []"
      unfolding g(2) by (rule validateIssue_populated[OF ensureUniqueIds_nonempty[OF g(1)]])
  qed
next
  have "mset (map position (issues (format idClock isoNow xs md)))
        = mset (map position (sortIssues (ensureUniqueIds idClock xs)))"
    by (simp add: issues_format o_def position_validateIssue)
  also have "\<dots> = image_mset position (mset (sortIssues (ensureUniqueIds idClock xs)))"
    by simp
  also have "\<dots> = image_mset position (mset (ensureUniqueIds idClock xs))"
    by (simp only: mset_sortIssues)
  also have "\<dots> = mset (map position (ensureUniqueIds idClock xs))"
    by simp
  also have "\<dots> = mset (map position xs)"
    by (simp only: position_ensureUniqueIds)
  finally show "mset (map position (issues (format idClock isoNow xs md))) = mset (map position xs)" .
qed


lemmas format_eval = issues_format ensureUniqueIds_def enumerate_eq_zip trim_def isWhiteSpace_def
  sortIssues_def arraySort_def compareIssues_def validateIssue_def orDefault_def orZero_def
  generateId_def toUpperCase_def toUpperChar_def upperCaseUnits_def lowerCaseUnits_def
  numberToString_def digits.simps exampleClock_def

theorem format_fields_populated_witness:
  "issues (format (clk_id exampleClock) (clk_formatIso exampleClock)
      [\<lparr>id_field = '' '', title = [], description = [], severity = MEDIUM,
        owaspCategory = [], line = 5, columnStart = 0, columnEnd = 10,
        fix_field = [], source = Static, codeSnippet = Some []\<rparr>] exampleMetadata)
     = [\<lparr>id_field = ''MED-5-1004-0'', title = ''Unknown Issue'',
         description = ''No description available'', severity = MEDIUM,
         owaspCategory = ''Unknown'', line = 5, columnStart = 0, columnEnd = 10,
         fix_field = ''No fix recommendation available'', source = Static,
         codeSnippet = None\<rparr>]
   \<and> id_field (hd (issues (format (clk_id exampleClock) (clk_formatIso exampleClock)
         [\<lparr>id_field = '' '', title = [], description = [], severity = MEDIUM,
           owaspCategory = [], line = 5, columnStart = 0, columnEnd = 10,
           fix_field = [], source = Static, codeSnippet = Some []\<rparr>] exampleMetadata))) \<noteq> []
   \<and> mset (map position (issues (format (clk_id exampleClock) (clk_formatIso exampleClock)
         [\<lparr>id_field = '' '', title = [], description = [], severity = MEDIUM,
           owaspCategory = [], line = 5, columnStart = 0, columnEnd = 10,
           fix_field = [], source = Static, codeSnippet = Some []\<rparr>] exampleMetadata)))
       = {#(5, 0, 10)#}"
proof -
  let ?xs = "[\<lparr>id_field = '' '', title = [], description = [], severity = MEDIUM,
        owaspCategory = [], line = 5, columnStart = 0, columnEnd = 10,
        fix_field = [], source = Static, codeSnippet = Some []\<rparr>]"
  let ?out = "issues (format (clk_id exampleClock) (clk_formatIso exampleClock) ?xs exampleMetadata)"
  have out: "?out
     = [\<lparr>id_field = ''MED-5-1004-0'', title = ''Unknown Issue'',
         description = ''No description available'', severity = MEDIUM,
         owaspCategory = ''Unknown'', line = 5, columnStart = 0, columnEnd = 10,
         fix_field = ''No fix recommendation available'', source = Static,
         codeSnippet = None\<rparr>]"
    by (simp add: format_eval)
  then have mem: "hd ?out \<in> set ?out"
    by simp
  have all: "(\<forall>f\<in>set ?out.
       id_field f \<noteq> [] \<and> title f \<noteq> [] \<and> description f \<noteq> [] \<and> owaspCategory f \<noteq> []
       \<and> fix_field f \<noteq> [] \<and> severity f \<in> set severityOrderList \<and> codeSnippet f \<noteq> Some [])"
    and places: "mset (map position ?out) = mset (map position ?xs)"
    using format_fields_populated[of "clk_id exampleClock" "clk_formatIso exampleClock"
      ?xs exampleMetadata]
    by simp_all
  have "id_field (hd ?out) \<noteq> []"
    using all mem by blast
  moreover have "mset (map position ?out) = {#(5, 0, 10)#}"
    using places by (simp add: position_def)
  ultimately show ?thesis
    using out by simp
qed

text \<open>
  Claim C2, as stated, fails. The LLM analyzer maps an answer that names line 0 and a
  start column 5 to a finding on line 0 whose end column is the length of the missing
  line, 0; \<^verbatim>\<open>format\<close> returns that finding with its line and columns as they are.
\<close>

theorem format_line_and_columns_unchecked:
  "issues (format (clk_id exampleClock) (clk_formatIso exampleClock)
     (mapToVulnerabilityIssues exampleUuid
        [\<lparr>v_title = ''Weak hash'', v_description = ''MD5 is broken'', v_severity = ''High'',
          v_owaspCategory = ''A02:2021'', v_line = 0, v_columnStart = Some 5,
          v_columnEnd = None, v_fix = ''Use SHA-256''\<rparr>]
        \<lparr>raw = ''md5(x)'', lines = [''md5(x)'']\<rparr>)
     exampleMetadata)
   = [\<lparr>id_field = ''uuid-0'', title = ''Weak hash'', description = ''MD5 is broken'',
       severity = HIGH, owaspCategory = ''A02:2021'', line = 0, columnStart = 5,
       columnEnd = 0, fix_field = ''Use SHA-256'', source = Llm, codeSnippet = None\<rparr>]"
  by (simp add: format_eval mapToVulnerabilityIssues_def lineAt_def exampleUuid_def
        normalizeSeverity_def lower_eval)

section \<open>The scan engine: empty source text\<close>

lemma trim_empty_iff: "trim s = [] \<longleftrightarrow> (\<forall>c\<in>set s. isWhiteSpace c)"
proof
  assume "trim s = []"
  then have all: "\<forall>c\<in>set (dropWhile isWhiteSpace s). isWhiteSpace c"
    by (simp add: trim_def)
  have "dropWhile isWhiteSpace s = []"
  proof (rule ccontr)
    assume ne: "dropWhile isWhiteSpace s \<noteq> []"
    then have "\<not> isWhiteSpace (hd (dropWhile isWhiteSpace s))"
      by (rule hd_dropWhile)
    moreover have "hd (dropWhile isWhiteSpace s) \<in> set (dropWhile isWhiteSpace s)"
      using ne by simp
    ultimately show False using all by blast
  qed
  then show "\<forall>c\<in>set s. isWhiteSpace c"
    by simp
next
  assume "\<forall>c\<in>set s. isWhiteSpace c"
  then have d: "dropWhile isWhiteSpace s = []" by simp
  show "trim s = []" unfolding trim_def d by simp
qed

text \<open>
  Claim C4, as amended. For a source text that is empty or holds white space only,
  \<^verbatim>\<open>scan\<close> returns a result that is no success, with no issues, with the one error
  \<^verbatim>\<open>Invalid input: Code cannot be empty\<close>, and with metadata that name no analyzer,
  no line and no rule. The duration is the time from the clock reading that
  \<^verbatim>\<open>validateInput\<close> passes on to the reading that \<^verbatim>\<open>createErrorResult\<close> takes:
  it is zero when the clock does not advance between the two.
\<close>

theorem scan_empty_source:
  assumes "\<forall>c\<in>set code. isWhiteSpace c"
  shows "success (scan comps clock code lang) = False
     \<and> issues (scan comps clock code lang) = []
     \<and> errors (scan comps clock code lang) = Some [''Invalid input: Code cannot be empty'']
     \<and> (\<exists>before after. ''Invalid input: Code cannot be empty'' = before @ ''empty'' @ after)
     \<and> analyzersUsed (metadata (scan comps clock code lang)) = []
     \<and> linesOfCode (metadata (scan comps clock code lang)) = 0
     \<and> staticRulesApplied (metadata (scan comps clock code lang)) = 0
     \<and> duration (metadata (scan comps clock code lang)) = clk_error clock - clk_validate clock
     \<and> (clk_error clock = clk_validate clock
          \<longrightarrow> duration (metadata (scan comps clock code lang)) = 0)"
proof -
  have "trim code = []"
    using assms by (simp add: trim_empty_iff)
  then have r: "scan comps clock code lang
      = createErrorResult clock ''Invalid input: Code cannot be empty'' (clk_validate clock)"
    by (simp add: scan_def validateInput_def)
  have "''Invalid input: Code cannot be empty'' = ''Invalid input: Code cannot be '' @ ''empty'' @ []"
    by simp
  then have mention: "\<exists>before after. ''Invalid input: Code cannot be empty'' = before @ ''empty'' @ after"
    by blast
  show ?thesis
    unfolding r using mention by (simp add: createErrorResult_def)
qed

theorem scan_empty_source_witness:
  "isWhiteSpace (CHR '' '') \<and> isWhiteSpace (CHR 0x0A) \<and> isWhiteSpace (CHR 0x09)
   \<and> success (scan (engineComponents (exampleEnvironment Aborted)) exampleClock
        [CHR '' '', CHR 0x0A, CHR 0x09] ''javascript'') = False
   \<and> issues (scan (engineComponents (exampleEnvironment Aborted)) exampleClock
        [CHR '' '', CHR 0x0A, CHR 0x09] ''javascript'') = []
   \<and> analyzersUsed (metadata (scan (engineComponents (exampleEnvironment Aborted)) exampleClock
        [CHR '' '', CHR 0x0A, CHR 0x09] ''javascript'')) = []
   \<and> duration (metadata (scan (engineComponents (exampleEnvironment Aborted)) exampleClock
        [CHR '' '', CHR 0x0A, CHR 0x09] ''javascript'')) = 1"
proof -
  have h: "\<forall>c\<in>set [CHR '' '', CHR 0x0A, CHR 0x09]. isWhiteSpace c"
    by (simp add: isWhiteSpace_def)
  show ?thesis
    using h scan_empty_source[OF h, of "engineComponents (exampleEnvironment Aborted)"
        exampleClock "''javascript''"]
    by (simp add: exampleClock_def)
qed

text \<open>
  Claim C4, as stated, fails in its last part. When the clock advances by a millisecond
  between the two readings, the result for the empty source text has the duration 1.
\<close>

theorem scan_empty_source_duration:
  "duration (metadata (SecurityScanEngine_scan (exampleEnvironment (Content ''[]''))
      exampleClock [] ''javascript'')) = 1"
  by (simp add: SecurityScanEngine_scan_def scan_def validateInput_def createErrorResult_def
        exampleClock_def)

section \<open>The scan engine: failures of the analyzers\<close>

lemma executeAnalyzers_engine:
  "executeAnalyzers (engineComponents env) parsedCode =
     [\<lparr>ar_source = Static,
       ar_issues = StaticAnalyzer_analyze (env_rules env) (env_staticUuid env) parsedCode,
       ar_errors = []\<rparr>,
      \<lparr>ar_source = Llm,
       ar_issues = LLMAnalyzer_analyze (env_timeout env) (env_parseResponse env)
                     (env_llmUuid env) (env_remote env) parsedCode,
       ar_errors = []\<rparr>]"
  by (simp add: executeAnalyzers_def runStaticAnalyzer_def runLLMAnalyzer_def
        engineComponents_def)

lemma getErrors_engine:
  "getErrors (executeAnalyzers (engineComponents env) parsedCode) = []"
  by (simp add: executeAnalyzers_engine getErrors_def)

lemma LLMAnalyzer_analyze_failure:
  "callLLMWithTimeout timeout outcome = Inl e \<Longrightarrow>
     LLMAnalyzer_analyze timeout parseResponse uuid outcome parsedCode = []"
  by (simp add: LLMAnalyzer_analyze_def)

lemma errors_createErrorResult: "success (createErrorResult clock message startTime) = False"
  by (simp add: createErrorResult_def)

lemma success_format: "success (format idClock isoNow xs md) = True"
  and errors_format: "errors (format idClock isoNow xs md) = None"
  by (simp_all add: format_def Let_def)

text \<open>
  The engine as built never reports a failure of an analyzer: whenever its scan is a
  success, the result has no \<open>errors\<close>.
\<close>

lemma engine_success_no_errors:
  assumes "success (SecurityScanEngine_scan env clock code lang)"
  shows "errors (SecurityScanEngine_scan env clock code lang) = None"
proof (cases "validateInput clock code lang")
  case (Some r)
  then have "SecurityScanEngine_scan env clock code lang = r"
    by (simp add: SecurityScanEngine_scan_def scan_def)
  moreover have "success r = False"
    using Some by (auto simp: validateInput_def errors_createErrorResult split: if_splits)
  ultimately show ?thesis using assms by simp
next
  case None
  note valid = None
  let ?lang = "detect (engineComponents env) code lang"
  show ?thesis
  proof (cases "isSupported ?lang")
    case False
    then have "SecurityScanEngine_scan env clock code lang
        = createErrorResult clock
            (''Unsupported language: '' @ languageValue ?lang
               @ ''. Only JavaScript and TypeScript are supported.'') (clk_start clock)"
      using valid by (simp add: SecurityScanEngine_scan_def scan_def Let_def)
    then show ?thesis using assms by (simp add: errors_createErrorResult)
  next
    case True
    have p: "parse (engineComponents env) code ?lang = Inr \<lparr>raw = code, lines = splitLines code\<rparr>"
      by (simp add: engineComponents_def CodeParser_parse_def)
    show ?thesis
      using valid True
      by (simp add: SecurityScanEngine_scan_def scan_def Let_def p getErrors_engine
            deduplicate_anchorPass errors_format)
  qed
qed

text \<open>
  On input that passes validation, in a supported language and parsed, \<^verbatim>\<open>scan\<close> is
  a success whatever the two analyzers do, and its result has errors exactly when one of
  the two calls throws.
\<close>

lemma scan_adapter_failures:
  assumes "validateInput clock code lang = None"
    and "isSupported (detect comps code lang)"
    and "parse comps code (detect comps code lang) = Inr parsedCode"
  shows "success (scan comps clock code lang) = True"
    and "errors (scan comps clock code lang) = None \<longleftrightarrow>
           (\<exists>found. staticAnalyze comps parsedCode = Inr found)
           \<and> (\<exists>found. llmAnalyze comps parsedCode = Inr found)"
proof -
  show "success (scan comps clock code lang) = True"
    using assms by (simp add: scan_def Let_def deduplicate_anchorPass success_format)
  have "getErrors (executeAnalyzers comps parsedCode) = [] \<longleftrightarrow>
           (\<exists>found. staticAnalyze comps parsedCode = Inr found)
           \<and> (\<exists>found. llmAnalyze comps parsedCode = Inr found)"
    by (auto simp: getErrors_def executeAnalyzers_def runStaticAnalyzer_def runLLMAnalyzer_def
          split: sum.splits)
  then show "errors (scan comps clock code lang) = None \<longleftrightarrow>
           (\<exists>found. staticAnalyze comps parsedCode = Inr found)
           \<and> (\<exists>found. llmAnalyze comps parsedCode = Inr found)"
    using assms by (auto simp: scan_def Let_def deduplicate_anchorPass errors_format)
qed

lemma scan_engine_steps:
  assumes "validateInput clock code lang = None"
    and "env_detect env code lang = detected" and "isSupported detected"
    and "StaticAnalyzer_analyze (env_rules env) (env_staticUuid env)
           \<lparr>raw = code, lines = splitLines code\<rparr> = staticFound"
    and "LLMAnalyzer_analyze (env_timeout env) (env_parseResponse env) (env_llmUuid env)
           (env_remote env) \<lparr>raw = code, lines = splitLines code\<rparr> = llmFound"
    and "deduplicate (staticFound @ llmFound) = Some deduplicated"
  shows "SecurityScanEngine_scan env clock code lang
     = format (clk_id clock) (clk_formatIso clock) deduplicated
         \<lparr>timestamp = clk_metaIso clock,
          duration = clk_meta clock - clk_start clock,
          language = languageValue detected,
          linesOfCode = length (splitLines code),
          analyzersUsed = [''static'', ''llm''],
          staticRulesApplied = length (env_rules env),
          llmModel = Some ''gpt-4o-mini''\<rparr>"
proof -
  have d: "detect (engineComponents env) code lang = detected"
    using assms(2) by (simp add: engineComponents_def)
  have p: "parse (engineComponents env) code detected = Inr \<lparr>raw = code, lines = splitLines code\<rparr>"
    by (simp add: engineComponents_def CodeParser_parse_def)
  have r: "ruleCount (engineComponents env) = length (env_rules env)"
    by (simp add: engineComponents_def getRuleCount_def)
  have agg: "aggregate (executeAnalyzers (engineComponents env) \<lparr>raw = code, lines = splitLines code\<rparr>)
        = staticFound @ llmFound"
    using assms(4,5) by (simp add: executeAnalyzers_engine aggregate_def)
  have used: "map (\<lambda>r. sourceValue (ar_source r))
        (executeAnalyzers (engineComponents env) \<lparr>raw = code, lines = splitLines code\<rparr>)
        = [''static'', ''llm'']"
    by (simp add: executeAnalyzers_engine)
  show ?thesis
    unfolding SecurityScanEngine_scan_def scan_def
    using assms(1,3,6)
    by (simp add: Let_def d p r agg used getErrors_engine)
qed

text \<open>
  Claim C3 on the code. Take any scan of a source text that passes validation, in a
  supported language, in which the static analyzer returns one finding and the remote call
  of the LLM analyzer is aborted by the timer. The scan is a success and its one issue is
  the finding of the static analyzer, at its place and with its severity and source, but
  the result has no \<open>errors\<close>: \<^verbatim>\<open>LLMAnalyzer.analyze\<close> catches the timeout, logs it
  and returns the empty array, so the engine never learns of it and no entry names the
  llm source.
\<close>

theorem scan_llm_timeout_no_error_entry:
  assumes "env_remote env = Aborted"
    and "validateInput clock code lang = None"
    and "isSupported (env_detect env code lang)"
    and "StaticAnalyzer_analyze (env_rules env) (env_staticUuid env)
           \<lparr>raw = code, lines = splitLines code\<rparr> = [f]"
  shows "success (SecurityScanEngine_scan env clock code lang) = True
     \<and> issues (SecurityScanEngine_scan env clock code lang)
         = validateIssues (ensureUniqueIds (clk_id clock) [f])
     \<and> map position (issues (SecurityScanEngine_scan env clock code lang)) = [position f]
     \<and> map severity (issues (SecurityScanEngine_scan env clock code lang)) = [severity f]
     \<and> map source (issues (SecurityScanEngine_scan env clock code lang)) = [source f]
     \<and> errors (SecurityScanEngine_scan env clock code lang) = None
     \<and> analyzersUsed (metadata (SecurityScanEngine_scan env clock code lang))
         = [''static'', ''llm'']
     \<and> staticRulesApplied (metadata (SecurityScanEngine_scan env clock code lang))
         = length (env_rules env)"
proof -
  let ?parsed = "\<lparr>raw = code, lines = splitLines code\<rparr>"
  have "callLLMWithTimeout (env_timeout env) (env_remote env)
      = Inl (Error (''LLM API timeout after '' @ numberToString (env_timeout env) @ ''ms''))"
    using assms(1) by (simp add: callLLMWithTimeout_def)
  then have llm: "LLMAnalyzer_analyze (env_timeout env) (env_parseResponse env) (env_llmUuid env)
           (env_remote env) ?parsed = []"
    by (rule LLMAnalyzer_analyze_failure)
  have dd: "deduplicate ([f] @ []) = Some [f]"
    by (simp add: deduplicate_anchorPass)
  note r = scan_engine_steps[OF assms(2) refl assms(3) assms(4) llm dd]
  have i: "issues (SecurityScanEngine_scan env clock code lang)
      = validateIssues (ensureUniqueIds (clk_id clock) [f])"
    unfolding r by (simp add: format_def Let_def sortIssues_def arraySort_def ensureUniqueIds_def)
  have pos: "map position (validateIssues (ensureUniqueIds (clk_id clock) [f])) = [position f]"
    by (simp add: validateIssues_def ensureUniqueIds_def validateIssue_def position_def
          orZero_def)
  have sev: "map severity (validateIssues (ensureUniqueIds (clk_id clock) [f])) = [severity f]"
    by (simp add: validateIssues_def ensureUniqueIds_def validateIssue_def)
  have src: "map source (validateIssues (ensureUniqueIds (clk_id clock) [f])) = [source f]"
    by (simp add: validateIssues_def ensureUniqueIds_def validateIssue_def)
  have rest: "success (SecurityScanEngine_scan env clock code lang) = True
     \<and> errors (SecurityScanEngine_scan env clock code lang) = None
     \<and> analyzersUsed (metadata (SecurityScanEngine_scan env clock code lang))
         = [''static'', ''llm'']
     \<and> staticRulesApplied (metadata (SecurityScanEngine_scan env clock code lang))
         = length (env_rules env)"
    unfolding r by (simp add: format_def Let_def validateMetadata_def)
  show ?thesis
    using rest pos sev src unfolding i by simp
qed

text \<open>
  The scan of the repository's test for this case: the source text holds one use of MD5,
  the hint is \<^verbatim>\<open>javascript\<close>, and the remote call is aborted by the timer. The four
  rules are applied and the rule for insecure cryptography gives the one issue.
\<close>

theorem scan_llm_timeout_no_error_entry_witness:
  "env_remote (exampleEnvironment Aborted) = Aborted
   \<and> validateInput exampleClock ''const hash = crypto.createHash('md5');'' ''javascript'' = None
   \<and> isSupported (env_detect (exampleEnvironment Aborted)
        ''const hash = crypto.createHash('md5');'' ''javascript'')
   \<and> StaticAnalyzer_analyze (env_rules (exampleEnvironment Aborted))
        (env_staticUuid (exampleEnvironment Aborted))
        \<lparr>raw = ''const hash = crypto.createHash('md5');'',
         lines = splitLines ''const hash = crypto.createHash('md5');''\<rparr>
       = [\<lparr>id_field = ''uuid-0'', title = ''Insecure Cryptography'',
           description = ''Insecure cryptographic algorithm detected. MD5, SHA1, DES, and RC4 are cryptographically broken and should not be used for security purposes.'',
           severity = HIGH, owaspCategory = ''A02:2021 - Cryptographic Failures'',
           line = 1, columnStart = 20, columnEnd = 36,
           fix_field = ''Use modern, secure algorithms: SHA-256 or SHA-3 for hashing, AES-256-GCM for encryption, and bcrypt/argon2 for password hashing.'',
           source = Static,
           codeSnippet = Some ''const hash = crypto.createHash('md5');''\<rparr>]
   \<and> success (SecurityScanEngine_scan (exampleEnvironment Aborted) exampleClock
        ''const hash = crypto.createHash('md5');'' ''javascript'') = True
   \<and> issues (SecurityScanEngine_scan (exampleEnvironment Aborted) exampleClock
        ''const hash = crypto.createHash('md5');'' ''javascript'')
       = [\<lparr>id_field = ''uuid-0'', title = ''Insecure Cryptography'',
           description = ''Insecure cryptographic algorithm detected. MD5, SHA1, DES, and RC4 are cryptographically broken and should not be used for security purposes.'',
           severity = HIGH, owaspCategory = ''A02:2021 - Cryptographic Failures'',
           line = 1, columnStart = 20, columnEnd = 36,
           fix_field = ''Use modern, secure algorithms: SHA-256 or SHA-3 for hashing, AES-256-GCM for encryption, and bcrypt/argon2 for password hashing.'',
           source = Static,
           codeSnippet = Some ''const hash = crypto.createHash('md5');''\<rparr>]
   \<and> errors (SecurityScanEngine_scan (exampleEnvironment Aborted) exampleClock
        ''const hash = crypto.createHash('md5');'' ''javascript'') = None
   \<and> analyzersUsed (metadata (SecurityScanEngine_scan (exampleEnvironment Aborted) exampleClock
        ''const hash = crypto.createHash('md5');'' ''javascript'')) = [''static'', ''llm'']
   \<and> staticRulesApplied (metadata (SecurityScanEngine_scan (exampleEnvironment Aborted)
        exampleClock ''const hash = crypto.createHash('md5');'' ''javascript'')) = 4"
proof -
  let ?code = "''const hash = crypto.createHash('md5');''"
  let ?env = "exampleEnvironment Aborted"
  let ?found = "\<lparr>id_field = ''uuid-0'', title = ''Insecure Cryptography'',
          description = ''Insecure cryptographic algorithm detected. MD5, SHA1, DES, and RC4 are cryptographically broken and should not be used for security purposes.'',
          severity = HIGH, owaspCategory = ''A02:2021 - Cryptographic Failures'',
          line = 1, columnStart = 20, columnEnd = 36,
          fix_field = ''Use modern, secure algorithms: SHA-256 or SHA-3 for hashing, AES-256-GCM for encryption, and bcrypt/argon2 for password hashing.'',
          source = Static,
          codeSnippet = Some ?code\<rparr>"
  have a: "env_remote ?env = Aborted"
    by (simp add: exampleEnvironment_def)
  have v: "validateInput exampleClock ?code ''javascript'' = None"
    by code_simp
  have d: "isSupported (env_detect ?env ?code ''javascript'')"
    by code_simp
  have st: "StaticAnalyzer_analyze (env_rules ?env) (env_staticUuid ?env)
           \<lparr>raw = ?code, lines = splitLines ?code\<rparr> = [?found]"
    by code_simp
  have fmt: "validateIssues (ensureUniqueIds (clk_id exampleClock) [?found]) = [?found]"
    by code_simp
  have n: "length (env_rules ?env) = 4"
    by (simp add: exampleEnvironment_def initializeRules_def)
  show ?thesis
    using scan_llm_timeout_no_error_entry[OF a v d st] a v d st
    unfolding fmt n by simp
qed

text \<open>
  Claim C5 on the code. Take any scan of a source text that passes validation, in a
  supported language, in which the remote call of the LLM analyzer fails: the key is
  missing, the timer aborts the call, the call is rejected, the answer is an HTTP error or
  has no content. The scan is a success, as the claim says, and its issues are those the
  static analyzer found, none if it found none; but the result has no \<open>errors\<close>: the
  failure of the adapter leaves no entry.
\<close>

theorem scan_llm_failure_no_error_entry:
  assumes "validateInput clock code lang = None"
    and "isSupported (env_detect env code lang)"
    and "callLLMWithTimeout (env_timeout env) (env_remote env) = Inl e"
  shows "success (SecurityScanEngine_scan env clock code lang) = True
     \<and> errors (SecurityScanEngine_scan env clock code lang) = None
     \<and> analyzersUsed (metadata (SecurityScanEngine_scan env clock code lang))
         = [''static'', ''llm'']
     \<and> (\<exists>deduplicated.
          deduplicate (StaticAnalyzer_analyze (env_rules env) (env_staticUuid env)
                         \<lparr>raw = code, lines = splitLines code\<rparr>) = Some deduplicated
          \<and> issues (SecurityScanEngine_scan env clock code lang)
              = validateIssues (sortIssues (ensureUniqueIds (clk_id clock) deduplicated)))
     \<and> (StaticAnalyzer_analyze (env_rules env) (env_staticUuid env)
           \<lparr>raw = code, lines = splitLines code\<rparr> = []
         \<longrightarrow> issues (SecurityScanEngine_scan env clock code lang) = [])"
proof -
  let ?parsed = "\<lparr>raw = code, lines = splitLines code\<rparr>"
  let ?static = "StaticAnalyzer_analyze (env_rules env) (env_staticUuid env) ?parsed"
  have llm: "LLMAnalyzer_analyze (env_timeout env) (env_parseResponse env) (env_llmUuid env)
           (env_remote env) ?parsed = []"
    using assms(3) by (rule LLMAnalyzer_analyze_failure)
  have dd: "deduplicate (?static @ []) = Some (anchorPass ?static)"
    by (simp add: deduplicate_anchorPass)
  note r = scan_engine_steps[OF assms(1) refl assms(2) refl llm dd]
  have i: "issues (SecurityScanEngine_scan env clock code lang)
      = validateIssues (sortIssues (ensureUniqueIds (clk_id clock) (anchorPass ?static)))"
    unfolding r by (simp add: format_def Let_def)
  have rest: "success (SecurityScanEngine_scan env clock code lang) = True
     \<and> errors (SecurityScanEngine_scan env clock code lang) = None
     \<and> analyzersUsed (metadata (SecurityScanEngine_scan env clock code lang))
         = [''static'', ''llm'']"
    unfolding r by (simp add: format_def Let_def validateMetadata_def)
  have ex: "\<exists>deduplicated.
          deduplicate ?static = Some deduplicated
          \<and> issues (SecurityScanEngine_scan env clock code lang)
              = validateIssues (sortIssues (ensureUniqueIds (clk_id clock) deduplicated))"
    using i by (simp add: deduplicate_anchorPass)
  have none: "?static = [] \<longrightarrow> issues (SecurityScanEngine_scan env clock code lang) = []"
  proof
    assume e: "?static = []"
    show "issues (SecurityScanEngine_scan env clock code lang) = []"
      unfolding i e
      by (simp add: validateIssues_def sortIssues_def arraySort_def ensureUniqueIds_def)
  qed
  show ?thesis
    using rest ex none by blast
qed

text \<open>
  The scan of the repository's test for this case: the source text is
  \<^verbatim>\<open>const x = 1;\<close>, in which no rule finds anything, the hint is
  \<^verbatim>\<open>javascript\<close>, and the remote call is rejected with a network error.
\<close>

theorem scan_llm_failure_no_error_entry_witness:
  "validateInput exampleClock ''const x = 1;'' ''javascript'' = None
   \<and> isSupported (env_detect (exampleEnvironment (FetchRejected (Error ''Network error'')))
        ''const x = 1;'' ''javascript'')
   \<and> callLLMWithTimeout
        (env_timeout (exampleEnvironment (FetchRejected (Error ''Network error''))))
        (env_remote (exampleEnvironment (FetchRejected (Error ''Network error''))))
       = Inl (Error ''Network error'')
   \<and> success (SecurityScanEngine_scan
        (exampleEnvironment (FetchRejected (Error ''Network error''))) exampleClock
        ''const x = 1;'' ''javascript'') = True
   \<and> issues (SecurityScanEngine_scan
        (exampleEnvironment (FetchRejected (Error ''Network error''))) exampleClock
        ''const x = 1;'' ''javascript'') = []
   \<and> errors (SecurityScanEngine_scan
        (exampleEnvironment (FetchRejected (Error ''Network error''))) exampleClock
        ''const x = 1;'' ''javascript'') = None
   \<and> analyzersUsed (metadata (SecurityScanEngine_scan
        (exampleEnvironment (FetchRejected (Error ''Network error''))) exampleClock
        ''const x = 1;'' ''javascript'')) = [''static'', ''llm'']"
proof -
  let ?code = "''const x = 1;''"
  let ?env = "exampleEnvironment (FetchRejected (Error ''Network error''))"
  have v: "validateInput exampleClock ?code ''javascript'' = None"
    by code_simp
  have d: "isSupported (env_detect ?env ?code ''javascript'')"
    by code_simp
  have c: "callLLMWithTimeout (env_timeout ?env) (env_remote ?env) = Inl (Error ''Network error'')"
    by (simp add: exampleEnvironment_def callLLMWithTimeout_def)
  have st: "StaticAnalyzer_analyze (env_rules ?env) (env_staticUuid ?env)
           \<lparr>raw = ?code, lines = splitLines ?code\<rparr> = []"
    by code_simp
  show ?thesis
    using scan_llm_failure_no_error_entry[OF v d c] v d c st by simp
qed

end
